(* ===== verification/Prelude.thy ===== *)
theory Prelude
  imports Main "HOL-Library.Word" "HOL-Library.Sublist"
begin

text \<open>
  Shared vocabulary of the development: Go's fixed-width integers, results that are either an
  error or a value, calls into stateful dependencies, and the "seen map plus result slice" idiom
  that three loops of the service use to drop duplicates while keeping the first occurrence.
\<close>

section \<open>Machine integers of the Go sources\<close>

type_synonym uint32 = "32 word"
type_synonym uint64 = "64 word"
type_synonym int64 = "64 word"  \<comment> \<open>two's complement, read with \<^const>\<open>sint\<close>\<close>
type_synonym float64 = "64 word"  \<comment> \<open>the IEEE 754 bit pattern; the code only copies it\<close>

named_theorems wrap_defs "definitions of error-building helpers, unfolded to see an error's shape"
named_theorems io_simps "rewrite rules for calls into stateful dependencies"

section \<open>Results and calls\<close>

text \<open>
  A Go function with results \<open>(T, error)\<close> returns \<open>Inl e\<close> for a non-nil error and \<open>Inr x\<close>
  otherwise; a function with the single result \<open>error\<close> returns an option, \<open>None\<close> for nil.
  A call into a dependency (the search engine, another service, the clock) additionally takes
  and returns the state \<open>'w\<close> of everything outside the function.
\<close>

type_synonym ('w, 'e, 'a) call = "'w \<Rightarrow> ('e + 'a) \<times> 'w"
type_synonym ('w, 'e) call_err = "'w \<Rightarrow> 'e option \<times> 'w"

fun is_ok :: "'e + 'a \<Rightarrow> bool" where
  "is_ok (Inl _) = False"
| "is_ok (Inr _) = True"

lemma is_ok_iff: "is_ok r \<longleftrightarrow> (\<exists>x. r = Inr x)"
  by (cases r) auto

lemma not_is_ok_iff: "\<not> is_ok r \<longleftrightarrow> (\<exists>e. r = Inl e)"
  by (cases r) auto

section \<open>Keeping first occurrences\<close>

text \<open>
  \<^verbatim>\<open>if _, ok := seen[x]; ok { continue }; seen[x] = struct{}{}; result = append(result, x)\<close>
\<close>

definition push_unique :: "'a \<Rightarrow> 'a set \<times> 'a list \<Rightarrow> 'a set \<times> 'a list" where
  "push_unique x acc = (case acc of (seen, result) \<Rightarrow>
     if x \<in> seen then (seen, result) else (insert x seen, result @ [x]))"

lemma push_unique_eval:
  "push_unique x (seen, result) = (if x \<in> seen then (seen, result) else (insert x seen, result @ [x]))"
  by (simp add: push_unique_def)

text \<open>The abstract counterpart: the list of first occurrences.\<close>

primrec uniq :: "'a list \<Rightarrow> 'a list" where
  "uniq [] = []"
| "uniq (x # xs) = x # filter (\<lambda>y. y \<noteq> x) (uniq xs)"

lemma set_uniq [simp]: "set (uniq xs) = set xs"
  by (induction xs) auto

lemma distinct_uniq [simp]: "distinct (uniq xs)"
  by (induction xs) auto

lemma uniq_distinct: "distinct xs \<Longrightarrow> uniq xs = xs"
proof (induction xs)
  case (Cons a xs)
  then have "\<forall>y \<in> set xs. y \<noteq> a" by auto
  with Cons show ?case by (simp add: filter_id_conv)
qed simp

lemma uniq_idem [simp]: "uniq (uniq xs) = uniq xs"
  by (rule uniq_distinct) simp

lemma subseq_uniq: "subseq (uniq xs) xs"
proof (induction xs)
  case (Cons a xs)
  have "subseq (filter (\<lambda>y. y \<noteq> a) (uniq xs)) (uniq xs)"
    by (rule subseq_filter_left)
  then have "subseq (filter (\<lambda>y. y \<noteq> a) (uniq xs)) xs"
    using Cons.IH by (rule subseq_order.order_trans)
  then show ?case by simp
qed simp

lemma uniq_eq_Nil [simp]: "uniq xs = [] \<longleftrightarrow> xs = []"
  by (cases xs) auto

lemma length_uniq_le: "length (uniq xs) \<le> length xs"
  using subseq_uniq [of xs] by (rule list_emb_length)

lemma fold_push_unique:
  "fold push_unique xs (set ys, ys) =
     (set ys \<union> set xs, ys @ filter (\<lambda>x. x \<notin> set ys) (uniq xs))"
proof (induction xs arbitrary: ys)
  case Nil
  then show ?case by simp
next
  case (Cons a xs)
  show ?case
  proof (cases "a \<in> set ys")
    case True
    then have "filter (\<lambda>x. x \<notin> set ys) (filter (\<lambda>y. y \<noteq> a) (uniq xs))
        = filter (\<lambda>x. x \<notin> set ys) (uniq xs)"
      by (auto intro!: filter_cong)
    with True Cons.IH [of ys] show ?thesis by (auto simp: push_unique_def)
  next
    case False
    have "fold push_unique (a # xs) (set ys, ys)
        = fold push_unique xs (set (ys @ [a]), ys @ [a])"
      using False by (simp add: push_unique_def)
    also have "\<dots> = (set (ys @ [a]) \<union> set xs,
        (ys @ [a]) @ filter (\<lambda>x. x \<notin> set (ys @ [a])) (uniq xs))"
      by (rule Cons.IH)
    also have "filter (\<lambda>x. x \<notin> set (ys @ [a])) (uniq xs)
        = filter (\<lambda>x. x \<notin> set ys) (filter (\<lambda>y. y \<noteq> a) (uniq xs))"
      by (auto intro!: filter_cong)
    finally show ?thesis using False by simp
  qed
qed

lemma fold_push_unique_Nil: "fold push_unique xs ({}, []) = (set xs, uniq xs)"
  using fold_push_unique [of xs "[]"] by simp

lemma fold_push_unique_one:
  "fold push_unique xs ({y}, [y]) = (insert y (set xs), uniq (y # xs))"
  using fold_push_unique [of xs "[y]"] by simp

section \<open>Small facts about maps and options\<close>

lemma option_all_cases: "(case x of None \<Rightarrow> P | Some y \<Rightarrow> Q y) \<longleftrightarrow> (x = None \<and> P \<or> (\<exists>y. x = Some y \<and> Q y))"
  by (cases x) auto

end
