(* ===== verification/GoStrings.thy ===== *)
theory GoStrings
  imports Prelude
begin

text \<open>
  The parts of Go's \<^verbatim>\<open>strings\<close>, \<^verbatim>\<open>strconv\<close> and \<^verbatim>\<open>net/url\<close> packages the service calls, on
  strings as byte sequences (\<^typ>\<open>string\<close>, one \<^typ>\<open>char\<close> per byte, UTF-8 encoded text).
\<close>

section \<open>strings.TrimSpace\<close>

text \<open>
  \<^verbatim>\<open>unicode.IsSpace\<close> holds of six ASCII bytes, of two code points with a two-byte encoding
  (U+0085, U+00A0) and of U+1680, U+2000..U+200A, U+2028, U+2029, U+202F, U+205F and U+3000,
  whose encodings have three bytes.
\<close>

definition ascii_space :: "char \<Rightarrow> bool" where
  "ascii_space c \<longleftrightarrow> c \<in> {CHR 0x09, CHR 0x0A, CHR 0x0B, CHR 0x0C, CHR 0x0D, CHR 0x20}"

definition space2 :: "char \<Rightarrow> char \<Rightarrow> bool" where
  "space2 a b \<longleftrightarrow> a = CHR 0xC2 \<and> b \<in> {CHR 0x85, CHR 0xA0}"

definition space3 :: "char \<Rightarrow> char \<Rightarrow> char \<Rightarrow> bool" where
  "space3 a b c \<longleftrightarrow>
     a = CHR 0xE1 \<and> b = CHR 0x9A \<and> c = CHR 0x80 \<or>
     a = CHR 0xE2 \<and> b = CHR 0x80 \<and>
       c \<in> {CHR 0x80, CHR 0x81, CHR 0x82, CHR 0x83, CHR 0x84, CHR 0x85, CHR 0x86, CHR 0x87,
             CHR 0x88, CHR 0x89, CHR 0x8A, CHR 0xA8, CHR 0xA9, CHR 0xAF} \<or>
     a = CHR 0xE2 \<and> b = CHR 0x81 \<and> c = CHR 0x9F \<or>
     a = CHR 0xE3 \<and> b = CHR 0x80 \<and> c = CHR 0x80"

text \<open>
  One function trims both ends: from the left with the encodings as they are, from the right on
  the reversed bytes with the reversed encodings.
\<close>

fun trim_with :: "(char \<Rightarrow> char \<Rightarrow> bool) \<Rightarrow> (char \<Rightarrow> char \<Rightarrow> char \<Rightarrow> bool) \<Rightarrow> string \<Rightarrow> string" where
  "trim_with p2 p3 [] = []"
| "trim_with p2 p3 [a] = (if ascii_space a then [] else [a])"
| "trim_with p2 p3 [a, b] =
     (if ascii_space a then trim_with p2 p3 [b] else if p2 a b then [] else [a, b])"
| "trim_with p2 p3 (a # b # c # s) =
     (if ascii_space a then trim_with p2 p3 (b # c # s)
      else if p2 a b then trim_with p2 p3 (c # s)
      else if p3 a b c then trim_with p2 p3 s
      else a # b # c # s)"

definition trim_left :: "string \<Rightarrow> string" where
  "trim_left s = trim_with space2 space3 s"

definition trim_right :: "string \<Rightarrow> string" where
  "trim_right s = rev (trim_with (\<lambda>b a. space2 a b) (\<lambda>c b a. space3 a b c) (rev s))"

definition TrimSpace :: "string \<Rightarrow> string" where
  "TrimSpace s = trim_right (trim_left s)"

text \<open>The strings that start with a space; trimming removes exactly such starts.\<close>

fun starts_with_space :: "(char \<Rightarrow> char \<Rightarrow> bool) \<Rightarrow> (char \<Rightarrow> char \<Rightarrow> char \<Rightarrow> bool) \<Rightarrow> string \<Rightarrow> bool" where
  "starts_with_space p2 p3 [] = False"
| "starts_with_space p2 p3 [a] = ascii_space a"
| "starts_with_space p2 p3 [a, b] = (ascii_space a \<or> p2 a b)"
| "starts_with_space p2 p3 (a # b # c # s) = (ascii_space a \<or> p2 a b \<or> p3 a b c)"

lemma trim_with_not_space: "\<not> starts_with_space p2 p3 (trim_with p2 p3 s)"
  by (induction p2 p3 s rule: trim_with.induct) simp_all

lemma trim_with_id: "\<not> starts_with_space p2 p3 s \<Longrightarrow> trim_with p2 p3 s = s"
  by (cases "(p2, p3, s)" rule: trim_with.cases) simp_all

lemma trim_with_suffix: "suffix (trim_with p2 p3 s) s"
  by (induction p2 p3 s rule: trim_with.induct) (simp_all add: suffix_ConsI)

lemma starts_with_space_append:
  "starts_with_space p2 p3 s \<Longrightarrow> starts_with_space p2 p3 (s @ t)"
  by (cases "(p2, p3, s)" rule: trim_with.cases; cases t; cases "tl t") auto

lemma trim_with_eq_self: "trim_with p2 p3 s = s \<longleftrightarrow> \<not> starts_with_space p2 p3 s"
  by (metis trim_with_not_space trim_with_id)

lemma trim_with_idem: "trim_with p2 p3 (trim_with p2 p3 s) = trim_with p2 p3 s"
  by (rule trim_with_id) (rule trim_with_not_space)

lemma trim_right_prefix: "prefix (trim_right s) s"
proof -
  have "suffix (trim_with (\<lambda>b a. space2 a b) (\<lambda>c b a. space3 a b c) (rev s)) (rev s)"
    by (rule trim_with_suffix)
  then show ?thesis by (simp add: trim_right_def suffix_to_prefix)
qed

lemma trim_right_idem: "trim_right (trim_right s) = trim_right s"
  by (simp add: trim_right_def trim_with_idem)

lemma trim_left_trim_right:
  assumes "trim_left s = s"
  shows "trim_left (trim_right s) = trim_right s"
proof -
  from trim_right_prefix obtain t where "s = trim_right s @ t"
    by (auto simp: prefix_def)
  with assms show ?thesis
    by (metis starts_with_space_append trim_left_def trim_with_eq_self)
qed

lemma TrimSpace_idem [simp]: "TrimSpace (TrimSpace s) = TrimSpace s"
proof -
  have "trim_left (trim_left s) = trim_left s"
    by (simp add: trim_left_def trim_with_idem)
  then show ?thesis
    by (simp add: TrimSpace_def trim_left_trim_right trim_right_idem)
qed

lemma TrimSpace_Nil [simp]: "TrimSpace [] = []"
  by (simp add: TrimSpace_def trim_left_def trim_right_def)

lemma TrimSpace_fixed:
  assumes "\<not> starts_with_space space2 space3 s"
    and "\<not> starts_with_space (\<lambda>b a. space2 a b) (\<lambda>c b a. space3 a b c) (rev s)"
  shows "TrimSpace s = s"
  using assms by (simp add: TrimSpace_def trim_left_def trim_right_def trim_with_id)

lemma TrimSpace_eq_imp_last:
  "TrimSpace s = s \<Longrightarrow>
     \<not> starts_with_space (\<lambda>b a. space2 a b) (\<lambda>c b a. space3 a b c) (rev s)"
  by (metis TrimSpace_def rev_rev_ident trim_right_def trim_with_not_space)

lemmas trim_eval = TrimSpace_def trim_left_def trim_right_def ascii_space_def space2_def space3_def

section \<open>Prefixes, cutting, joining\<close>

abbreviation HasPrefix :: "string \<Rightarrow> string \<Rightarrow> bool" where
  "HasPrefix s p \<equiv> prefix p s"

definition TrimSuffix :: "string \<Rightarrow> string \<Rightarrow> string" where
  "TrimSuffix s suf = (if suffix suf s then take (length s - length suf) s else s)"

text \<open>\<^verbatim>\<open>strings.Cut(s, sep)\<close> for a separator of one byte: before, after, found.\<close>

fun Cut :: "string \<Rightarrow> char \<Rightarrow> string \<times> string \<times> bool" where
  "Cut [] c = ([], [], False)"
| "Cut (x # s) c =
     (if x = c then ([], s, True)
      else (case Cut s c of (before, after, found) \<Rightarrow> (x # before, after, found)))"

fun Join :: "string list \<Rightarrow> string \<Rightarrow> string" where
  "Join [] sep = []"
| "Join [s] sep = s"
| "Join (s # t # ss) sep = s @ sep @ Join (t # ss) sep"

lemma Cut_append [simp]: "c \<notin> set a \<Longrightarrow> Cut (a @ c # b) c = (a, b, True)"
  by (induction a) auto

lemma Cut_foundD: "Cut s c = (a, b, True) \<Longrightarrow> s = a @ c # b \<and> c \<notin> set a"
proof (induction s arbitrary: a)
  case (Cons x s)
  show ?case
  proof (cases "x = c")
    case False
    obtain a' b' f' where "Cut s c = (a', b', f')" by (rule prod_cases3)
    with Cons False show ?thesis by auto
  qed (use Cons in auto)
qed simp

lemma Cut_not_found: "c \<notin> set s \<Longrightarrow> Cut s c = (s, [], False)"
  by (induction s) auto

lemma TrimSuffix_append [simp]: "TrimSuffix (s @ suf) suf = s"
  by (simp add: TrimSuffix_def suffix_def)

section \<open>strings.EqualFold against an ASCII word\<close>

text \<open>
  Every call compares a header's scheme with an ASCII constant. Under simple Unicode folding an
  ASCII letter also equals its other case, and \<^verbatim>\<open>k\<close> equals U+212A (E2 84 AA) and \<^verbatim>\<open>s\<close> equals
  U+017F (C5 BF).
\<close>

definition ascii_lower :: "char \<Rightarrow> char" where
  "ascii_lower c =
     (if 65 \<le> (of_char c :: nat) \<and> (of_char c :: nat) \<le> 90 then char_of ((of_char c :: nat) + 32) else c)"

fun EqualFold :: "string \<Rightarrow> string \<Rightarrow> bool" where
  "EqualFold s [] = (s = [])"
| "EqualFold s (t # ts) =
     (case s of
        [] \<Rightarrow> False
      | a # s1 \<Rightarrow>
          if ascii_lower a = ascii_lower t then EqualFold s1 ts
          else (case s1 of
              [] \<Rightarrow> False
            | b # s2 \<Rightarrow>
                if ascii_lower t = CHR ''s'' \<and> a = CHR 0xC5 \<and> b = CHR 0xBF then EqualFold s2 ts
                else (case s2 of
                    [] \<Rightarrow> False
                  | c # s3 \<Rightarrow>
                      ascii_lower t = CHR ''k'' \<and> a = CHR 0xE2 \<and> b = CHR 0x84 \<and> c = CHR 0xAA
                        \<and> EqualFold s3 ts)))"

lemma EqualFold_refl: "EqualFold s s"
  by (induction s) auto

lemma EqualFold_Nil_left [simp]: "EqualFold [] t \<longleftrightarrow> t = []"
  by (cases t) auto

end
