(* ===== verification/GoEncoding.thy ===== *)
theory GoEncoding
  imports GoStrings
begin

text \<open>
  Number formatting (\<^verbatim>\<open>strconv.FormatInt\<close>, \<^verbatim>\<open>strconv.Itoa\<close>, the \<^verbatim>\<open>%d\<close> verb), \<^verbatim>\<open>url.PathEscape\<close>,
  \<^verbatim>\<open>hex.EncodeToString\<close>, with the decoders that invert the first two. The decoders are not called by the service; they say
  what the receiving side reads, and show that the encodings lose nothing.
\<close>

section \<open>Decimal numbers\<close>

definition digit :: "nat \<Rightarrow> char" where
  "digit n = char_of (48 + n)"

fun nat_digits :: "nat \<Rightarrow> string" where
  "nat_digits n = (if n < 10 then [digit n] else nat_digits (n div 10) @ [digit (n mod 10)])"

declare nat_digits.simps [simp del]

definition FormatInt :: "int \<Rightarrow> string" where
  "FormatInt i = (if i < 0 then CHR ''-'' # nat_digits (nat (- i)) else nat_digits (nat i))"

definition digit_val :: "char \<Rightarrow> nat" where
  "digit_val c = of_char c - 48"

definition parse_nat :: "string \<Rightarrow> nat" where
  "parse_nat s = foldl (\<lambda>n c. 10 * n + digit_val c) 0 s"

definition ParseInt :: "string \<Rightarrow> int" where
  "ParseInt s =
     (case s of [] \<Rightarrow> 0
      | c # t \<Rightarrow> if c = CHR ''-'' then - int (parse_nat t) else int (parse_nat s))"

lemma digit_eval:
  "digit 0 = CHR ''0''" "digit 1 = CHR ''1''" "digit 2 = CHR ''2''" "digit 3 = CHR ''3''" "digit 4 = CHR ''4''"
  "digit 5 = CHR ''5''" "digit 6 = CHR ''6''" "digit 7 = CHR ''7''" "digit 8 = CHR ''8''" "digit 9 = CHR ''9''"
  by (simp_all add: digit_def char_of_def bit_0)

lemma digit_val_digit [simp]: "n < 10 \<Longrightarrow> digit_val (digit n) = n"
  by (simp add: digit_def digit_val_def)

lemma digit_not_minus: "n < 10 \<Longrightarrow> digit n \<noteq> CHR ''-''"
proof
  assume "n < 10" and "digit n = CHR ''-''"
  then have "(of_char (digit n) :: nat) = 45" by simp
  with \<open>n < 10\<close> show False by (simp add: digit_def)
qed

lemma parse_nat_digits [simp]: "parse_nat (nat_digits n) = n"
proof (induction n rule: nat_digits.induct)
  case (1 n)
  show ?case
  proof (cases "n < 10")
    case True
    then show ?thesis by (simp add: nat_digits.simps [of n] parse_nat_def)
  next
    case False
    with 1 have "parse_nat (nat_digits (n div 10)) = n div 10" by simp
    with False show ?thesis
      by (simp add: nat_digits.simps [of n] parse_nat_def)
  qed
qed

lemma nat_digits_decimal: "c \<in> set (nat_digits n) \<Longrightarrow> \<exists>k < 10. c = digit k"
proof (induction n rule: nat_digits.induct)
  case (1 n)
  show ?case
  proof (cases "n < 10")
    case True
    with 1(2) show ?thesis by (auto simp: nat_digits.simps [of n])
  next
    case False
    with 1(2) have "c \<in> set (nat_digits (n div 10)) \<or> c = digit (n mod 10)"
      by (auto simp: nat_digits.simps [of n])
    moreover have "n mod 10 < 10" by simp
    ultimately show ?thesis using 1(1) [OF False] by blast
  qed
qed

lemma nat_digits_ne [simp]: "nat_digits n \<noteq> []"
  by (simp add: nat_digits.simps [of n])

lemma ParseInt_FormatInt [simp]: "ParseInt (FormatInt i) = i"
proof (cases "i < 0")
  case False
  obtain c t where ct: "nat_digits (nat i) = c # t"
    by (metis list.exhaust nat_digits_ne)
  then have "c \<noteq> CHR ''-''"
    by (metis digit_not_minus list.set_intros(1) nat_digits_decimal)
  moreover have "parse_nat (c # t) = nat i"
    by (simp add: ct [symmetric])
  ultimately show ?thesis
    using False by (simp add: FormatInt_def ParseInt_def ct)
qed (simp add: FormatInt_def ParseInt_def)

lemmas format_eval = FormatInt_def nat_digits.simps digit_eval

lemma FormatInt_inj: "FormatInt i = FormatInt j \<Longrightarrow> i = j"
  by (metis ParseInt_FormatInt)

section \<open>url.PathEscape\<close>

definition alnum :: "char \<Rightarrow> bool" where
  "alnum c \<longleftrightarrow> (let n = (of_char c :: nat) in
     48 \<le> n \<and> n \<le> 57 \<or> 65 \<le> n \<and> n \<le> 90 \<or> 97 \<le> n \<and> n \<le> 122)"

text \<open>The bytes a path segment keeps: unreserved ones and \<^verbatim>\<open>$ & + : = @\<close>.\<close>

definition path_safe :: "char \<Rightarrow> bool" where
  "path_safe c \<longleftrightarrow> alnum c \<or> c \<in> set ''-_.~$&+:=@''"

definition hex_upper :: "nat \<Rightarrow> char" where
  "hex_upper n = (if n < 10 then char_of (48 + n) else char_of (55 + n))"

definition hex_lower :: "nat \<Rightarrow> char" where
  "hex_lower n = (if n < 10 then char_of (48 + n) else char_of (87 + n))"

definition unhex :: "char \<Rightarrow> nat" where
  "unhex c = (let n = (of_char c :: nat) in if n \<le> 57 then n - 48 else if n \<le> 70 then n - 55 else n - 87)"

fun PathEscape :: "string \<Rightarrow> string" where
  "PathEscape [] = []"
| "PathEscape (c # s) =
     (if path_safe c then c # PathEscape s
      else CHR ''%'' # hex_upper ((of_char c :: nat) div 16) # hex_upper ((of_char c :: nat) mod 16)
        # PathEscape s)"

fun PathUnescape :: "string \<Rightarrow> string" where
  "PathUnescape [] = []"
| "PathUnescape (c # s) =
     (if c = CHR ''%''
      then (case s of
          h # l # t \<Rightarrow> char_of (16 * unhex h + unhex l) # PathUnescape t
        | _ \<Rightarrow> c # s)
      else c # PathUnescape s)"

lemma unhex_upper [simp]: "n < 16 \<Longrightarrow> unhex (hex_upper n) = n"
  by (simp add: unhex_def hex_upper_def Let_def)

lemma unhex_lower [simp]: "n < 16 \<Longrightarrow> unhex (hex_lower n) = n"
  by (simp add: unhex_def hex_lower_def Let_def)

lemma of_char_lt_256: "(of_char (c :: char) :: nat) < 256"
proof -
  have "(of_char c :: nat) = of_char c mod 256" by simp
  also have "\<dots> < 256" by (rule mod_less_divisor) simp
  finally show ?thesis .
qed

lemma hex_upper_alnum: "n < 16 \<Longrightarrow> alnum (hex_upper n)"
  by (simp add: alnum_def hex_upper_def Let_def)

lemma hex_lower_alnum: "n < 16 \<Longrightarrow> alnum (hex_lower n)"
  by (simp add: alnum_def hex_lower_def Let_def)

lemma percent_not_safe: "\<not> path_safe (CHR ''%'')"
  by (simp add: path_safe_def alnum_def)

lemma slash_not_safe: "\<not> path_safe (CHR ''/'')"
  by (simp add: path_safe_def alnum_def)

lemma question_not_safe: "\<not> path_safe (CHR ''?'')"
  by (simp add: path_safe_def alnum_def)

lemma PathUnescape_PathEscape [simp]: "PathUnescape (PathEscape s) = s"
proof (induction s)
  case (Cons c s)
  show ?case
  proof (cases "path_safe c")
    case True
    then have "c \<noteq> CHR ''%''" using percent_not_safe by auto
    with True Cons show ?thesis by simp
  next
    case False
    have "(of_char c :: nat) div 16 < 16" using of_char_lt_256 [of c] by linarith
    then show ?thesis using False Cons by simp
  qed
qed simp

lemma PathEscape_inj: "PathEscape s = PathEscape t \<Longrightarrow> s = t"
  by (metis PathUnescape_PathEscape)

lemma PathEscape_inj_iff [simp]: "PathEscape s = PathEscape t \<longleftrightarrow> s = t"
  by (auto dest: PathEscape_inj)

lemma alnum_safe: "alnum c \<Longrightarrow> path_safe c"
  by (simp add: path_safe_def)

lemma PathEscape_chars: "c \<in> set (PathEscape s) \<Longrightarrow> path_safe c \<or> c = CHR ''%''"
proof (induction s)
  case (Cons a s)
  have "(of_char a :: nat) div 16 < 16" using of_char_lt_256 [of a] by linarith
  then have "path_safe (hex_upper ((of_char a :: nat) div 16))"
    and "path_safe (hex_upper ((of_char a :: nat) mod 16))"
    by (simp_all only: alnum_safe hex_upper_alnum mod_less_divisor zero_less_numeral)
  with Cons show ?case by (simp only: PathEscape.simps split: if_splits) auto
qed simp

lemma PathEscape_no_slash: "CHR ''/'' \<notin> set (PathEscape s)"
  using PathEscape_chars slash_not_safe by fastforce

lemma PathEscape_no_question: "CHR ''?'' \<notin> set (PathEscape s)"
  using PathEscape_chars question_not_safe by fastforce

section \<open>hex.EncodeToString\<close>

primrec HexEncode :: "8 word list \<Rightarrow> string" where
  "HexEncode [] = []"
| "HexEncode (b # bs) = hex_lower (unat b div 16) # hex_lower (unat b mod 16) # HexEncode bs"

lemma unat8_lt: "unat (b :: 8 word) < 256"
  using unsigned_less [of b, where 'a = nat] by simp

lemma HexEncode_alnum: "c \<in> set (HexEncode bs) \<Longrightarrow> alnum c"
proof (induction bs)
  case (Cons b bs)
  have "unat b div 16 < 16" using unat8_lt [of b] by linarith
  with Cons show ?case by (auto simp: hex_lower_alnum)
qed simp

lemma length_HexEncode [simp]: "length (HexEncode bs) = 2 * length bs"
  by (induction bs) auto

end
