(* ===== verification/GoErrors.thy ===== *)
theory GoErrors
  imports GoEncoding
begin

text \<open>
  Go error values. What the service does with an error is decided by \<^verbatim>\<open>errors.Is\<close>, \<^verbatim>\<open>errors.As\<close> and
  \<^verbatim>\<open>status.Code\<close>, which walk the chain of wrapped errors, so the model keeps that chain: a sentinel
  (an \<^verbatim>\<open>errors.New\<close> variable the code compares against), an error without a wrapped one, an error
  built by \<^verbatim>\<open>fmt.Errorf\<close> with one \<^verbatim>\<open>%w\<close>, and the three error types the code defines or inspects.
\<close>

section \<open>Values\<close>

text \<open>
  \<^verbatim>\<open>External t\<close> is a sentinel of a library, told apart by its text \<^verbatim>\<open>t\<close>. The definitions that
  compare against one take it as an argument.
\<close>

datatype sentinel =
    SearchInvalidArgument
  | SearchNotFound
  | SearchForbidden
  | SearchUnavailable
  | AccessForbidden
  | ContextCanceled
  | External string

text \<open>The canonical gRPC status codes.\<close>

datatype code =
    COK | CCanceled | CUnknown | CInvalidArgument | CDeadlineExceeded | CNotFound | CAlreadyExists
  | CPermissionDenied | CResourceExhausted | CFailedPrecondition | CAborted | COutOfRange
  | CUnimplemented | CInternal | CUnavailable | CDataLoss | CUnauthenticated

datatype err =
    Sentinel sentinel
  | Plain string
  | Wrap string err
  | ResponseStatus int
  | AppError int string int "err option"
  | StatusError code string

section \<open>errors.Is, errors.As, status.Code\<close>

fun errors_is :: "err \<Rightarrow> sentinel \<Rightarrow> bool" where
  "errors_is (Sentinel s) t = (s = t)"
| "errors_is (Plain _) t = False"
| "errors_is (Wrap _ e) t = errors_is e t"
| "errors_is (ResponseStatus _) t = (t = SearchUnavailable)"
| "errors_is (AppError _ _ _ None) t = False"
| "errors_is (AppError _ _ _ (Some e)) t = errors_is e t"
| "errors_is (StatusError _ _) t = False"

text \<open>\<^verbatim>\<open>errors.As\<close> for the target types \<^verbatim>\<open>*responseStatusError\<close> and \<^verbatim>\<open>*apperror.Error\<close>.\<close>

fun as_response_status :: "err \<Rightarrow> int option" where
  "as_response_status (ResponseStatus n) = Some n"
| "as_response_status (Wrap _ e) = as_response_status e"
| "as_response_status (AppError _ _ _ (Some e)) = as_response_status e"
| "as_response_status _ = None"

fun as_app_error :: "err \<Rightarrow> (int \<times> string \<times> int \<times> err option) option" where
  "as_app_error (AppError c m s e) = Some (c, m, s, e)"
| "as_app_error (Wrap _ e) = as_app_error e"
| "as_app_error _ = None"

fun status_code :: "err option \<Rightarrow> code" where
  "status_code None = COK"
| "status_code (Some (StatusError c _)) = c"
| "status_code (Some (Wrap _ e)) = status_code (Some e)"
| "status_code (Some (AppError _ _ _ (Some e))) = status_code (Some e)"
| "status_code (Some _) = CUnknown"

section \<open>Error texts\<close>

primrec code_name :: "code \<Rightarrow> string" where
  "code_name COK = ''OK''"
| "code_name CCanceled = ''Canceled''"
| "code_name CUnknown = ''Unknown''"
| "code_name CInvalidArgument = ''InvalidArgument''"
| "code_name CDeadlineExceeded = ''DeadlineExceeded''"
| "code_name CNotFound = ''NotFound''"
| "code_name CAlreadyExists = ''AlreadyExists''"
| "code_name CPermissionDenied = ''PermissionDenied''"
| "code_name CResourceExhausted = ''ResourceExhausted''"
| "code_name CFailedPrecondition = ''FailedPrecondition''"
| "code_name CAborted = ''Aborted''"
| "code_name COutOfRange = ''OutOfRange''"
| "code_name CUnimplemented = ''Unimplemented''"
| "code_name CInternal = ''Internal''"
| "code_name CUnavailable = ''Unavailable''"
| "code_name CDataLoss = ''DataLoss''"
| "code_name CUnauthenticated = ''Unauthenticated''"

primrec sentinel_text :: "sentinel \<Rightarrow> string" where
  "sentinel_text SearchInvalidArgument = ''invalid search argument''"
| "sentinel_text SearchNotFound = ''search document not found''"
| "sentinel_text SearchForbidden = ''search application access denied''"
| "sentinel_text SearchUnavailable = ''search engine unavailable''"
| "sentinel_text AccessForbidden = ''search visibility forbidden''"
| "sentinel_text ContextCanceled = ''context canceled''"
| "sentinel_text (External n) = n"

fun err_text :: "err \<Rightarrow> string" where
  "err_text (Sentinel s) = sentinel_text s"
| "err_text (Plain m) = m"
| "err_text (Wrap m _) = m"
| "err_text (ResponseStatus n) = ''opensearch request failed with status '' @ FormatInt n"
| "err_text (AppError _ m _ None) = m"
| "err_text (AppError _ _ _ (Some e)) = err_text e"
| "err_text (StatusError c m) = ''rpc error: code = '' @ code_name c @ '' desc = '' @ m"

text \<open>\<^verbatim>\<open>fmt.Errorf("<prefix>: %w", e)\<close> and \<^verbatim>\<open>fmt.Errorf("%w: <suffix>", e)\<close>.\<close>

definition prefixed :: "string \<Rightarrow> err \<Rightarrow> err" where
  [wrap_defs]: "prefixed m e = Wrap (m @ '': '' @ err_text e) e"

definition suffixed :: "err \<Rightarrow> string \<Rightarrow> err" where
  [wrap_defs]: "suffixed e m = Wrap (err_text e @ '': '' @ m) e"

lemma errors_is_prefixed [simp]: "errors_is (prefixed m e) t = errors_is e t"
  by (simp add: prefixed_def)

lemma errors_is_suffixed [simp]: "errors_is (suffixed e m) t = errors_is e t"
  by (simp add: suffixed_def)

lemma as_response_status_prefixed [simp]: "as_response_status (prefixed m e) = as_response_status e"
  by (simp add: prefixed_def)

lemma as_response_status_unavailable: "as_response_status e = Some n \<Longrightarrow> errors_is e SearchUnavailable"
  by (induction e rule: as_response_status.induct) auto

end
