(* ===== verification/Messages.thy ===== *)
theory Messages
  imports GoErrors
begin

text \<open>
  The data the components exchange: request contexts with the values the service stores in them,
  and the fields of the protobuf messages of \<^verbatim>\<open>platform.search.v1\<close>, \<^verbatim>\<open>platform.authorization.v1\<close>
  and \<^verbatim>\<open>platform.common.v1\<close> that the sources read or write. The generated message code is not
  part of the repository; only its field access is used, as records. A pointer that may be nil is
  an option, and the getters' zero values for nil are written out where the code relies on them.
\<close>

section \<open>Principals and contexts\<close>

datatype PrincipalType = TypeUser | TypeServiceAccount | TypeSystem | TypeOther string

record Principal =
  pr_ID :: string
  pr_Type :: PrincipalType
  pr_TenantID :: string
  pr_MembershipID :: string

text \<open>
  The values a request context carries. Incoming metadata maps a lower-case key to its values
  (the empty list when absent); outgoing metadata is the sequence of appended pairs. The deadline is an
  instant of the clock. Cancellation and tracing stay in the dependencies' state and show up as their
  errors.
\<close>

record Ctx =
  cx_principal :: "Principal option"
  cx_incoming :: "string \<Rightarrow> string list"
  cx_outgoing :: "(string \<times> string) list"
  cx_request_id :: "string option"
  cx_idempotency :: "string option"
  cx_environment :: "string option"
  cx_credential :: "string option"
  cx_deadline :: "int option"

definition background :: Ctx where
  "background = \<lparr>cx_principal = None, cx_incoming = (\<lambda>_. []), cx_outgoing = [],
     cx_request_id = None, cx_idempotency = None, cx_environment = None, cx_credential = None,
     cx_deadline = None\<rparr>"

text \<open>\<^verbatim>\<open>context.WithTimeout\<close> at an instant: an earlier deadline of the parent stays.\<close>

definition WithTimeout :: "int \<Rightarrow> int \<Rightarrow> Ctx \<Rightarrow> Ctx" where
  "WithTimeout now timeout ctx = ctx\<lparr>cx_deadline := Some
     (case cx_deadline ctx of None \<Rightarrow> now + timeout | Some d \<Rightarrow> min d (now + timeout))\<rparr>"

definition outgoing_values :: "Ctx \<Rightarrow> string \<Rightarrow> string list" where
  "outgoing_values ctx k = map snd (filter (\<lambda>p. fst p = k) (cx_outgoing ctx))"

definition append_outgoing :: "(string \<times> string) list \<Rightarrow> Ctx \<Rightarrow> Ctx" where
  "append_outgoing kvs ctx = ctx\<lparr>cx_outgoing := cx_outgoing ctx @ kvs\<rparr>"

section \<open>Search messages\<close>

text \<open>A protobuf timestamp: seconds and nanoseconds.\<close>

record Timestamp =
  ts_Seconds :: int64
  ts_Nanos :: "32 word"

record SearchDocument =
  sd_Id :: string
  sd_TenantId :: string
  sd_SourceService :: string
  sd_DocumentType :: string
  sd_SourceId :: string
  sd_ApplicationId :: string
  sd_Title :: string
  sd_Summary :: string
  sd_Content :: string
  sd_Url :: string
  sd_Icon :: string
  sd_Keywords :: "string list"
  sd_Attributes :: "string \<rightharpoonup> string"
  sd_VisibilityTokens :: "string list"
  sd_PermissionCode :: string
  sd_SourceVersion :: int64
  sd_SourceCreatedAt :: "Timestamp option"
  sd_SourceUpdatedAt :: "Timestamp option"

record DocumentKey =
  dk_TenantId :: string
  dk_SourceService :: string
  dk_DocumentType :: string
  dk_SourceId :: string
  dk_SourceVersion :: int64

datatype SortOrder = SortRelevance | SortUpdatedAtDesc | SortUpdatedAtAsc | SortOther int

text \<open>
  \<^verbatim>\<open>Filters\<close> is a Go map from a field to a possibly nil list of values. It is kept as an
  association list, in the order in which one run of the program iterates over it; a theorem that
  quantifies over the list holds for every order.
\<close>

record SearchRequest =
  sr_TenantId :: string
  sr_Query :: string
  sr_DocumentTypes :: "string list"
  sr_ApplicationIds :: "string list"
  sr_Filters :: "(string \<times> string list option) list"
  sr_Sort :: SortOrder
  sr_Page :: uint32
  sr_PageSize :: uint32
  sr_FacetFields :: "string list"

record Highlight =
  hl_Field :: string
  hl_Fragments :: "string list"

record SearchHit =
  sh_Document :: SearchDocument
  sh_Score :: float64
  sh_Highlights :: "Highlight list"

record FacetBucket =
  fb_Value :: string
  fb_Count :: uint64

record Facet =
  fc_Field :: string
  fc_Buckets :: "FacetBucket list"

record SearchResponse =
  sp_Hits :: "SearchHit list"
  sp_Total :: uint64
  sp_Page :: uint32
  sp_PageSize :: uint32
  sp_Facets :: "Facet list"
  sp_TookMilliseconds :: uint64

record SuggestRequest =
  sg_TenantId :: string
  sg_Prefix :: string
  sg_DocumentTypes :: "string list"
  sg_ApplicationIds :: "string list"
  sg_Limit :: uint32

record Suggestion =
  sn_Text :: string
  sn_DocumentType :: string
  sn_SourceId :: string
  sn_Url :: string

record SuggestResponse =
  sq_Suggestions :: "Suggestion list"

text \<open>A document and a request with every field at its zero value, for building examples.\<close>

definition empty_document :: SearchDocument where
  "empty_document = \<lparr>sd_Id = '''', sd_TenantId = '''', sd_SourceService = '''', sd_DocumentType = '''',
     sd_SourceId = '''', sd_ApplicationId = '''', sd_Title = '''', sd_Summary = '''', sd_Content = '''',
     sd_Url = '''', sd_Icon = '''', sd_Keywords = [], sd_Attributes = Map.empty,
     sd_VisibilityTokens = [], sd_PermissionCode = '''', sd_SourceVersion = 0,
     sd_SourceCreatedAt = None, sd_SourceUpdatedAt = None\<rparr>"

definition empty_request :: SearchRequest where
  "empty_request = \<lparr>sr_TenantId = '''', sr_Query = '''', sr_DocumentTypes = [], sr_ApplicationIds = [],
     sr_Filters = [], sr_Sort = SortRelevance, sr_Page = 0, sr_PageSize = 0, sr_FacetFields = []\<rparr>"

end
