(* ===== verification/SearchService.thy ===== *)
theory SearchService
  imports Messages
begin

text \<open>
  \<^verbatim>\<open>internal/search/service.go\<close>: validation, application authorization and normalization in front
  of the search engine. The two dependencies are interfaces in the code and records of functions
  here; \<^typ>\<open>'w\<close> is the state of everything behind them.
\<close>

section \<open>Interfaces and state\<close>

definition defaultPageSize :: uint32 where
  "defaultPageSize = 20"

definition maxPageSize :: uint32 where
  "maxPageSize = 100"

definition maxBatchSize :: nat where
  "maxBatchSize = 500"

definition maxApplications :: nat where
  "maxApplications = 100"

record 'w Engine =
  eng_Ping :: "Ctx \<Rightarrow> ('w, err) call_err"
  eng_Search :: "Ctx \<Rightarrow> SearchRequest \<Rightarrow> string list \<Rightarrow> ('w, err, SearchResponse) call"
  eng_Suggest :: "Ctx \<Rightarrow> SuggestRequest \<Rightarrow> string list \<Rightarrow> ('w, err, SuggestResponse) call"
  eng_Get :: "Ctx \<Rightarrow> string \<Rightarrow> string \<Rightarrow> string list \<Rightarrow> ('w, err, SearchDocument) call"
  eng_Upsert :: "Ctx \<Rightarrow> SearchDocument list \<Rightarrow> ('w, err) call_err"
  eng_Delete :: "Ctx \<Rightarrow> DocumentKey list \<Rightarrow> ('w, err) call_err"

text \<open>\<^verbatim>\<open>appaccess.Decision\<close>: the one field the service reads.\<close>

record Decision =
  dc_Granted :: bool

type_synonym Decisions = "string \<rightharpoonup> Decision"
type_synonym 'w ApplicationAccess = "Ctx \<Rightarrow> string \<Rightarrow> string list \<Rightarrow> ('w, err, Decisions) call"

record 'w Service =
  sv_engine :: "'w Engine"
  sv_applications :: "'w ApplicationAccess"

fun allowAllApplications_Check :: "'w ApplicationAccess" where
  "allowAllApplications_Check ctx tenant applicationIDs w =
     (Inr (fold (\<lambda>applicationID m. m(applicationID \<mapsto> \<lparr>dc_Granted = True\<rparr>)) applicationIDs Map.empty), w)"

definition NewService :: "'w Engine \<Rightarrow> 'w Service" where
  "NewService engine = \<lparr>sv_engine = engine, sv_applications = allowAllApplications_Check\<rparr>"

definition NewRuntime :: "'w Engine \<Rightarrow> 'w ApplicationAccess option \<Rightarrow> err + 'w Service" where
  "NewRuntime engine applications =
     (case applications of
        None \<Rightarrow> Inl (Plain ''application verifier is required'')
      | Some check \<Rightarrow> Inr \<lparr>sv_engine = engine, sv_applications = check\<rparr>)"

section \<open>Errors\<close>

definition invalid :: "string \<Rightarrow> err" where
  [wrap_defs]: "invalid m = suffixed (Sentinel SearchInvalidArgument) m"

lemma errors_is_invalid [simp]: "errors_is (invalid m) t \<longleftrightarrow> t = SearchInvalidArgument"
  by (auto simp: invalid_def)

section \<open>Normalization\<close>

definition normalizePage :: "SearchRequest \<Rightarrow> SearchRequest" where
  "normalizePage request =
     (let r1 = (if sr_Page request = 0 then request\<lparr>sr_Page := 1\<rparr> else request);
          r2 = (if sr_PageSize r1 = 0 then r1\<lparr>sr_PageSize := defaultPageSize\<rparr> else r1)
      in if sr_PageSize r2 > maxPageSize then r2\<lparr>sr_PageSize := maxPageSize\<rparr> else r2)"

definition normalizeLimit :: "SuggestRequest \<Rightarrow> SuggestRequest" where
  "normalizeLimit request =
     (let r1 = (if sg_Limit request = 0 then request\<lparr>sg_Limit := 10\<rparr> else request)
      in if sg_Limit r1 > 50 then r1\<lparr>sg_Limit := 50\<rparr> else r1)"

definition tenantToken :: "string \<Rightarrow> string" where
  "tenantToken tenantID = ''tenant:'' @ tenantID @ '':*''"

fun addVisibility :: "string list \<Rightarrow> string set \<Rightarrow> string list \<Rightarrow> string list" where
  "addVisibility [] seen result = result"
| "addVisibility (v # values) seen result =
     (let t = TrimSpace v in
      if t = [] then addVisibility values seen result
      else if t \<in> seen then addVisibility values seen result
      else addVisibility values (insert t seen) (result @ [t]))"

definition normalizeVisibility :: "string \<Rightarrow> string list \<Rightarrow> string list" where
  "normalizeVisibility tenantID values =
     addVisibility values {tenantToken tenantID} [tenantToken tenantID]"

section \<open>Application authorization\<close>

fun collectApplications :: "string list \<Rightarrow> string set \<Rightarrow> string list \<Rightarrow> err + string list" where
  "collectApplications [] seen result = Inr result"
| "collectApplications (v # values) seen result =
     (let applicationID = TrimSpace v in
      if applicationID = [] then Inl (invalid ''application_ids cannot contain empty values'')
      else if applicationID \<in> seen then collectApplications values seen result
      else collectApplications values (insert applicationID seen) (result @ [applicationID]))"

text \<open>\<^verbatim>\<open>decisions[applicationID].Granted\<close>: a missing key gives the zero value, not granted.\<close>

definition granted :: "Decisions \<Rightarrow> string \<Rightarrow> bool" where
  "granted decisions applicationID =
     (case decisions applicationID of None \<Rightarrow> False | Some d \<Rightarrow> dc_Granted d)"

fun requireGrants :: "Decisions \<Rightarrow> string list \<Rightarrow> err option" where
  "requireGrants decisions [] = None"
| "requireGrants decisions (a # as) =
     (if \<not> granted decisions a
      then Some (suffixed (Sentinel SearchForbidden) (''application '' @ a))
      else requireGrants decisions as)"

definition authorizeApplications ::
    "'w Service \<Rightarrow> Ctx \<Rightarrow> string \<Rightarrow> string list \<Rightarrow> ('w, err, string list) call" where
  "authorizeApplications s ctx tenantID values w =
     (if length values > maxApplications
      then (Inl (invalid (''application_ids must contain at most ''
             @ FormatInt (int maxApplications) @ '' items'')), w)
      else case collectApplications values {} [] of
          Inl e \<Rightarrow> (Inl e, w)
        | Inr result \<Rightarrow>
            if result = [] then (Inr result, w)
            else (case sv_applications s ctx (TrimSpace tenantID) result w of
                (Inl e, w') \<Rightarrow>
                  (Inl (suffixed (Sentinel SearchUnavailable)
                     (''verify application access: '' @ err_text e)), w')
              | (Inr decisions, w') \<Rightarrow>
                  (case requireGrants decisions result of
                     Some e \<Rightarrow> (Inl e, w')
                   | None \<Rightarrow> (Inr result, w'))))"

section \<open>Queries\<close>

definition Service_Ping :: "'w Service \<Rightarrow> Ctx \<Rightarrow> ('w, err) call_err" where
  "Service_Ping s ctx = eng_Ping (sv_engine s) ctx"

definition Service_Search ::
    "'w Service \<Rightarrow> Ctx \<Rightarrow> SearchRequest option \<Rightarrow> string list \<Rightarrow> ('w, err, SearchResponse) call" where
  "Service_Search s ctx request visibility w =
     (case request of
        None \<Rightarrow> (Inl (invalid ''tenant_id is required''), w)
      | Some r \<Rightarrow>
          if TrimSpace (sr_TenantId r) = [] then (Inl (invalid ''tenant_id is required''), w)
          else (case authorizeApplications s ctx (sr_TenantId r) (sr_ApplicationIds r) w of
              (Inl e, w') \<Rightarrow> (Inl e, w')
            | (Inr applications, w') \<Rightarrow>
                eng_Search (sv_engine s) ctx (normalizePage (r\<lparr>sr_ApplicationIds := applications\<rparr>))
                  (normalizeVisibility (sr_TenantId r) visibility) w'))"

definition Service_Suggest ::
    "'w Service \<Rightarrow> Ctx \<Rightarrow> SuggestRequest option \<Rightarrow> string list \<Rightarrow> ('w, err, SuggestResponse) call" where
  "Service_Suggest s ctx request visibility w =
     (case request of
        None \<Rightarrow> (Inl (invalid ''tenant_id and prefix are required''), w)
      | Some r \<Rightarrow>
          if TrimSpace (sg_TenantId r) = [] \<or> TrimSpace (sg_Prefix r) = []
          then (Inl (invalid ''tenant_id and prefix are required''), w)
          else (case authorizeApplications s ctx (sg_TenantId r) (sg_ApplicationIds r) w of
              (Inl e, w') \<Rightarrow> (Inl e, w')
            | (Inr applications, w') \<Rightarrow>
                eng_Suggest (sv_engine s) ctx (normalizeLimit (r\<lparr>sg_ApplicationIds := applications\<rparr>))
                  (normalizeVisibility (sg_TenantId r) visibility) w'))"

definition Service_Get ::
    "'w Service \<Rightarrow> Ctx \<Rightarrow> string \<Rightarrow> string \<Rightarrow> string list \<Rightarrow> ('w, err, SearchDocument) call" where
  "Service_Get s ctx tenantID ident visibility w =
     (if TrimSpace tenantID = [] \<or> TrimSpace ident = []
      then (Inl (invalid ''tenant_id and id are required''), w)
      else case eng_Get (sv_engine s) ctx tenantID ident (normalizeVisibility tenantID visibility) w of
          (Inl e, w') \<Rightarrow> (Inl e, w')
        | (Inr document, w') \<Rightarrow>
            if sd_ApplicationId document \<noteq> []
            then (case authorizeApplications s ctx tenantID [sd_ApplicationId document] w' of
                (Inl e, w'') \<Rightarrow> (Inl e, w'')
              | (Inr _, w'') \<Rightarrow> (Inr document, w''))
            else (Inr document, w'))"

section \<open>Index maintenance\<close>

definition CanonicalID :: "string \<Rightarrow> string \<Rightarrow> string \<Rightarrow> string \<Rightarrow> string" where
  "CanonicalID tenantID sourceService documentType sourceID =
     Join [tenantID, sourceService, documentType, sourceID] '':''"

definition subjectPrefixes :: "string list" where
  "subjectPrefixes = [''user:'', ''membership:'', ''role:'', ''service-account:'']"

definition validToken :: "string \<Rightarrow> string \<Rightarrow> bool" where
  "validToken broad token \<longleftrightarrow>
     token = broad \<or> list_ex (\<lambda>p. HasPrefix token p \<and> length token > length p) subjectPrefixes"

fun checkTokens :: "string \<Rightarrow> string \<Rightarrow> string list \<Rightarrow> err option" where
  "checkTokens broad permissionCode [] = None"
| "checkTokens broad permissionCode (t # tokens) =
     (let token = TrimSpace t in
      if \<not> validToken broad token then Some (invalid ''invalid visibility token'')
      else if permissionCode \<noteq> [] \<and> token = broad
      then Some (invalid ''permission-protected document cannot use tenant-wide visibility'')
      else checkTokens broad permissionCode tokens)"

definition validateVisibility :: "SearchDocument \<Rightarrow> err option" where
  "validateVisibility document =
     checkTokens (''tenant:'' @ sd_TenantId document @ '':*'') (sd_PermissionCode document)
       (sd_VisibilityTokens document)"

definition completeDocument :: "SearchDocument \<Rightarrow> bool" where
  "completeDocument d \<longleftrightarrow>
     sd_TenantId d \<noteq> [] \<and> sd_SourceService d \<noteq> [] \<and> sd_DocumentType d \<noteq> [] \<and> sd_SourceId d \<noteq> []
     \<and> \<not> sint (sd_SourceVersion d) \<le> 0 \<and> sd_VisibilityTokens d \<noteq> []"

definition withCanonicalID :: "SearchDocument \<Rightarrow> SearchDocument" where
  "withCanonicalID d =
     d\<lparr>sd_Id := CanonicalID (sd_TenantId d) (sd_SourceService d) (sd_DocumentType d) (sd_SourceId d)\<rparr>"

text \<open>
  The loop of \<^verbatim>\<open>BatchUpsert\<close>. It assigns the identifiers in place; the documents it leaves
  changed when a later one is refused are not passed on, so the model returns only the error.
\<close>

fun prepareDocuments :: "SearchDocument option list \<Rightarrow> err + SearchDocument list" where
  "prepareDocuments [] = Inr []"
| "prepareDocuments (None # ds) = Inl (invalid ''incomplete document'')"
| "prepareDocuments (Some d # ds) =
     (if \<not> completeDocument d then Inl (invalid ''incomplete document'')
      else case validateVisibility d of
          Some e \<Rightarrow> Inl e
        | None \<Rightarrow> (case prepareDocuments ds of
              Inl e \<Rightarrow> Inl e
            | Inr ds' \<Rightarrow> Inr (withCanonicalID d # ds')))"

definition batchSizeOk :: "'a list \<Rightarrow> bool" where
  "batchSizeOk xs \<longleftrightarrow> \<not> (xs = [] \<or> length xs > maxBatchSize)"

definition batchSizeError :: err where
  "batchSizeError = invalid (''documents must contain 1..'' @ FormatInt (int maxBatchSize) @ '' items'')"

definition Service_BatchUpsert ::
    "'w Service \<Rightarrow> Ctx \<Rightarrow> SearchDocument option list \<Rightarrow> ('w, err) call_err" where
  "Service_BatchUpsert s ctx documents w =
     (if \<not> batchSizeOk documents then (Some batchSizeError, w)
      else case prepareDocuments documents of
          Inl e \<Rightarrow> (Some e, w)
        | Inr ds \<Rightarrow> eng_Upsert (sv_engine s) ctx ds w)"

definition completeKey :: "DocumentKey \<Rightarrow> bool" where
  "completeKey k \<longleftrightarrow>
     dk_TenantId k \<noteq> [] \<and> dk_SourceService k \<noteq> [] \<and> dk_DocumentType k \<noteq> [] \<and> dk_SourceId k \<noteq> []
     \<and> \<not> sint (dk_SourceVersion k) \<le> 0"

fun prepareKeys :: "DocumentKey option list \<Rightarrow> err + DocumentKey list" where
  "prepareKeys [] = Inr []"
| "prepareKeys (None # ks) = Inl (invalid ''incomplete document key'')"
| "prepareKeys (Some k # ks) =
     (if \<not> completeKey k then Inl (invalid ''incomplete document key'')
      else case prepareKeys ks of
          Inl e \<Rightarrow> Inl e
        | Inr ks' \<Rightarrow> Inr (k # ks'))"

definition Service_BatchDelete ::
    "'w Service \<Rightarrow> Ctx \<Rightarrow> DocumentKey option list \<Rightarrow> ('w, err) call_err" where
  "Service_BatchDelete s ctx documents w =
     (if \<not> batchSizeOk documents then (Some batchSizeError, w)
      else case prepareKeys documents of
          Inl e \<Rightarrow> (Some e, w)
        | Inr ks \<Rightarrow> eng_Delete (sv_engine s) ctx ks w)"

section \<open>What normalization computes\<close>

lemma addVisibility_fold:
  "addVisibility vs seen result =
     snd (fold push_unique (filter (\<lambda>t. t \<noteq> []) (map TrimSpace vs)) (seen, result))"
  by (induction vs seen result rule: addVisibility.induct) (auto simp: push_unique_eval Let_def)

lemma normalizeVisibility_uniq:
  "normalizeVisibility tenantID vs =
     uniq (tenantToken tenantID # filter (\<lambda>t. t \<noteq> []) (map TrimSpace vs))"
  by (simp add: normalizeVisibility_def addVisibility_fold fold_push_unique_one del: uniq.simps)

lemma tenantToken_ne [simp]: "tenantToken t \<noteq> []"
  by (simp add: tenantToken_def)

lemma tenantToken_inj [simp]: "tenantToken s = tenantToken t \<longleftrightarrow> s = t"
  by (simp add: tenantToken_def)

lemma tenantToken_trimmed [simp]: "TrimSpace (tenantToken t) = tenantToken t"
proof (rule TrimSpace_fixed)
  show "\<not> starts_with_space space2 space3 (tenantToken t)"
    by (simp add: tenantToken_def ascii_space_def space2_def space3_def)
  obtain a b s where "rev t @ rev ''tenant:'' = a # b # s"
    by (cases "rev t"; cases "tl (rev t)") auto
  then have "rev (tenantToken t) = CHR ''*'' # CHR '':'' # a # b # s"
    by (simp add: tenantToken_def)
  then show "\<not> starts_with_space (\<lambda>b a. space2 a b) (\<lambda>c b a. space3 a b c) (rev (tenantToken t))"
    by (simp add: ascii_space_def space2_def space3_def)
qed

lemma set_normalizeVisibility:
  "set (normalizeVisibility tenantID vs) =
     insert (tenantToken tenantID) (TrimSpace ` set vs - {[]})"
  by (auto simp: normalizeVisibility_uniq simp del: uniq.simps)

lemma hd_normalizeVisibility: "hd (normalizeVisibility tenantID vs) = tenantToken tenantID"
  by (simp add: normalizeVisibility_uniq)

lemma collectApplications_spec:
  "collectApplications vs seen result =
     (if [] \<in> TrimSpace ` set vs
      then Inl (invalid ''application_ids cannot contain empty values'')
      else Inr (snd (fold push_unique (map TrimSpace vs) (seen, result))))"
  by (induction vs seen result rule: collectApplications.induct)
    (auto simp: push_unique_eval Let_def)

lemma collectApplications_uniq:
  "collectApplications vs {} [] =
     (if [] \<in> TrimSpace ` set vs
      then Inl (invalid ''application_ids cannot contain empty values'')
      else Inr (uniq (map TrimSpace vs)))"
  by (simp add: collectApplications_spec fold_push_unique_Nil)

lemma requireGrants_None: "requireGrants decisions as = None \<longleftrightarrow> (\<forall>a \<in> set as. granted decisions a)"
  by (induction as) auto

lemma requireGrants_Some: "requireGrants decisions as = Some e \<Longrightarrow> errors_is e SearchForbidden"
  by (induction as) (auto split: if_splits)

lemma normalizePage_fields [simp]:
  "sr_TenantId (normalizePage r) = sr_TenantId r"
  "sr_Query (normalizePage r) = sr_Query r"
  "sr_DocumentTypes (normalizePage r) = sr_DocumentTypes r"
  "sr_ApplicationIds (normalizePage r) = sr_ApplicationIds r"
  "sr_Filters (normalizePage r) = sr_Filters r"
  "sr_Sort (normalizePage r) = sr_Sort r"
  "sr_FacetFields (normalizePage r) = sr_FacetFields r"
  by (simp_all add: normalizePage_def Let_def)

lemma normalizePage_eval:
  "sr_Page (normalizePage r) = (if sr_Page r = 0 then 1 else sr_Page r)"
  "sr_PageSize (normalizePage r) = (if sr_PageSize r = 0 then 20 else min 100 (sr_PageSize r))"
  by (auto simp: normalizePage_def Let_def defaultPageSize_def maxPageSize_def min_def not_less)

lemma normalizeLimit_eval:
  "sg_Limit (normalizeLimit r) = (if sg_Limit r = 0 then 10 else min 50 (sg_Limit r))"
  by (auto simp: normalizeLimit_def Let_def min_def not_less)

lemma normalizeLimit_fields [simp]:
  "sg_TenantId (normalizeLimit r) = sg_TenantId r"
  "sg_Prefix (normalizeLimit r) = sg_Prefix r"
  "sg_DocumentTypes (normalizeLimit r) = sg_DocumentTypes r"
  "sg_ApplicationIds (normalizeLimit r) = sg_ApplicationIds r"
  by (simp_all add: normalizeLimit_def Let_def)

section \<open>Authorization of applications\<close>

text \<open>The three ways \<^const>\<open>authorizeApplications\<close> can end.\<close>

lemma authorizeApplications_ok:
  assumes "authorizeApplications s ctx tenantID vs w = (Inr applications, w')"
  shows "length vs \<le> maxApplications" and "[] \<notin> TrimSpace ` set vs"
    and "applications = uniq (map TrimSpace vs)"
    and "vs = [] \<Longrightarrow> w' = w"
    and "vs \<noteq> [] \<Longrightarrow>
      \<exists>decisions. sv_applications s ctx (TrimSpace tenantID) applications w = (Inr decisions, w')
        \<and> (\<forall>a \<in> set applications. granted decisions a)"
  using assms
  by (auto simp: authorizeApplications_def collectApplications_uniq requireGrants_None
      split: if_splits sum.splits prod.splits option.splits)

lemma authorizeApplications_error:
  assumes "authorizeApplications s ctx tenantID vs w = (Inl e, w')"
  shows "errors_is e SearchInvalidArgument \<and> w' = w
    \<or> errors_is e SearchUnavailable \<or> errors_is e SearchForbidden"
  using assms
  by (auto simp: authorizeApplications_def collectApplications_uniq
      split: if_splits sum.splits prod.splits option.splits dest: requireGrants_Some)

text \<open>
  An application verifier that grants every application it is asked about, without effects: the
  contract of \<^verbatim>\<open>allowAllApplications\<close> here and of \<^verbatim>\<open>disabledApplicationVerifier\<close> in the wiring.
\<close>

locale open_access =
  fixes check :: "'w ApplicationAccess"
  assumes grants: "\<exists>decisions. check ctx tenantID applicationIDs w = (Inr decisions, w)
    \<and> (\<forall>a \<in> set applicationIDs. granted decisions a)"
begin

lemma authorize_open:
  assumes "length vs \<le> maxApplications" and "[] \<notin> TrimSpace ` set vs"
  shows "authorizeApplications \<lparr>sv_engine = e, sv_applications = check\<rparr> ctx tenantID vs w
    = (Inr (uniq (map TrimSpace vs)), w)"
proof -
  obtain decisions where "check ctx (TrimSpace tenantID) (uniq (map TrimSpace vs)) w = (Inr decisions, w)"
    and "\<forall>a \<in> set (uniq (map TrimSpace vs)). granted decisions a"
    using grants by blast
  moreover from this have "requireGrants decisions (uniq (map TrimSpace vs)) = None"
    by (simp add: requireGrants_None)
  ultimately show ?thesis using assms
    by (simp add: authorizeApplications_def collectApplications_uniq)
qed

end

lemma fold_grant:
  "granted (fold (\<lambda>a m. m(a \<mapsto> \<lparr>dc_Granted = True\<rparr>)) as m) a \<longleftrightarrow> a \<in> set as \<or> granted m a"
  by (induction as arbitrary: m) (auto simp: granted_def)

interpretation allow_all: open_access allowAllApplications_Check
  by unfold_locales (simp add: fold_grant)


section \<open>Batches\<close>

text \<open>
  \<^verbatim>\<open>BatchUpsert\<close> and \<^verbatim>\<open>BatchDelete\<close> keep one contract: every element is checked before the engine
  is called, the engine gets all of them in one call and in order, and a refused batch leaves the
  world as it was.
\<close>

locale batch_operation =
  fixes prepare :: "'a option list \<Rightarrow> err + 'b list"
    and accept :: "'a \<Rightarrow> bool"
    and convert :: "'a \<Rightarrow> 'b"
    and submit :: "'w Service \<Rightarrow> Ctx \<Rightarrow> 'b list \<Rightarrow> ('w, err) call_err"
    and run :: "'w Service \<Rightarrow> Ctx \<Rightarrow> 'a option list \<Rightarrow> ('w, err) call_err"
  assumes prepare_Nil: "prepare [] = Inr []"
    and prepare_nil: "\<exists>e. prepare (None # xs) = Inl e \<and> errors_is e SearchInvalidArgument"
    and prepare_bad: "\<not> accept x \<Longrightarrow> \<exists>e. prepare (Some x # xs) = Inl e \<and> errors_is e SearchInvalidArgument"
    and prepare_good: "accept x \<Longrightarrow> prepare (Some x # xs) = map_sum id ((#) (convert x)) (prepare xs)"
    and run_def: "run s ctx xs w =
      (if \<not> batchSizeOk xs then (Some batchSizeError, w)
       else case prepare xs of Inl e \<Rightarrow> (Some e, w) | Inr ys \<Rightarrow> submit s ctx ys w)"
begin

definition acceptable :: "'a option list \<Rightarrow> bool" where
  "acceptable xs \<longleftrightarrow> list_all (\<lambda>x. x \<noteq> None \<and> accept (the x)) xs"

lemma prepare_acceptable: "acceptable xs \<Longrightarrow> prepare xs = Inr (map (convert \<circ> the) xs)"
proof (induction xs)
  case (Cons x xs)
  then show ?case by (cases x) (auto simp: acceptable_def prepare_good)
qed (simp add: prepare_Nil)

lemma prepare_unacceptable:
  "\<not> acceptable xs \<Longrightarrow> \<exists>e. prepare xs = Inl e \<and> errors_is e SearchInvalidArgument"
proof (induction xs)
  case Nil
  then show ?case by (simp add: acceptable_def)
next
  case (Cons x xs)
  show ?case
  proof (cases x)
    case None
    then show ?thesis using prepare_nil by simp
  next
    case (Some a)
    show ?thesis
    proof (cases "accept a")
      case True
      with Some Cons.prems have "\<not> acceptable xs" by (simp add: acceptable_def)
      with Cons.IH True Some show ?thesis by (auto simp: prepare_good)
    qed (use Some prepare_bad in auto)
  qed
qed

lemma run_accepted:
  "batchSizeOk xs \<Longrightarrow> acceptable xs \<Longrightarrow> run s ctx xs w = submit s ctx (map (convert \<circ> the) xs) w"
  by (simp add: run_def prepare_acceptable)

lemma run_refused:
  assumes "\<not> (batchSizeOk xs \<and> acceptable xs)"
  shows "\<exists>e. run s ctx xs w = (Some e, w) \<and> errors_is e SearchInvalidArgument"
proof (cases "batchSizeOk xs")
  case True
  with assms have "\<not> acceptable xs" by simp
  then show ?thesis using True prepare_unacceptable [of xs] by (auto simp: run_def)
qed (simp add: run_def batchSizeError_def)

end

lemma checkTokens_None:
  "checkTokens broad perm tokens = None \<longleftrightarrow>
     (\<forall>t \<in> set tokens. validToken broad (TrimSpace t) \<and> (perm \<noteq> [] \<longrightarrow> TrimSpace t \<noteq> broad))"
  by (induction tokens) (auto simp: Let_def)

lemma checkTokens_Some: "checkTokens broad perm tokens = Some e \<Longrightarrow> errors_is e SearchInvalidArgument"
  by (induction tokens) (auto simp: Let_def split: if_splits)

definition acceptableDocument :: "SearchDocument \<Rightarrow> bool" where
  "acceptableDocument d \<longleftrightarrow> completeDocument d \<and> validateVisibility d = None"

text \<open>The tokens a document of a tenant may carry, said without the loop.\<close>

definition subjectToken :: "string \<Rightarrow> bool" where
  "subjectToken t \<longleftrightarrow> (\<exists>p \<in> set subjectPrefixes. \<exists>x. x \<noteq> [] \<and> t = p @ x)"

definition allowedToken :: "string \<Rightarrow> string \<Rightarrow> string \<Rightarrow> bool" where
  "allowedToken tenantID permissionCode t \<longleftrightarrow>
     t = tenantToken tenantID \<and> permissionCode = [] \<or> subjectToken t"

lemma subjectToken_iff:
  "subjectToken t \<longleftrightarrow> list_ex (\<lambda>p. HasPrefix t p \<and> length t > length p) subjectPrefixes"
  by (fastforce simp: subjectToken_def list_ex_iff prefix_def)

lemma tenantToken_not_subject: "\<not> subjectToken (tenantToken tenantID)"
  by (auto simp: subjectToken_def subjectPrefixes_def tenantToken_def)

lemma validateVisibility_None:
  "validateVisibility d = None \<longleftrightarrow>
     (\<forall>t \<in> set (sd_VisibilityTokens d). allowedToken (sd_TenantId d) (sd_PermissionCode d) (TrimSpace t))"
proof -
  have "validateVisibility d = None \<longleftrightarrow>
    (\<forall>t \<in> set (sd_VisibilityTokens d). (TrimSpace t = tenantToken (sd_TenantId d) \<or> subjectToken (TrimSpace t))
       \<and> (sd_PermissionCode d \<noteq> [] \<longrightarrow> TrimSpace t \<noteq> tenantToken (sd_TenantId d)))"
    by (simp add: validateVisibility_def checkTokens_None validToken_def subjectToken_iff
        tenantToken_def)
  then show ?thesis
    using tenantToken_not_subject by (fastforce simp: allowedToken_def)
qed

interpretation upsert_batch: batch_operation prepareDocuments acceptableDocument withCanonicalID
    "\<lambda>s. eng_Upsert (sv_engine s)" Service_BatchUpsert
  by unfold_locales
    (auto simp: acceptableDocument_def Service_BatchUpsert_def split: option.splits sum.splits
      dest: checkTokens_Some simp: validateVisibility_def)

interpretation delete_batch: batch_operation prepareKeys completeKey id
    "\<lambda>s. eng_Delete (sv_engine s)" Service_BatchDelete
  by unfold_locales
    (auto simp: Service_BatchDelete_def split: sum.splits)

lemma withCanonicalID_fields [simp]:
  "sd_TenantId (withCanonicalID d) = sd_TenantId d"
  "sd_SourceService (withCanonicalID d) = sd_SourceService d"
  "sd_DocumentType (withCanonicalID d) = sd_DocumentType d"
  "sd_SourceId (withCanonicalID d) = sd_SourceId d"
  "sd_SourceVersion (withCanonicalID d) = sd_SourceVersion d"
  "sd_VisibilityTokens (withCanonicalID d) = sd_VisibilityTokens d"
  "sd_PermissionCode (withCanonicalID d) = sd_PermissionCode d"
  "sd_Id (withCanonicalID d) =
     CanonicalID (sd_TenantId d) (sd_SourceService d) (sd_DocumentType d) (sd_SourceId d)"
  by (simp_all add: withCanonicalID_def)

section \<open>Canonical identifiers\<close>

lemma CanonicalID_append:
  "CanonicalID a b c d = a @ CHR '':'' # b @ CHR '':'' # c @ CHR '':'' # d"
  by (simp add: CanonicalID_def)

lemma colon_split:
  assumes "a @ CHR '':'' # b = a' @ CHR '':'' # b'"
    and "CHR '':'' \<notin> set a" and "CHR '':'' \<notin> set a'"
  shows "a = a' \<and> b = b'"
proof -
  have "Cut (a @ CHR '':'' # b) (CHR '':'') = (a, b, True)" using assms(2) by simp
  moreover have "Cut (a' @ CHR '':'' # b') (CHR '':'') = (a', b', True)" using assms(3) by simp
  ultimately show ?thesis using assms(1) by (metis Pair_inject)
qed

definition colon_free :: "string \<Rightarrow> bool" where
  "colon_free s \<longleftrightarrow> CHR '':'' \<notin> set s"

lemma one_le_word: "(1 :: uint32) \<le> x \<longleftrightarrow> x \<noteq> 0"
  by unat_arith

section \<open>Who may search\<close>

text \<open>
  The access rule of the README, without the code's control flow: at most 100 applications, none
  blank, and every one of them granted to the trimmed tenant by one answer of the verifier.
\<close>

definition mayUse :: "'w Service \<Rightarrow> Ctx \<Rightarrow> string \<Rightarrow> string list \<Rightarrow> 'w \<Rightarrow> bool" where
  "mayUse s ctx tenantID ids w \<longleftrightarrow>
     length ids \<le> maxApplications \<and> (\<forall>v \<in> set ids. TrimSpace v \<noteq> []) \<and>
     (ids \<noteq> [] \<longrightarrow> (\<exists>decisions w'.
        sv_applications s ctx (TrimSpace tenantID) (uniq (map TrimSpace ids)) w = (Inr decisions, w')
        \<and> (\<forall>v \<in> set ids. granted decisions (TrimSpace v))))"

lemma authorizeApplications_iff:
  "(\<exists>apps w'. authorizeApplications s ctx tenantID ids w = (Inr apps, w')) \<longleftrightarrow> mayUse s ctx tenantID ids w"
proof
  assume "mayUse s ctx tenantID ids w"
  then show "\<exists>apps w'. authorizeApplications s ctx tenantID ids w = (Inr apps, w')"
    by (cases "ids = []")
      (force simp: mayUse_def authorizeApplications_def collectApplications_uniq requireGrants_None
        split: option.splits)+
next
  assume "\<exists>apps w'. authorizeApplications s ctx tenantID ids w = (Inr apps, w')"
  then obtain apps w' where ok: "authorizeApplications s ctx tenantID ids w = (Inr apps, w')" by blast
  show "mayUse s ctx tenantID ids w"
    using authorizeApplications_ok [OF ok] by (auto simp: mayUse_def image_iff)
qed

lemma authorizeApplications_engine [simp]:
  "authorizeApplications (s\<lparr>sv_engine := e\<rparr>) = authorizeApplications s"
proof -
  have "sv_applications (s\<lparr>sv_engine := e\<rparr>) = sv_applications s" by simp
  then show ?thesis by (intro ext) (simp only: authorizeApplications_def)
qed

lemma authorizeApplications_cases:
  obtains (granted) w' where "authorizeApplications s ctx tenantID ids w = (Inr (uniq (map TrimSpace ids)), w')"
      and "mayUse s ctx tenantID ids w"
  | (refused) e w' where "authorizeApplications s ctx tenantID ids w = (Inl e, w')"
      and "\<not> mayUse s ctx tenantID ids w"
proof (cases "authorizeApplications s ctx tenantID ids w")
  case (Pair r w')
  then show ?thesis
    using authorizeApplications_iff [of s ctx tenantID ids w] authorizeApplications_ok(3) that
    by (cases r) fastforce+
qed

text \<open>An engine that answers with nothing, for the closed instances below.\<close>

definition example_engine :: "'w Engine" where
  "example_engine = \<lparr>eng_Ping = (\<lambda>ctx w. (None, w)),
     eng_Search = (\<lambda>ctx r v w. (Inr \<lparr>sp_Hits = [], sp_Total = 0, sp_Page = sr_Page r,
        sp_PageSize = sr_PageSize r, sp_Facets = [], sp_TookMilliseconds = 0\<rparr>, w)),
     eng_Suggest = (\<lambda>ctx r v w. (Inr \<lparr>sq_Suggestions = []\<rparr>, w)),
     eng_Get = (\<lambda>ctx t i v w. (Inr (empty_document\<lparr>sd_Id := i, sd_ApplicationId := ''a''\<rparr>), w)),
     eng_Upsert = (\<lambda>ctx ds w. (None, w)), eng_Delete = (\<lambda>ctx ks w. (None, w))\<rparr>"

definition example_service :: "unit Service" where
  "example_service = \<lparr>sv_engine = example_engine,
     sv_applications = (\<lambda>ctx t ids w. (Inr (\<lambda>a. Some \<lparr>dc_Granted = (a = ''a'')\<rparr>), w))\<rparr>"

text \<open>C23: Search fails closed. A search whose applications are not all granted ends in an error that
  is the same whatever the engine does, so the engine is not consulted.\<close>

theorem Search_fail_closed:
  assumes "\<not> mayUse s ctx (sr_TenantId r) (sr_ApplicationIds r) w"
  shows "\<exists>e w'. \<forall>engine. Service_Search (s\<lparr>sv_engine := engine\<rparr>) ctx (Some r) visibility w = (Inl e, w')"
  by (rule authorizeApplications_cases [of s ctx "sr_TenantId r" "sr_ApplicationIds r" w])
    (use assms in \<open>auto simp: Service_Search_def\<close>)

theorem Search_fail_closed_witness:
  "\<exists>e w'. \<forall>engine. Service_Search (example_service\<lparr>sv_engine := engine\<rparr>) background
     (Some (empty_request\<lparr>sr_TenantId := ''t'', sr_ApplicationIds := [''a'', ''b'']\<rparr>)) [] () = (Inl e, w')"
  by (rule Search_fail_closed)
    (simp add: mayUse_def example_service_def empty_request_def granted_def trim_eval)

text \<open>What the engine is asked. A search with a tenant and granted applications is exactly one
  engine call, on the request with its applications trimmed and without duplicates, the page at
  least 1, the page size between 1 and 100 and every other field unchanged, restricted to the
  normalized visibility tokens.\<close>

theorem Search_engine_call:
  assumes "TrimSpace (sr_TenantId r) \<noteq> []"
    and "mayUse s ctx (sr_TenantId r) (sr_ApplicationIds r) w"
  shows "\<exists>q w1. Service_Search s ctx (Some r) visibility w
        = eng_Search (sv_engine s) ctx q (normalizeVisibility (sr_TenantId r) visibility) w1
    \<and> sr_TenantId q = sr_TenantId r \<and> sr_Query q = sr_Query r \<and> sr_Filters q = sr_Filters r
    \<and> sr_DocumentTypes q = sr_DocumentTypes r \<and> sr_Sort q = sr_Sort r \<and> sr_FacetFields q = sr_FacetFields r
    \<and> sr_ApplicationIds q = uniq (map TrimSpace (sr_ApplicationIds r))
    \<and> 1 \<le> sr_Page q \<and> 1 \<le> sr_PageSize q \<and> sr_PageSize q \<le> 100"
proof (rule authorizeApplications_cases [of s ctx "sr_TenantId r" "sr_ApplicationIds r" w])
  fix w1
  assume ok: "authorizeApplications s ctx (sr_TenantId r) (sr_ApplicationIds r) w
    = (Inr (uniq (map TrimSpace (sr_ApplicationIds r))), w1)"
  let ?q = "normalizePage (r\<lparr>sr_ApplicationIds := uniq (map TrimSpace (sr_ApplicationIds r))\<rparr>)"
  have "Service_Search s ctx (Some r) visibility w
      = eng_Search (sv_engine s) ctx ?q (normalizeVisibility (sr_TenantId r) visibility) w1"
    using assms(1) ok by (simp add: Service_Search_def)
  moreover have "1 \<le> sr_Page ?q \<and> 1 \<le> sr_PageSize ?q \<and> sr_PageSize ?q \<le> 100"
    by (auto simp: normalizePage_eval one_le_word min_def)
  ultimately show ?thesis by (intro exI [of _ ?q] exI [of _ w1]) simp
qed (use assms(2) in simp)

theorem Search_engine_call_witness:
  "\<exists>q w1. Service_Search example_service background
        (Some (empty_request\<lparr>sr_TenantId := ''t'', sr_ApplicationIds := ['' a '', ''a''], sr_PageSize := 999\<rparr>)) [''user:u''] ()
        = eng_Search (sv_engine example_service) background q (normalizeVisibility ''t'' [''user:u'']) w1
    \<and> sr_ApplicationIds q = [''a''] \<and> sr_PageSize q \<le> 100"
proof -
  let ?r = "empty_request\<lparr>sr_TenantId := ''t'', sr_ApplicationIds := ['' a '', ''a''], sr_PageSize := 999\<rparr>"
  have t: "TrimSpace (sr_TenantId ?r) \<noteq> []" by (simp add: trim_eval)
  have m: "mayUse example_service background (sr_TenantId ?r) (sr_ApplicationIds ?r) ()"
    by (simp add: mayUse_def example_service_def granted_def trim_eval maxApplications_def)
  from Search_engine_call [OF t m, of "[''user:u'']"] show ?thesis
    by (auto simp: trim_eval)
qed

text \<open>Suggest needs the same grants as Search. Without them, or with a blank tenant or prefix, it
  ends in an error whatever the engine does; with them it is one engine call on the trimmed
  applications with a limit between 1 and 50.\<close>

theorem Suggest_access:
  "if TrimSpace (sg_TenantId r) \<noteq> [] \<and> TrimSpace (sg_Prefix r) \<noteq> []
      \<and> mayUse s ctx (sg_TenantId r) (sg_ApplicationIds r) w
   then \<exists>q w1. Service_Suggest s ctx (Some r) visibility w
          = eng_Suggest (sv_engine s) ctx q (normalizeVisibility (sg_TenantId r) visibility) w1
        \<and> sg_TenantId q = sg_TenantId r \<and> sg_Prefix q = sg_Prefix r
        \<and> sg_ApplicationIds q = uniq (map TrimSpace (sg_ApplicationIds r))
        \<and> 1 \<le> sg_Limit q \<and> sg_Limit q \<le> 50
   else \<exists>e w'. \<forall>engine. Service_Suggest (s\<lparr>sv_engine := engine\<rparr>) ctx (Some r) visibility w = (Inl e, w')"
  (is "if ?ok then ?call else ?refused")
proof (rule authorizeApplications_cases [of s ctx "sg_TenantId r" "sg_ApplicationIds r" w])
  fix w1
  assume ok: "authorizeApplications s ctx (sg_TenantId r) (sg_ApplicationIds r) w
      = (Inr (uniq (map TrimSpace (sg_ApplicationIds r))), w1)"
    and may: "mayUse s ctx (sg_TenantId r) (sg_ApplicationIds r) w"
  let ?q = "normalizeLimit (r\<lparr>sg_ApplicationIds := uniq (map TrimSpace (sg_ApplicationIds r))\<rparr>)"
  have "1 \<le> sg_Limit ?q \<and> sg_Limit ?q \<le> 50"
    by (auto simp: normalizeLimit_eval one_le_word min_def)
  with ok may show ?thesis
    by (auto simp: Service_Suggest_def intro!: exI [of _ ?q] exI [of _ w1])
qed (auto simp: Service_Suggest_def)

text \<open>Get checks the application stored on the document. A document is returned only if the
  engine returned that very document for the normalized tokens and, when it belongs to an
  application, that application is granted; guessing an identifier does not bypass a grant.\<close>

theorem Get_checks_application:
  assumes "Service_Get s ctx tenantID ident visibility w = (Inr d, w')"
  shows "\<exists>w1. eng_Get (sv_engine s) ctx tenantID ident (normalizeVisibility tenantID visibility) w = (Inr d, w1)
    \<and> (sd_ApplicationId d = [] \<and> w' = w1 \<or> mayUse s ctx tenantID [sd_ApplicationId d] w1)
    \<and> TrimSpace tenantID \<noteq> [] \<and> TrimSpace ident \<noteq> []"
  using assms authorizeApplications_iff [of s ctx tenantID]
  by (auto simp: Service_Get_def split: if_splits sum.splits prod.splits)

theorem Get_checks_application_witness:
  "\<exists>w1. eng_Get (sv_engine example_service) background ''t'' ''i'' (normalizeVisibility ''t'' []) ()
       = (Inr (empty_document\<lparr>sd_Id := ''i'', sd_ApplicationId := ''a''\<rparr>), w1)
    \<and> mayUse example_service background ''t'' [''a''] w1"
proof -
  have "Service_Get example_service background ''t'' ''i'' [] ()
      = (Inr (empty_document\<lparr>sd_Id := ''i'', sd_ApplicationId := ''a''\<rparr>), ())"
    by (simp add: Service_Get_def authorizeApplications_def example_service_def example_engine_def
        empty_document_def granted_def maxApplications_def trim_eval)
  from Get_checks_application [OF this] show ?thesis by (simp add: empty_document_def)
qed

text \<open>The visibility tokens sent to the engine are the tenant-wide token first and then the trimmed,
  non-blank tokens of the caller, each once, in the order of their first occurrence.\<close>

theorem normalizeVisibility_spec:
  "hd (normalizeVisibility tenantID tokens) = tenantToken tenantID
   \<and> distinct (normalizeVisibility tenantID tokens)
   \<and> set (normalizeVisibility tenantID tokens) = insert (tenantToken tenantID) (TrimSpace ` set tokens - {[]})
   \<and> subseq (normalizeVisibility tenantID tokens) (tenantToken tenantID # map TrimSpace tokens)"
proof -
  let ?ts = "filter (\<lambda>t. t \<noteq> []) (map TrimSpace tokens)"
  have "subseq (uniq (tenantToken tenantID # ?ts)) (tenantToken tenantID # ?ts)"
    by (rule subseq_uniq)
  moreover have "subseq (tenantToken tenantID # ?ts) (tenantToken tenantID # map TrimSpace tokens)"
    by (simp add: subseq_filter_left del: filter.simps)
  ultimately have "subseq (normalizeVisibility tenantID tokens) (tenantToken tenantID # map TrimSpace tokens)"
    unfolding normalizeVisibility_uniq by (rule subseq_order.order_trans)
  moreover have "distinct (normalizeVisibility tenantID tokens)"
    unfolding normalizeVisibility_uniq by (rule distinct_uniq)
  ultimately show ?thesis
    by (intro conjI hd_normalizeVisibility set_normalizeVisibility)
qed

text \<open>Normalizing twice changes nothing, so tokens that were normalized upstream are kept as they are.\<close>

theorem normalizeVisibility_idem:
  "normalizeVisibility tenantID (normalizeVisibility tenantID tokens) = normalizeVisibility tenantID tokens"
proof -
  let ?n = "normalizeVisibility tenantID tokens"
  have trimmed: "TrimSpace t = t \<and> t \<noteq> []" if "t \<in> set ?n" for t
    using that by (auto simp: set_normalizeVisibility)
  then have "map TrimSpace ?n = ?n" by (simp add: map_idI)
  moreover have "filter (\<lambda>t. t \<noteq> []) ?n = ?n" using trimmed by (simp add: filter_id_conv)
  ultimately have "normalizeVisibility tenantID ?n = uniq (tenantToken tenantID # ?n)"
    by (simp only: normalizeVisibility_uniq)
  also obtain rest where n: "?n = tenantToken tenantID # rest"
    by (metis normalizeVisibility_uniq uniq.simps(2))
  then have "distinct (tenantToken tenantID # rest)"
    by (metis distinct_uniq normalizeVisibility_uniq)
  then have "uniq (tenantToken tenantID # ?n) = ?n"
    unfolding n by (auto simp: uniq_distinct filter_id_conv)
  finally show ?thesis .
qed

section \<open>Batches reach the engine whole or not at all\<close>

text \<open>C24: BatchUpsert. A batch of 1 to 500 documents, none missing, each complete and with visibility
  tokens its tenant may use, is one engine call on all of them in order with canonical identifiers;
  any other batch is refused as an invalid argument and leaves the world unchanged.\<close>

theorem BatchUpsert_all_or_nothing:
  "if 1 \<le> length docs \<and> length docs \<le> 500
      \<and> list_all (\<lambda>d. d \<noteq> None \<and> completeDocument (the d)
          \<and> list_all (\<lambda>t. allowedToken (sd_TenantId (the d)) (sd_PermissionCode (the d)) (TrimSpace t))
              (sd_VisibilityTokens (the d))) docs
   then Service_BatchUpsert s ctx docs w
     = eng_Upsert (sv_engine s) ctx (map (\<lambda>d. withCanonicalID (the d)) docs) w
   else \<exists>e. Service_BatchUpsert s ctx docs w = (Some e, w) \<and> errors_is e SearchInvalidArgument"
proof -
  have size: "batchSizeOk docs \<longleftrightarrow> 1 \<le> length docs \<and> length docs \<le> 500"
    by (cases docs) (auto simp: batchSizeOk_def maxBatchSize_def)
  have "upsert_batch.acceptable docs \<longleftrightarrow>
      list_all (\<lambda>d. d \<noteq> None \<and> completeDocument (the d)
          \<and> list_all (\<lambda>t. allowedToken (sd_TenantId (the d)) (sd_PermissionCode (the d)) (TrimSpace t))
              (sd_VisibilityTokens (the d))) docs"
    by (simp add: upsert_batch.acceptable_def acceptableDocument_def validateVisibility_None list_all_iff)
  then show ?thesis
    using size upsert_batch.run_accepted [of docs s ctx w] upsert_batch.run_refused [of docs s ctx w]
    by (simp add: comp_def)
qed

theorem BatchUpsert_all_or_nothing_witness:
  "Service_BatchUpsert example_service background
     [Some (empty_document\<lparr>sd_TenantId := ''t'', sd_SourceService := ''s'', sd_DocumentType := ''d'',
        sd_SourceId := ''1'', sd_SourceVersion := 1, sd_VisibilityTokens := [''tenant:t:*'']\<rparr>)] () = (None, ())
   \<and> (\<exists>e. Service_BatchUpsert example_service background
     [Some (empty_document\<lparr>sd_TenantId := ''t'', sd_SourceService := ''s'', sd_DocumentType := ''d'',
        sd_SourceId := ''1'', sd_SourceVersion := 1, sd_PermissionCode := ''p'',
        sd_VisibilityTokens := [''tenant:t:*'']\<rparr>)] () = (Some e, ()) \<and> errors_is e SearchInvalidArgument)"
  using BatchUpsert_all_or_nothing [of "[Some (empty_document\<lparr>sd_TenantId := ''t'', sd_SourceService := ''s'',
        sd_DocumentType := ''d'', sd_SourceId := ''1'', sd_SourceVersion := 1,
        sd_VisibilityTokens := [''tenant:t:*'']\<rparr>)]" example_service background "()"]
    BatchUpsert_all_or_nothing [of "[Some (empty_document\<lparr>sd_TenantId := ''t'', sd_SourceService := ''s'',
        sd_DocumentType := ''d'', sd_SourceId := ''1'', sd_SourceVersion := 1, sd_PermissionCode := ''p'',
        sd_VisibilityTokens := [''tenant:t:*'']\<rparr>)]" example_service background "()"]
  by (simp add: completeDocument_def allowedToken_def tenantToken_def subjectToken_iff subjectPrefixes_def
      empty_document_def trim_eval example_service_def example_engine_def)

text \<open>BatchDelete. A batch of 1 to 500 complete keys is one engine call on exactly these keys in
  order; any other batch is refused as an invalid argument and leaves the world unchanged.\<close>

theorem BatchDelete_all_or_nothing:
  "if 1 \<le> length ks \<and> length ks \<le> 500 \<and> list_all (\<lambda>k. k \<noteq> None \<and> completeKey (the k)) ks
   then Service_BatchDelete s ctx ks w = eng_Delete (sv_engine s) ctx (map the ks) w
   else \<exists>e. Service_BatchDelete s ctx ks w = (Some e, w) \<and> errors_is e SearchInvalidArgument"
proof -
  have "batchSizeOk ks \<longleftrightarrow> 1 \<le> length ks \<and> length ks \<le> 500"
    by (cases ks) (auto simp: batchSizeOk_def maxBatchSize_def)
  then show ?thesis
    using delete_batch.run_accepted [of ks s ctx w] delete_batch.run_refused [of ks s ctx w]
    by (auto simp: delete_batch.acceptable_def)
qed

section \<open>Identifiers\<close>

text \<open>Canonical identifiers of two documents whose tenant, source service and document type contain
  no colon are equal only if all four parts are.\<close>

theorem CanonicalID_inj:
  assumes "colon_free a" "colon_free b" "colon_free c" "colon_free a'" "colon_free b'" "colon_free c'"
    and "CanonicalID a b c d = CanonicalID a' b' c' d'"
  shows "a = a' \<and> b = b' \<and> c = c' \<and> d = d'"
proof -
  have "a = a' \<and> b @ CHR '':'' # c @ CHR '':'' # d = b' @ CHR '':'' # c' @ CHR '':'' # d'"
    using assms by (intro colon_split) (simp_all add: CanonicalID_append colon_free_def)
  moreover from this have "b = b' \<and> c @ CHR '':'' # d = c' @ CHR '':'' # d'"
    using assms by (intro colon_split) (simp_all add: colon_free_def)
  moreover from this have "c = c' \<and> d = d'"
    using assms by (intro colon_split) (simp_all add: colon_free_def)
  ultimately show ?thesis by simp
qed

theorem CanonicalID_inj_witness:
  "CanonicalID ''t'' ''apps'' ''application'' ''a:1'' = CanonicalID ''t'' ''apps'' ''application'' ''a:1''
   \<and> ''a:1'' = ''a:1''"
  using CanonicalID_inj [of "''t''" "''apps''" "''application''" "''t''" "''apps''" "''application''"
      "''a:1''" "''a:1''"]
  by (simp add: colon_free_def)

text \<open>Colons are not excluded, so identifiers do collide across tenants: two batches, each accepted
  for its own tenant, write different tenants' documents under one identifier.\<close>

theorem CanonicalID_collision:
  "\<exists>d1 d2. acceptableDocument d1 \<and> acceptableDocument d2 \<and> sd_TenantId d1 \<noteq> sd_TenantId d2
    \<and> sd_Id (withCanonicalID d1) = sd_Id (withCanonicalID d2)"
proof -
  let ?d = "empty_document\<lparr>sd_DocumentType := ''d'', sd_SourceId := ''1'', sd_SourceVersion := 1\<rparr>"
  let ?d1 = "?d\<lparr>sd_TenantId := ''a'', sd_SourceService := ''b:c'', sd_VisibilityTokens := [''tenant:a:*'']\<rparr>"
  let ?d2 = "?d\<lparr>sd_TenantId := ''a:b'', sd_SourceService := ''c'', sd_VisibilityTokens := [''tenant:a:b:*'']\<rparr>"
  have "acceptableDocument ?d1 \<and> acceptableDocument ?d2"
    by (simp add: acceptableDocument_def completeDocument_def validateVisibility_def validToken_def
        empty_document_def Let_def trim_eval)
  then show ?thesis
    by (intro exI [of _ ?d1] exI [of _ ?d2]) (simp add: CanonicalID_append empty_document_def)
qed

end
