(* ===== verification/Health.thy ===== *)
theory Health
  imports SearchService
begin

text \<open>
  \<^verbatim>\<open>internal/health/service.go\<close> and the health server of \<^verbatim>\<open>internal/transport/grpc/server.go\<close>. The pings of
  the database and of Redis are parameters; a nil client is \<^const>\<open>None\<close>. The timeouts bound the pings and
  show up as their errors.
\<close>

section \<open>Checks\<close>

record Dependency =
  dp_Status :: string
  dp_Latency :: string

record HealthStatus =
  hs_Status :: string
  hs_Dependencies :: "string \<rightharpoonup> Dependency"

record 'w HealthService =
  he_db :: "(Ctx \<Rightarrow> ('w, err) call_err) option"
  he_redis :: "(Ctx \<Rightarrow> ('w, err) call_err) option"
  he_search :: "'w Service option"
  he_elapsed :: "'w \<Rightarrow> 'w \<Rightarrow> string"  \<comment> \<open>the time between two states, as text\<close>

record HealthResult =
  hr_name :: string
  hr_dependency :: Dependency
  hr_ready :: bool

definition checkResult :: "string \<Rightarrow> string \<Rightarrow> err option \<Rightarrow> HealthResult" where
  "checkResult name elapsed e =
     (let dependency = \<lparr>dp_Status = ''up'', dp_Latency = elapsed\<rparr> in
      if e \<noteq> None
      then \<lparr>hr_name = name, hr_dependency = dependency\<lparr>dp_Status := ''down''\<rparr>, hr_ready = False\<rparr>
      else \<lparr>hr_name = name, hr_dependency = dependency, hr_ready = True\<rparr>)"

definition disabledResult :: "string \<Rightarrow> HealthResult" where
  "disabledResult name =
     \<lparr>hr_name = name, hr_dependency = \<lparr>dp_Status = ''disabled'', dp_Latency = []\<rparr>, hr_ready = True\<rparr>"

text \<open>The body of the three check functions, which differ in the name and the ping.\<close>

definition pingResult ::
    "'w HealthService \<Rightarrow> string \<Rightarrow> (Ctx \<Rightarrow> ('w, err) call_err) option \<Rightarrow> Ctx \<Rightarrow> 'w \<Rightarrow> HealthResult \<times> 'w" where
  "pingResult s name ping ctx w =
     (case ping of
        None \<Rightarrow> (disabledResult name, w)
      | Some p \<Rightarrow> (case p ctx w of (e, w') \<Rightarrow> (checkResult name (he_elapsed s w w') e, w')))"

definition checkOpenSearch :: "'w HealthService \<Rightarrow> Ctx \<Rightarrow> 'w \<Rightarrow> HealthResult \<times> 'w" where
  "checkOpenSearch s = pingResult s ''opensearch'' (map_option Service_Ping (he_search s))"

definition checkDatabase :: "'w HealthService \<Rightarrow> Ctx \<Rightarrow> 'w \<Rightarrow> HealthResult \<times> 'w" where
  "checkDatabase s = pingResult s ''database'' (he_db s)"

definition checkRedis :: "'w HealthService \<Rightarrow> Ctx \<Rightarrow> 'w \<Rightarrow> HealthResult \<times> 'w" where
  "checkRedis s = pingResult s ''redis'' (he_redis s)"

datatype check = CheckDatabase | CheckRedis | CheckOpenSearch

primrec runCheck :: "'w HealthService \<Rightarrow> check \<Rightarrow> Ctx \<Rightarrow> 'w \<Rightarrow> HealthResult \<times> 'w" where
  "runCheck s CheckDatabase = checkDatabase s"
| "runCheck s CheckRedis = checkRedis s"
| "runCheck s CheckOpenSearch = checkOpenSearch s"

definition Live :: HealthStatus where
  "Live = \<lparr>hs_Status = ''up'', hs_Dependencies = Map.empty\<rparr>"

text \<open>
  The three goroutines run in some order, and their results are received in some order. A ping is one
  step here; \<^verbatim>\<open>order\<close> is the order in which the results arrive.
\<close>

fun collect ::
    "'w HealthService \<Rightarrow> Ctx \<Rightarrow> check list \<Rightarrow> (string \<rightharpoonup> Dependency) \<Rightarrow> bool \<Rightarrow> 'w \<Rightarrow> ((string \<rightharpoonup> Dependency) \<times> bool) \<times> 'w" where
  "collect s ctx [] deps ready w = ((deps, ready), w)"
| "collect s ctx (ck # order) deps ready w =
     (case runCheck s ck ctx w of (item, w') \<Rightarrow>
        collect s ctx order (deps(hr_name item \<mapsto> hr_dependency item)) (ready \<and> hr_ready item) w')"

definition Ready :: "'w HealthService \<Rightarrow> check list \<Rightarrow> Ctx \<Rightarrow> 'w \<Rightarrow> (HealthStatus \<times> bool) \<times> 'w" where
  "Ready s order ctx w =
     (case collect s ctx order Map.empty True w of ((deps, ready), w') \<Rightarrow>
        ((\<lparr>hs_Status = (if \<not> ready then ''not_ready'' else ''ready''), hs_Dependencies = deps\<rparr>, ready), w'))"

section \<open>The gRPC health service\<close>

datatype ServingStatus = SERVING | NOT_SERVING

definition healthCheck :: "'w HealthService \<Rightarrow> check list \<Rightarrow> Ctx \<Rightarrow> 'w \<Rightarrow> ServingStatus \<times> 'w" where
  "healthCheck s order ctx w =
     (case Ready s order ctx w of ((_, ready), w') \<Rightarrow> (if ready then SERVING else NOT_SERVING, w'))"

definition healthList :: "string \<rightharpoonup> ServingStatus" where
  "healthList = [[] \<mapsto> SERVING]"

section \<open>What readiness means\<close>

primrec check_name :: "check \<Rightarrow> string" where
  "check_name CheckDatabase = ''database''"
| "check_name CheckRedis = ''redis''"
| "check_name CheckOpenSearch = ''opensearch''"

lemma check_name_inj: "check_name a = check_name b \<longleftrightarrow> a = b"
  by (cases a; cases b) simp_all

lemma UNIV_check: "(UNIV :: check set) = {CheckDatabase, CheckRedis, CheckOpenSearch}"
  using check.exhaust by blast

lemma pingResult_name: "hr_name (fst (pingResult s name ping ctx w)) = name"
  by (simp add: pingResult_def disabledResult_def checkResult_def Let_def split: option.split prod.split)

lemma pingResult_ready:
  "hr_ready (fst (pingResult s name ping ctx w)) \<longleftrightarrow> dp_Status (hr_dependency (fst (pingResult s name ping ctx w))) \<noteq> ''down''"
  by (simp add: pingResult_def disabledResult_def checkResult_def Let_def split: option.split prod.split)

lemma runCheck_name: "hr_name (fst (runCheck s ck ctx w)) = check_name ck"
  by (cases ck) (simp_all add: checkDatabase_def checkRedis_def checkOpenSearch_def pingResult_name)

lemma runCheck_ready:
  "hr_ready (fst (runCheck s ck ctx w)) \<longleftrightarrow> dp_Status (hr_dependency (fst (runCheck s ck ctx w))) \<noteq> ''down''"
  by (cases ck) (simp_all add: checkDatabase_def checkRedis_def checkOpenSearch_def pingResult_ready)

definition none_down :: "(string \<rightharpoonup> Dependency) \<Rightarrow> bool" where
  "none_down deps \<longleftrightarrow> (\<forall>d \<in> ran deps. dp_Status d \<noteq> ''down'')"

lemma collect_spec:
  assumes "distinct order" and "dom deps \<inter> check_name ` set order = {}" and "ready \<longleftrightarrow> none_down deps"
    and "collect s ctx order deps ready w = ((deps', ready'), w')"
  shows "dom deps' = dom deps \<union> check_name ` set order \<and> (ready' \<longleftrightarrow> none_down deps')"
  using assms
proof (induction order arbitrary: deps ready w)
  case (Cons ck order)
  obtain item w1 where run: "runCheck s ck ctx w = (item, w1)" by (cases "runCheck s ck ctx w")
  have name: "hr_name item = check_name ck" using runCheck_name [of s ck ctx w] run by simp
  have item: "hr_ready item \<longleftrightarrow> dp_Status (hr_dependency item) \<noteq> ''down''" using runCheck_ready [of s ck ctx w] run by simp
  let ?deps = "deps(check_name ck \<mapsto> hr_dependency item)"
  have fresh: "deps (check_name ck) = None" using Cons.prems(2) by auto
  then have ran: "ran ?deps = insert (hr_dependency item) (ran deps)" by (rule ran_map_upd)
  have rest: "dom ?deps \<inter> check_name ` set order = {}"
    using Cons.prems(1,2) by (auto simp: check_name_inj)
  have flag: "ready \<and> hr_ready item \<longleftrightarrow> none_down ?deps"
    using Cons.prems(3) item unfolding none_down_def ran by auto
  have run': "collect s ctx order ?deps (ready \<and> hr_ready item) w1 = ((deps', ready'), w')"
    using Cons.prems(4) by (simp add: run name)
  have "distinct order" using Cons.prems(1) by simp
  from Cons.IH [OF this rest flag run']
  have "dom deps' = dom ?deps \<union> check_name ` set order" "ready' \<longleftrightarrow> none_down deps'" by blast+
  then show ?case by (simp add: insert_commute Un_commute)
qed simp

text \<open>
  What is pinged, and what the pings say: the dependencies the service was given, each asked once, in the order
  in which the results arrive.
\<close>

primrec configured :: "'w HealthService \<Rightarrow> check \<Rightarrow> (Ctx \<Rightarrow> ('w, err) call_err) option" where
  "configured s CheckDatabase = he_db s"
| "configured s CheckRedis = he_redis s"
| "configured s CheckOpenSearch = map_option (\<lambda>service. eng_Ping (sv_engine service)) (he_search s)"

primrec pings :: "'w HealthService \<Rightarrow> Ctx \<Rightarrow> check list \<Rightarrow> 'w \<Rightarrow> (check \<times> err option option) list \<times> 'w" where
  "pings s ctx [] w = ([], w)"
| "pings s ctx (ck # order) w =
     (case configured s ck of
        None \<Rightarrow> (case pings s ctx order w of (rs, w') \<Rightarrow> ((ck, None) # rs, w'))
      | Some ping \<Rightarrow>
          (case ping ctx w of (e, w1) \<Rightarrow> case pings s ctx order w1 of (rs, w') \<Rightarrow> ((ck, Some e) # rs, w')))"

definition reported :: "err option option \<Rightarrow> string" where
  "reported r = (case r of None \<Rightarrow> ''disabled'' | Some None \<Rightarrow> ''up'' | Some (Some e) \<Rightarrow> ''down'')"

definition failed :: "check \<times> err option option \<Rightarrow> bool" where
  "failed r \<longleftrightarrow> (case snd r of Some (Some e) \<Rightarrow> True | _ \<Rightarrow> False)"

lemma runCheck_ping:
  "case configured s ck of
     None \<Rightarrow> runCheck s ck ctx w = (disabledResult (check_name ck), w)
   | Some ping \<Rightarrow> (case ping ctx w of (e, w') \<Rightarrow> \<exists>latency. runCheck s ck ctx w = (checkResult (check_name ck) latency e, w'))"
proof -
  have "Service_Ping service = eng_Ping (sv_engine service)" for service :: "'a Service"
    by (simp add: fun_eq_iff Service_Ping_def)
  then show ?thesis
    by (cases ck) (auto simp: checkDatabase_def checkRedis_def checkOpenSearch_def pingResult_def split: option.split prod.split)
qed

lemma result_fields:
  "hr_name (disabledResult name) = name" "hr_ready (disabledResult name)" "dp_Status (hr_dependency (disabledResult name)) = reported None"
  "hr_name (checkResult name latency e) = name" "hr_ready (checkResult name latency e) \<longleftrightarrow> e = None"
  "dp_Status (hr_dependency (checkResult name latency e)) = reported (Some e)"
  by (simp_all add: disabledResult_def checkResult_def reported_def Let_def split: option.split)

lemma runCheck_result:
  obtains item r w1 where "runCheck s ck ctx w = (item, w1)"
    and "\<And>order. pings s ctx (ck # order) w = (case pings s ctx order w1 of (rs, w') \<Rightarrow> ((ck, r) # rs, w'))"
    and "hr_name item = check_name ck" and "dp_Status (hr_dependency item) = reported r" and "hr_ready item \<longleftrightarrow> \<not> failed (ck, r)"
proof (cases "configured s ck")
  case None
  then have "runCheck s ck ctx w = (disabledResult (check_name ck), w)" using runCheck_ping [of s ck ctx w] by simp
  then show ?thesis by (rule that [of _ _ None]) (simp_all add: None result_fields failed_def)
next
  case (Some ping)
  obtain e w1 where ping: "ping ctx w = (e, w1)" by (cases "ping ctx w")
  then obtain latency where "runCheck s ck ctx w = (checkResult (check_name ck) latency e, w1)"
    using runCheck_ping [of s ck ctx w] Some by auto
  then show ?thesis
    by (rule that [of _ _ "Some e"]) (simp_all add: Some ping result_fields failed_def split: option.split)
qed

lemma collect_pings:
  assumes "distinct order" and "pings s ctx order w = (rs, w1)" and "collect s ctx order deps ready w = ((deps', ready'), w')"
  shows "w' = w1 \<and> map fst rs = order \<and> (ready' \<longleftrightarrow> ready \<and> list_all (\<lambda>r. \<not> failed r) rs)
    \<and> list_all (\<lambda>(ck, r). map_option dp_Status (deps' (check_name ck)) = Some (reported r)) rs
    \<and> (\<forall>name. name \<notin> check_name ` set order \<longrightarrow> deps' name = deps name)"
  using assms
proof (induction order arbitrary: deps ready w rs)
  case (Cons ck order)
  obtain item r v where run: "runCheck s ck ctx w = (item, v)"
    and ping: "\<And>order. pings s ctx (ck # order) w = (case pings s ctx order v of (rs, w') \<Rightarrow> ((ck, r) # rs, w'))"
    and item: "hr_name item = check_name ck" "dp_Status (hr_dependency item) = reported r" "hr_ready item \<longleftrightarrow> \<not> failed (ck, r)"
    by (rule runCheck_result [where s = s and ck = ck and ctx = ctx and w = w]) (rule that)
  obtain rs' where rest: "pings s ctx order v = (rs', w1)" and rs: "rs = (ck, r) # rs'"
    using Cons.prems(2) ping [of order] by (cases "pings s ctx order v") simp
  let ?deps = "deps(check_name ck \<mapsto> hr_dependency item)"
  have "collect s ctx order ?deps (ready \<and> hr_ready item) v = ((deps', ready'), w')"
    using Cons.prems(3) by (simp add: run item(1))
  moreover have "distinct order" and fresh: "check_name ck \<notin> check_name ` set order"
    using Cons.prems(1) by (auto simp: check_name_inj)
  ultimately have IH: "w' = w1" "map fst rs' = order" "ready' \<longleftrightarrow> (ready \<and> hr_ready item) \<and> list_all (\<lambda>r. \<not> failed r) rs'"
      "list_all (\<lambda>(ck, r). map_option dp_Status (deps' (check_name ck)) = Some (reported r)) rs'"
      "\<forall>name. name \<notin> check_name ` set order \<longrightarrow> deps' name = ?deps name"
    using Cons.IH [OF _ rest] by blast+
  have "deps' (check_name ck) = Some (hr_dependency item)" using IH(5) fresh by simp
  then show ?case using IH item(2,3) by (simp add: rs)
qed simp

text \<open>C31: Readiness. In whatever order the three checks finish, every dependency that the service was given is pinged
  once and nothing else is done; the answer reports exactly the three dependencies, each up if its ping
  succeeded, down if it failed and disabled if there is none; it is ready exactly if no ping failed, its
  text says the same, and the gRPC health check serves exactly then.\<close>

theorem Ready_meaning:
  assumes "distinct order" and "set order = UNIV"
    and "Ready s order ctx w = ((status, ready), w')" and "pings s ctx order w = (results, w1)"
  shows "w' = w1 \<and> map fst results = order
    \<and> dom (hs_Dependencies status) = {''database'', ''redis'', ''opensearch''}
    \<and> list_all (\<lambda>(ck, r). map_option dp_Status (hs_Dependencies status (check_name ck)) = Some (reported r)) results
    \<and> (ready \<longleftrightarrow> list_all (\<lambda>r. \<not> failed r) results)
    \<and> hs_Status status = (if ready then ''ready'' else ''not_ready'')
    \<and> healthCheck s order ctx w = (if ready then SERVING else NOT_SERVING, w')"
proof -
  obtain deps where run: "collect s ctx order Map.empty True w = ((deps, ready), w')"
    and status: "status = \<lparr>hs_Status = (if \<not> ready then ''not_ready'' else ''ready''), hs_Dependencies = deps\<rparr>"
    using assms(3) by (auto simp: Ready_def split: prod.splits)
  have all: "w' = w1" "map fst results = order" "ready \<longleftrightarrow> list_all (\<lambda>r. \<not> failed r) results"
      "list_all (\<lambda>(ck, r). map_option dp_Status (deps (check_name ck)) = Some (reported r)) results"
    using collect_pings [OF assms(1,4) run] by simp_all
  have "dom deps = {''database'', ''redis'', ''opensearch''}"
    using collect_spec [OF assms(1) _ _ run] by (simp add: assms(2) none_down_def) (simp add: UNIV_check)
  then show ?thesis using assms(3) all by (simp add: status healthCheck_def)
qed

definition example_health :: "unit HealthService" where
  "example_health = \<lparr>he_db = Some (\<lambda>ctx w. (Some (Plain ''refused''), w)), he_redis = None,
     he_search = Some \<lparr>sv_engine = example_engine, sv_applications = allowAllApplications_Check\<rparr>,
     he_elapsed = (\<lambda>_ _. ''1ms'')\<rparr>"

theorem Ready_meaning_witness:
  "\<exists>status. Ready example_health [CheckRedis, CheckDatabase, CheckOpenSearch] background () = ((status, False), ())
     \<and> hs_Status status = ''not_ready'' \<and> map_option dp_Status (hs_Dependencies status ''database'') = Some ''down''
     \<and> map_option dp_Status (hs_Dependencies status ''redis'') = Some ''disabled''
     \<and> map_option dp_Status (hs_Dependencies status ''opensearch'') = Some ''up''"
proof -
  let ?order = "[CheckRedis, CheckDatabase, CheckOpenSearch]"
  obtain status where run: "Ready example_health ?order background () = ((status, False), ())"
    by (simp add: Ready_def checkRedis_def checkDatabase_def checkOpenSearch_def pingResult_def checkResult_def
        disabledResult_def example_health_def Service_Ping_def example_engine_def Let_def)
  have pinged: "pings example_health background ?order ()
      = ([(CheckRedis, None), (CheckDatabase, Some (Some (Plain ''refused''))), (CheckOpenSearch, Some None)], ())"
    by (simp add: example_health_def example_engine_def)
  have "distinct ?order" "set ?order = UNIV" by (auto simp: UNIV_check)
  from Ready_meaning [OF this run pinged] run show ?thesis by (intro exI [of _ status]) (simp add: reported_def)
qed

text \<open>The health service's List is not tied to readiness. It reports the server as serving whatever
  the state of the dependencies, also when Check reports that it is not serving.\<close>

theorem healthList_ignores_readiness:
  "healthList [] = Some SERVING
   \<and> fst (healthCheck example_health [CheckDatabase, CheckRedis, CheckOpenSearch] background ()) = NOT_SERVING"
  by (simp add: healthList_def healthCheck_def Ready_def checkRedis_def checkDatabase_def checkOpenSearch_def
      pingResult_def checkResult_def disabledResult_def example_health_def Service_Ping_def example_engine_def Let_def)

end
