(* ===== verification/RequestContext.thy ===== *)
theory RequestContext
  imports Messages
begin

text \<open>
  The small packages that put values on a request context: \<^verbatim>\<open>internal/requestid\<close>,
  \<^verbatim>\<open>internal/idempotency/context.go\<close> and \<^verbatim>\<open>internal/environment\<close>. Which request identifiers are accepted
  from a caller, and that a generated one is of that kind.
\<close>

section \<open>Context values\<close>

definition WithRequestID :: "string \<Rightarrow> Ctx \<Rightarrow> Ctx" where
  "WithRequestID i ctx = ctx\<lparr>cx_request_id := Some i\<rparr>"

definition RequestIDFromContext :: "Ctx \<Rightarrow> string \<times> bool" where
  "RequestIDFromContext ctx =
     (case cx_request_id ctx of None \<Rightarrow> ([], False) | Some i \<Rightarrow> (i, i \<noteq> []))"

definition WithEnvironment :: "string \<Rightarrow> Ctx \<Rightarrow> Ctx" where
  "WithEnvironment profile ctx = ctx\<lparr>cx_environment := Some profile\<rparr>"

text \<open>The idempotency functions forward to the platform library, whose key predicate is a parameter.\<close>

definition WithIdempotencyKey :: "string \<Rightarrow> Ctx \<Rightarrow> Ctx" where
  "WithIdempotencyKey k ctx = ctx\<lparr>cx_idempotency := Some k\<rparr>"

section \<open>Request identifiers\<close>

text \<open>
  The source ranges over runes. Only ASCII characters are allowed, a byte below 0x80 is its own rune,
  and every other byte belongs to a rune of at least 0x80, so looking at the bytes decides the same.
\<close>

definition allowedCharacter :: "char \<Rightarrow> bool" where
  "allowedCharacter c \<longleftrightarrow> alnum c \<or> c \<in> set ''-_.''"

definition ValidRequestID :: "string \<Rightarrow> bool" where
  "ValidRequestID v \<longleftrightarrow> (if v = [] \<or> length v > 128 then False else list_all allowedCharacter v)"

text \<open>
  \<^verbatim>\<open>rand.Read\<close> on a buffer of 16 bytes gives an error or writes every byte; \<^verbatim>\<open>f i\<close> is the byte written at
  \<^verbatim>\<open>i\<close>. The clock gives \<^verbatim>\<open>UnixNano\<close>.
\<close>

definition hexByte :: "8 word \<Rightarrow> string" where
  "hexByte b = [hex_lower (unat b div 16), hex_lower (unat b mod 16)]"

definition EncodeToString :: "8 word list \<Rightarrow> string" where
  "EncodeToString bs = concat (map hexByte bs)"

definition GenerateRequestID ::
    "('w, err, nat \<Rightarrow> 8 word) call \<Rightarrow> ('w \<Rightarrow> int64 \<times> 'w) \<Rightarrow> 'w \<Rightarrow> string \<times> 'w" where
  "GenerateRequestID random clock w =
     (case random w of
        (Inl _, w') \<Rightarrow> (case clock w' of (nanos, w'') \<Rightarrow> (''fallback-'' @ FormatInt (sint nanos), w''))
      | (Inr f, w') \<Rightarrow> (EncodeToString (map f [0..<16]), w'))"

section \<open>Generated identifiers are valid\<close>

lemma length_EncodeToString [simp]: "length (EncodeToString bs) = 2 * length bs"
  by (induction bs) (simp_all add: EncodeToString_def hexByte_def)

lemma hexByte_allowed: "list_all allowedCharacter (hexByte b)"
proof -
  have "unat b < 256" using unsigned_less [of b, where ?'a = nat] by simp
  then show ?thesis by (simp add: hexByte_def allowedCharacter_def hex_lower_alnum)
qed

lemma EncodeToString_allowed: "list_all allowedCharacter (EncodeToString bs)"
  by (induction bs) (simp_all add: EncodeToString_def hexByte_allowed)

lemma length_nat_digits: "n < 10 ^ Suc k \<Longrightarrow> length (nat_digits n) \<le> Suc k"
proof (induction k arbitrary: n)
  case 0
  then show ?case by (simp add: nat_digits.simps [of n])
next
  case (Suc k)
  show ?case
  proof (cases "n < 10")
    case True
    then show ?thesis by (simp add: nat_digits.simps [of n])
  next
    case False
    have "n div 10 < 10 ^ Suc k" using Suc.prems by (simp add: less_mult_imp_div_less mult.commute)
    from Suc.IH [OF this] show ?thesis using False by (simp add: nat_digits.simps [of n])
  qed
qed

lemma digit_allowed: "k < 10 \<Longrightarrow> allowedCharacter (digit k)"
  by (simp add: allowedCharacter_def alnum_def digit_def Let_def)

lemma nat_digits_allowed: "list_all allowedCharacter (nat_digits n)"
  using nat_digits_decimal digit_allowed by (auto simp: list_all_iff)

lemma FormatInt_nanos: "length (FormatInt (sint (n :: int64))) \<le> 20 \<and> list_all allowedCharacter (FormatInt (sint n))"
proof -
  have "sint n < 2 ^ 63" "- (2 ^ 63) \<le> sint n"
    using sint_lt [of n] sint_ge [of n] by simp_all
  then have "nat (sint n) < 10 ^ Suc 18" "nat (- sint n) < 10 ^ Suc 18" by simp_all
  then have "length (nat_digits (nat (sint n))) \<le> 19" "length (nat_digits (nat (- sint n))) \<le> 19"
    using length_nat_digits [of _ 18] by (metis Suc_eq_plus1 numeral_plus_one semiring_norm(5,2,8))+
  moreover have "allowedCharacter (CHR ''-'')" by (simp add: allowedCharacter_def)
  ultimately show ?thesis by (simp add: FormatInt_def nat_digits_allowed)
qed

lemma generated_valid: "ValidRequestID (fst (GenerateRequestID random clock w))"
proof -
  have "length (''fallback-'' @ FormatInt (sint (n :: int64))) \<le> 128" for n
    using FormatInt_nanos [of n] by simp
  moreover have "list_all allowedCharacter ''fallback-''" by (simp add: allowedCharacter_def alnum_def)
  ultimately have "ValidRequestID (''fallback-'' @ FormatInt (sint (n :: int64)))" for n
    using FormatInt_nanos [of n] by (simp add: ValidRequestID_def)
  moreover have "ValidRequestID (EncodeToString (map f [0..<16]))" for f
  proof -
    have "length (EncodeToString (map f [0..<16])) = 32" by simp
    then show ?thesis using EncodeToString_allowed by (auto simp: ValidRequestID_def simp del: length_EncodeToString)
  qed
  ultimately show ?thesis by (simp add: GenerateRequestID_def split: prod.split sum.split)
qed

text \<open>C40: A generated request identifier passes the check that identifiers from callers must pass, on the
  random path as on the fallback without randomness, so logs and responses only ever carry short
  identifiers of harmless characters.\<close>

theorem GenerateRequestID_valid: "ValidRequestID (fst (GenerateRequestID random clock w))"
  by (rule generated_valid)

end
