(* ===== verification/HttpTypes.thy ===== *)
theory HttpTypes
  imports Health RequestContext
begin

text \<open>
  \<^verbatim>\<open>internal/apperror\<close>, \<^verbatim>\<open>internal/transport/http/response.go\<close>, the response bodies of
  \<^verbatim>\<open>search_handler.go\<close>, and the part of gin's request context the HTTP layer uses.
\<close>

section \<open>Application errors\<close>

definition CodeOK :: int where "CodeOK = 0"
definition CodeInvalidArgument :: int where "CodeInvalidArgument = 10001"
definition CodeNotFound :: int where "CodeNotFound = 10004"
definition CodeRequestTimeout :: int where "CodeRequestTimeout = 10008"
definition CodeTooManyRequests :: int where "CodeTooManyRequests = 10029"
definition CodeUnauthorized :: int where "CodeUnauthorized = 20001"
definition CodeForbidden :: int where "CodeForbidden = 20003"
definition CodeConflict :: int where "CodeConflict = 30009"
definition CodeRequestInProgress :: int where "CodeRequestInProgress = 30010"
definition CodeInternal :: int where "CodeInternal = 50000"
definition CodeDependencyUnavailable :: int where "CodeDependencyUnavailable = 50003"

lemmas app_codes = CodeOK_def CodeInvalidArgument_def CodeNotFound_def CodeRequestTimeout_def CodeTooManyRequests_def
  CodeUnauthorized_def CodeForbidden_def CodeConflict_def CodeRequestInProgress_def CodeInternal_def
  CodeDependencyUnavailable_def

definition appInvalid :: "string \<Rightarrow> err option \<Rightarrow> err" where
  "appInvalid message e = AppError CodeInvalidArgument message 400 e"

definition appNotFound :: "string \<Rightarrow> err" where
  "appNotFound message = AppError CodeNotFound message 404 None"

definition appConflict :: "string \<Rightarrow> err option \<Rightarrow> err" where
  "appConflict message e = AppError CodeConflict message 409 e"

definition appRequestInProgress :: err where
  "appRequestInProgress = AppError CodeRequestInProgress ''request is already processing'' 409 None"

definition appUnauthorized :: "string \<Rightarrow> err" where
  "appUnauthorized message = AppError CodeUnauthorized message 401 None"

definition appForbidden :: "string \<Rightarrow> err" where
  "appForbidden message = AppError CodeForbidden message 403 None"

definition appTooManyRequests :: err where
  "appTooManyRequests = AppError CodeTooManyRequests ''too many requests'' 429 None"

definition appRequestTimeout :: err where
  "appRequestTimeout = AppError CodeRequestTimeout ''request timeout'' 504 None"

definition appUnavailable :: "string \<Rightarrow> err option \<Rightarrow> err" where
  "appUnavailable message e = AppError CodeDependencyUnavailable message 503 e"

definition appInternal :: "err option \<Rightarrow> err" where
  "appInternal e = AppError CodeInternal ''internal server error'' 500 e"

lemmas app_errors = appInvalid_def appNotFound_def appConflict_def appRequestInProgress_def appUnauthorized_def
  appForbidden_def appTooManyRequests_def appRequestTimeout_def appUnavailable_def appInternal_def

section \<open>Response bodies\<close>

text \<open>
  The transfer objects. A \<^verbatim>\<open>time.Time\<close> made from a valid timestamp is that timestamp; a nil slice is the
  empty list. None of them has a field for visibility tokens.
\<close>

record SearchDocumentDTO =
  dd_ID :: string
  dd_TenantID :: string
  dd_SourceService :: string
  dd_DocumentType :: string
  dd_SourceID :: string
  dd_ApplicationID :: string
  dd_Title :: string
  dd_Summary :: string
  dd_Content :: string
  dd_URL :: string
  dd_Icon :: string
  dd_Keywords :: "string list"
  dd_Attributes :: "string \<rightharpoonup> string"
  dd_PermissionCode :: string
  dd_SourceVersion :: int64
  dd_SourceCreatedAt :: "Timestamp option"
  dd_SourceUpdatedAt :: "Timestamp option"

record HighlightDTO =
  hd_Field :: string
  hd_Fragments :: "string list"

record SearchHitDTO =
  ht_Document :: SearchDocumentDTO
  ht_Score :: float64
  ht_Highlights :: "HighlightDTO list"

record FacetBucketDTO =
  bd_Value :: string
  bd_Count :: uint64

record FacetDTO =
  fd_Field :: string
  fd_Buckets :: "FacetBucketDTO list"

record SearchPageDTO =
  pd_Items :: "SearchHitDTO list"
  pd_Total :: uint64
  pd_Page :: uint32
  pd_PageSize :: uint32
  pd_Facets :: "FacetDTO list"
  pd_TookMilliseconds :: uint64

record SuggestionDTO =
  ud_Text :: string
  ud_DocumentType :: string
  ud_SourceID :: string
  ud_URL :: string

record SuggestResponseDTO =
  qd_Items :: "SuggestionDTO list"

record BuildInfo =
  bi_Version :: string
  bi_Commit :: string
  bi_BuildTime :: string
  bi_StartedAt :: string
  bi_Uptime :: string

datatype Body =
    NoBody
  | PageBody SearchPageDTO
  | SuggestBody SuggestResponseDTO
  | DocumentBody SearchDocumentDTO
  | StatusBody HealthStatus
  | SubjectBody "string option"
  | VersionBody BuildInfo

record JSONResponse =
  jr_Code :: int
  jr_Message :: string
  jr_Body :: Body
  jr_RequestID :: string

section \<open>The request context of gin\<close>

text \<open>
  What is written to the client: a status with a JSON document, or a bare status, or what a library
  handler wrote. Writes append, so a second response to one request would show.
\<close>

datatype written = JSONWritten int JSONResponse | StatusWritten int | LibraryWritten int

primrec written_status :: "written \<Rightarrow> int" where
  "written_status (JSONWritten n _) = n"
| "written_status (StatusWritten n) = n"
| "written_status (LibraryWritten n) = n"

text \<open>
  \<^verbatim>\<open>gn_header\<close> is \<^verbatim>\<open>GetHeader\<close> of the request, with the empty string for a missing header;
  \<^verbatim>\<open>gn_fullpath\<close> is the pattern of the matched route, empty if none matched.
\<close>

record Gin =
  gn_method :: string
  gn_fullpath :: string
  gn_header :: "string \<Rightarrow> string"
  gn_clientip :: string
  gn_length :: int64
  gn_tls :: bool
  gn_body :: string
  gn_limit :: "int option"
  gn_ctx :: Ctx
  gn_keys :: "string \<rightharpoonup> string"
  gn_reply_headers :: "string \<rightharpoonup> string"
  gn_written :: "written list"

text \<open>A handler runs to its end, or panics with what it had done to the context until then.\<close>

type_synonym 'w HandlerFunc = "Gin \<Rightarrow> 'w \<Rightarrow> (Gin \<times> string option) \<times> 'w"
type_synonym 'w Middleware = "'w HandlerFunc \<Rightarrow> 'w HandlerFunc"

definition finish :: "'w HandlerFunc" where
  "finish c w = ((c, None), w)"

text \<open>\<^verbatim>\<open>c.Header\<close>: an empty value deletes the header.\<close>

definition Header :: "string \<Rightarrow> string \<Rightarrow> Gin \<Rightarrow> Gin" where
  "Header k v c = c\<lparr>gn_reply_headers := (gn_reply_headers c)(k := if v = [] then None else Some v)\<rparr>"

definition SetKey :: "string \<Rightarrow> string \<Rightarrow> Gin \<Rightarrow> Gin" where
  "SetKey k v c = c\<lparr>gn_keys := (gn_keys c)(k \<mapsto> v)\<rparr>"

definition WithCtx :: "(Ctx \<Rightarrow> Ctx) \<Rightarrow> Gin \<Rightarrow> Gin" where
  "WithCtx f c = c\<lparr>gn_ctx := f (gn_ctx c)\<rparr>"

definition Write :: "written \<Rightarrow> Gin \<Rightarrow> Gin" where
  "Write r c = c\<lparr>gn_written := gn_written c @ [r]\<rparr>"

definition requestID :: "Gin \<Rightarrow> string" where
  "requestID c = (case gn_keys c ''request_id'' of None \<Rightarrow> [] | Some i \<Rightarrow> i)"

text \<open>\<^verbatim>\<open>AbortWithStatusJSON\<close> with a response, and \<^verbatim>\<open>AbortWithStatus\<close>. Not calling the rest of the chain is
  the abort.\<close>

definition RespondJSON :: "int \<Rightarrow> int \<Rightarrow> string \<Rightarrow> Body \<Rightarrow> Gin \<Rightarrow> Gin" where
  "RespondJSON status code message body c =
     Write (JSONWritten status \<lparr>jr_Code = code, jr_Message = message, jr_Body = body, jr_RequestID = requestID c\<rparr>) c"

definition OKResponse :: "Body \<Rightarrow> Gin \<Rightarrow> Gin" where
  "OKResponse body c = RespondJSON 200 CodeOK ''success'' body c"

definition FailResponse :: "err \<Rightarrow> Gin \<Rightarrow> Gin" where
  "FailResponse e c =
     (let appErr = (case as_app_error e of None \<Rightarrow> as_app_error (appInternal (Some e)) | Some a \<Rightarrow> Some a) in
      case the appErr of (code, message, status, _) \<Rightarrow> RespondJSON status code message NoBody c)"

lemma FailResponse_app [simp]:
  "FailResponse (AppError code message status e) c = RespondJSON status code message NoBody c"
  by (simp add: FailResponse_def)

lemma FailResponse_plain: "as_app_error e = None \<Longrightarrow>
    FailResponse e c = RespondJSON 500 CodeInternal ''internal server error'' NoBody c"
  by (simp add: FailResponse_def appInternal_def)

lemma gin_fields [simp]:
  "gn_written (Header k v c) = gn_written c" "gn_written (SetKey k v c) = gn_written c"
  "gn_written (WithCtx f c) = gn_written c" "gn_ctx (Header k v c) = gn_ctx c" "gn_ctx (SetKey k v c) = gn_ctx c"
  "gn_ctx (WithCtx f c) = f (gn_ctx c)" "gn_header (Header k v c) = gn_header c" "gn_header (SetKey k v c) = gn_header c"
  "gn_header (WithCtx f c) = gn_header c" "gn_fullpath (Header k v c) = gn_fullpath c"
  "gn_fullpath (SetKey k v c) = gn_fullpath c" "gn_fullpath (WithCtx f c) = gn_fullpath c"
  "gn_keys (Header k v c) = gn_keys c" "gn_keys (WithCtx f c) = gn_keys c" "gn_keys (SetKey k v c) = (gn_keys c)(k \<mapsto> v)"
  "gn_method (Header k v c) = gn_method c" "gn_method (SetKey k v c) = gn_method c" "gn_method (WithCtx f c) = gn_method c"
  by (simp_all add: Header_def SetKey_def WithCtx_def)

lemma RespondJSON_fields [simp]:
  "gn_written (RespondJSON status code message body c) = gn_written c @
     [JSONWritten status \<lparr>jr_Code = code, jr_Message = message, jr_Body = body, jr_RequestID = requestID c\<rparr>]"
  "gn_reply_headers (RespondJSON status code message body c) = gn_reply_headers c"
  "gn_keys (RespondJSON status code message body c) = gn_keys c"
  by (simp_all add: RespondJSON_def Write_def)

lemma FailResponse_writes: "\<exists>n r. gn_written (FailResponse e c) = gn_written c @ [JSONWritten n r]"
  by (auto simp: FailResponse_def Let_def split: prod.split)

end
