(* ===== verification/PathMatch.thy ===== *)
theory PathMatch
  imports GoErrors
begin

text \<open>
  Go's \<^verbatim>\<open>path.Match\<close>, on which every list of exempted or PSK-protected routes rests
  (\<^verbatim>\<open>internal/auth/pattern.go\<close>), with the UTF-8 decoding it uses. A bad pattern is \<^const>\<open>None\<close>.
\<close>

section \<open>utf8.DecodeRuneInString\<close>

definition byte_in :: "nat \<Rightarrow> nat \<Rightarrow> char \<Rightarrow> bool" where
  "byte_in lo hi c \<longleftrightarrow> lo \<le> (of_char c :: nat) \<and> (of_char c :: nat) \<le> hi"

text \<open>The code point and the number of bytes; an invalid encoding gives U+FFFD and one byte.\<close>

fun DecodeRune :: "string \<Rightarrow> nat \<times> nat" where
  "DecodeRune [] = (65533, 0)"
| "DecodeRune (a # s) =
     (let x = (of_char a :: nat) in
      if x < 128 then (x, 1)
      else if 194 \<le> x \<and> x \<le> 223 then
        (case s of
           b # _ \<Rightarrow> if byte_in 128 191 b then ((x - 192) * 64 + (of_char b - 128), 2) else (65533, 1)
         | _ \<Rightarrow> (65533, 1))
      else if 224 \<le> x \<and> x \<le> 239 then
        (case s of
           b # c # _ \<Rightarrow>
             if byte_in (if x = 224 then 160 else 128) (if x = 237 then 159 else 191) b \<and> byte_in 128 191 c
             then ((x - 224) * 4096 + (of_char b - 128) * 64 + (of_char c - 128), 3) else (65533, 1)
         | _ \<Rightarrow> (65533, 1))
      else if 240 \<le> x \<and> x \<le> 244 then
        (case s of
           b # c # d # _ \<Rightarrow>
             if byte_in (if x = 240 then 144 else 128) (if x = 244 then 143 else 191) b
               \<and> byte_in 128 191 c \<and> byte_in 128 191 d
             then ((x - 240) * 262144 + (of_char b - 128) * 4096 + (of_char c - 128) * 64 + (of_char d - 128), 4)
             else (65533, 1)
         | _ \<Rightarrow> (65533, 1))
      else (65533, 1))"

lemma DecodeRune_width: "s \<noteq> [] \<Longrightarrow> 0 < snd (DecodeRune s)"
  by (cases s) (simp_all add: Let_def split: list.split)

lemma DecodeRune_ascii [simp]: "(of_char a :: nat) < 128 \<Longrightarrow> DecodeRune (a # s) = (of_char a, 1)"
  by (simp add: Let_def)

declare DecodeRune.simps(2) [simp del]

section \<open>Character classes\<close>

definition decodeEsc :: "string \<Rightarrow> (nat \<times> string) option" where
  "decodeEsc body =
     (if body = [] then None
      else if fst (DecodeRune body) = 65533 \<and> snd (DecodeRune body) = 1 then None
      else if drop (snd (DecodeRune body)) body = [] then None
      else Some (fst (DecodeRune body), drop (snd (DecodeRune body)) body))"

definition getEsc :: "string \<Rightarrow> (nat \<times> string) option" where
  "getEsc chunk =
     (case chunk of
        [] \<Rightarrow> None
      | c # cs \<Rightarrow>
          if c = CHR ''-'' \<or> c = CHR '']'' then None
          else decodeEsc (if c = CHR 0x5C then cs else chunk))"

lemma decodeEsc_shorter: "decodeEsc body = Some (r, rest) \<Longrightarrow> length rest < length body \<and> rest \<noteq> []"
  using DecodeRune_width [of body] by (auto simp: decodeEsc_def split: if_splits)

lemma getEsc_shorter: "getEsc chunk = Some (r, rest) \<Longrightarrow> length rest < length chunk"
  by (cases chunk) (auto simp: getEsc_def dest: decodeEsc_shorter split: if_splits)

lemma getEsc_more: "getEsc chunk = Some (r, rest) \<Longrightarrow> rest \<noteq> []"
  by (cases chunk) (auto simp: getEsc_def dest: decodeEsc_shorter split: if_splits)

text \<open>
  The ranges of a class, for the decoded rune \<^verbatim>\<open>r\<close>: whether one contains it, and what follows the
  closing bracket. \<^verbatim>\<open>started\<close> is \<^verbatim>\<open>nrange > 0\<close>.
\<close>

function matchRanges :: "string \<Rightarrow> nat \<Rightarrow> bool \<Rightarrow> bool \<Rightarrow> (bool \<times> string) option" where
  "matchRanges chunk r found started =
     (if chunk \<noteq> [] \<and> hd chunk = CHR '']'' \<and> started then Some (found, tl chunk)
      else case getEsc chunk of
          None \<Rightarrow> None
        | Some (lo, c1) \<Rightarrow>
            if hd c1 = CHR ''-''
            then (case getEsc (tl c1) of
                None \<Rightarrow> None
              | Some (hi, c2) \<Rightarrow> matchRanges c2 r (found \<or> lo \<le> r \<and> r \<le> hi) True)
            else matchRanges c1 r (found \<or> r = lo) True)"
  by pat_completeness auto
termination
proof (relation "measure (\<lambda>(chunk, _). length chunk)", goal_cases)
  case (2 chunk r found started x lo c1 y hi c2)
  then have "length c1 < length chunk" "length c2 < length (tl c1)"
    by (auto dest: getEsc_shorter)
  then show ?case by simp
next
  case (3 chunk r found started x lo c1)
  then show ?case by (auto dest: getEsc_shorter)
qed simp

declare matchRanges.simps [simp del]

lemma matchRanges_close:
  "chunk \<noteq> [] \<and> hd chunk = CHR '']'' \<and> started \<Longrightarrow> matchRanges chunk r found started = Some (found, tl chunk)"
  by (simp add: matchRanges.simps [of chunk])

lemma matchRanges_open:
  "\<not> (chunk \<noteq> [] \<and> hd chunk = CHR '']'' \<and> started) \<Longrightarrow>
     matchRanges chunk r found started =
       (case getEsc chunk of
          None \<Rightarrow> None
        | Some (lo, c1) \<Rightarrow>
            if hd c1 = CHR ''-''
            then (case getEsc (tl c1) of
                None \<Rightarrow> None
              | Some (hi, c2) \<Rightarrow> matchRanges c2 r (found \<or> lo \<le> r \<and> r \<le> hi) True)
            else matchRanges c1 r (found \<or> r = lo) True)"
  by (subst matchRanges.simps) (simp only: if_False)

text \<open>
  Whether the ranges are well-formed, and what follows them, does not depend on the rune, and
  something was read.
\<close>

lemma matchRanges_syntax:
  "map_option snd (matchRanges chunk r found started) = map_option snd (matchRanges chunk r' found' started)
   \<and> (\<forall>m rest. matchRanges chunk r found started = Some (m, rest) \<longrightarrow> length rest < length chunk)"
proof (induction chunk r found started arbitrary: found' rule: matchRanges.induct)
  case (1 chunk r found started)
  show ?case
  proof (cases "chunk \<noteq> [] \<and> hd chunk = CHR '']'' \<and> started")
    case True
    have step: "matchRanges chunk s f started = Some (f, tl chunk)" for s f
      by (rule matchRanges_close [OF True])
    show ?thesis unfolding step using True by auto
  next
    case False
    show ?thesis
    proof (cases "getEsc chunk")
      case None
      then show ?thesis by (simp add: matchRanges_open [OF False])
    next
      case (Some p)
      obtain lo c1 where p: "p = (lo, c1)" by (cases p)
      note less1 = getEsc_shorter [OF Some [unfolded p]]
      show ?thesis
      proof (cases "hd c1 = CHR ''-''")
        case dash: True
        show ?thesis
        proof (cases "getEsc (tl c1)")
          case None
          then show ?thesis using Some p dash by (simp add: matchRanges_open [OF False])
        next
          case esc2: (Some q)
          obtain hi c2 where q: "q = (hi, c2)" by (cases q)
          note less2 = getEsc_shorter [OF esc2 [unfolded q]]
          have step: "matchRanges chunk s f started = matchRanges c2 s (f \<or> lo \<le> s \<and> s \<le> hi) True" for s f
            using Some p dash esc2 q by (simp add: matchRanges_open [OF False])
          show ?thesis
            using "1.IH"(1) [OF False Some p [symmetric] dash esc2 q [symmetric]] less1 less2
            unfolding step by fastforce
        qed
      next
        case no: False
        have step: "matchRanges chunk s f started = matchRanges c1 s (f \<or> s = lo) True" for s f
          using Some p no by (simp add: matchRanges_open [OF False])
        show ?thesis
          using "1.IH"(2) [OF False Some p [symmetric] no] less1 unfolding step by fastforce
      qed
    qed
  qed
qed

lemma matchRanges_shorter:
  "matchRanges chunk r found started = Some (m, rest) \<Longrightarrow> length rest < length chunk"
  using matchRanges_syntax [of chunk r found started r found] by blast

section \<open>Chunks\<close>

text \<open>
  \<^verbatim>\<open>matchChunk\<close>: the rest of the string and whether the chunk matched its beginning. Once
  \<^verbatim>\<open>failed\<close> is set the loop goes on only to check the syntax.
\<close>

function matchChunk :: "string \<Rightarrow> string \<Rightarrow> bool \<Rightarrow> (string \<times> bool) option" where
  "matchChunk [] s failed = Some (if failed then ([], False) else (s, True))"
| "matchChunk (c # cs) s failed0 =
     (let failed = (failed0 \<or> s = []) in
      if c = CHR ''['' then
        (let (r, n) = (if failed then (0, 0) else DecodeRune s);
             negated = (cs \<noteq> [] \<and> hd cs = CHR ''^'');
             body = (if negated then tl cs else cs)
         in case matchRanges body r False False of
              None \<Rightarrow> None
            | Some (found, rest) \<Rightarrow> matchChunk rest (drop n s) (failed \<or> found = negated))
      else if c = CHR ''?'' then
        (if failed then matchChunk cs s True
         else matchChunk cs (drop (snd (DecodeRune s)) s) (hd s = CHR ''/''))
      else if c = CHR 0x5C then
        (case cs of
           [] \<Rightarrow> None
         | d # ds \<Rightarrow> if failed then matchChunk ds s True else matchChunk ds (tl s) (hd s \<noteq> d))
      else if failed then matchChunk cs s True else matchChunk cs (tl s) (hd s \<noteq> c))"
  by pat_completeness auto
termination
proof (relation "measure (\<lambda>(chunk, _). length chunk)", goal_cases)
  case (2 c cs s failed0 failed x r n negated body y found rest)
  then have "length rest < length body" by (auto dest: matchRanges_shorter)
  moreover have "length body \<le> length cs" using 2 by auto
  ultimately show ?case by simp
qed auto

declare matchChunk.simps(2) [simp del]

section \<open>Patterns\<close>

text \<open>\<^verbatim>\<open>scanChunk\<close>: the characters up to the next star outside a class, and the rest.\<close>

fun scan :: "string \<Rightarrow> bool \<Rightarrow> string \<times> string" where
  "scan [] inrange = ([], [])"
| "scan (c # cs) inrange =
     (if c = CHR 0x5C then
        (case cs of
           [] \<Rightarrow> ([c], [])
         | d # ds \<Rightarrow> (case scan ds inrange of (a, b) \<Rightarrow> (c # d # a, b)))
      else if c = CHR ''*'' \<and> \<not> inrange then ([], c # cs)
      else (case scan cs (if c = CHR ''['' then True else if c = CHR '']'' then False else inrange) of
          (a, b) \<Rightarrow> (c # a, b)))"

fun strip_stars :: "string \<Rightarrow> string" where
  "strip_stars [] = []"
| "strip_stars (c # cs) = (if c = CHR ''*'' then strip_stars cs else c # cs)"

definition scanChunk :: "string \<Rightarrow> bool \<times> string \<times> string" where
  "scanChunk pattern = (pattern \<noteq> [] \<and> hd pattern = CHR ''*'', scan (strip_stars pattern) False)"

lemma scan_step:
  "scan (c # cs) inrange =
     (if c = CHR 0x5C then
        (if cs = [] then ([c], [])
         else (c # hd cs # fst (scan (tl cs) inrange), snd (scan (tl cs) inrange)))
      else if c = CHR ''*'' \<and> \<not> inrange then ([], c # cs)
      else (let r = scan cs (if c = CHR ''['' then True else if c = CHR '']'' then False else inrange)
        in (c # fst r, snd r)))"
  by (simp add: case_prod_beta Let_def split: list.split)

declare scan.simps(2) [simp del]

lemma scan_append: "fst (scan s inrange) @ snd (scan s inrange) = s"
proof (induction s inrange rule: scan.induct)
  case (2 c cs inrange)
  show ?case
  proof (cases "c = CHR 0x5C")
    case True
    then show ?thesis using 2(1) by (cases cs) (simp_all add: scan_step)
  next
    case False
    then show ?thesis using 2(2) by (simp add: scan_step [of c] Let_def)
  qed
qed simp

lemma scan_split: "scan s inrange = (a, b) \<Longrightarrow> s = a @ b"
  using scan_append [of s inrange] by simp

lemma scan_progress: "s \<noteq> [] \<Longrightarrow> hd s \<noteq> CHR ''*'' \<Longrightarrow> scan s False = (a, b) \<Longrightarrow> a \<noteq> []"
  by (cases s) (auto simp: scan_step Let_def split: if_splits)

lemma strip_stars_length: "length (strip_stars s) \<le> length s"
  by (induction s) auto

lemma strip_stars_hd: "strip_stars s \<noteq> [] \<Longrightarrow> hd (strip_stars s) \<noteq> CHR ''*''"
  by (induction s) auto

lemma scanChunk_shorter:
  assumes "scanChunk p = (star, chunk, rest)" and "p \<noteq> []"
  shows "length rest < length p"
proof -
  have sc: "scan (strip_stars p) False = (chunk, rest)" using assms(1) by (simp add: scanChunk_def)
  then have len: "length (strip_stars p) = length chunk + length rest" by (auto dest: scan_split)
  show ?thesis
  proof (cases "strip_stars p = []")
    case True
    then show ?thesis using len assms(2) by simp
  next
    case False
    then have "chunk \<noteq> []" using scan_progress [OF False strip_stars_hd [OF False] sc] by simp
    then show ?thesis using len strip_stars_length [of p] by (cases chunk) simp_all
  qed
qed

text \<open>The skipping loop after a star: a bad pattern, no match, or the rest after the match.\<close>

datatype skip = Bad | NoMatch | Rest string

fun skipTo :: "string \<Rightarrow> string \<Rightarrow> bool \<Rightarrow> skip" where
  "skipTo chunk [] atend = NoMatch"
| "skipTo chunk (x # xs) atend =
     (if x = CHR ''/'' then NoMatch
      else case matchChunk chunk xs False of
          None \<Rightarrow> Bad
        | Some (t, ok) \<Rightarrow> if ok \<and> \<not> (atend \<and> t \<noteq> []) then Rest t else skipTo chunk xs atend)"

text \<open>Before it answers no, \<^verbatim>\<open>Match\<close> checks the syntax of what remains of the pattern.\<close>

function checkRest :: "string \<Rightarrow> bool option" where
  "checkRest pattern =
     (if pattern = [] then Some False
      else case scanChunk pattern of (star, chunk, rest) \<Rightarrow>
        (case matchChunk chunk [] False of
           None \<Rightarrow> None
         | Some _ \<Rightarrow> checkRest rest))"
  by pat_completeness auto
termination
  by (relation "measure length") (auto intro: scanChunk_shorter [OF sym])

declare checkRest.simps [simp del]

function Match :: "string \<Rightarrow> string \<Rightarrow> bool option" where
  "Match pattern name =
     (if pattern = [] then Some (name = [])
      else case scanChunk pattern of (star, chunk, rest) \<Rightarrow>
        if star \<and> chunk = [] then Some (CHR ''/'' \<notin> set name)
        else case matchChunk chunk name False of
            None \<Rightarrow> None
          | Some (t, ok) \<Rightarrow>
              if ok \<and> (t = [] \<or> rest \<noteq> []) then Match rest t
              else if star then
                (case skipTo chunk name (rest = []) of
                   Bad \<Rightarrow> None
                 | Rest t' \<Rightarrow> Match rest t'
                 | NoMatch \<Rightarrow> checkRest rest)
              else checkRest rest)"
  by pat_completeness auto
termination
  by (relation "measure (\<lambda>(p, _). length p)") (auto intro: scanChunk_shorter [OF sym])

declare Match.simps [simp del]

section \<open>A pattern is bad for every name or for none\<close>

lemma map_option_snd_Some: "map_option snd x = Some r \<Longrightarrow> \<exists>f. x = Some (f, r)"
  by (cases x) auto

lemma matchChunk_class:
  "matchChunk (CHR ''['' # cs) s failed =
     (case matchRanges (if cs \<noteq> [] \<and> hd cs = CHR ''^'' then tl cs else cs)
             (fst (if failed \<or> s = [] then (0, 0) else DecodeRune s)) False False of
        None \<Rightarrow> None
      | Some (found, rest) \<Rightarrow>
          matchChunk rest (drop (snd (if failed \<or> s = [] then (0, 0) else DecodeRune s)) s)
            ((failed \<or> s = []) \<or> found = (cs \<noteq> [] \<and> hd cs = CHR ''^'')))"
  by (subst matchChunk.simps(2)) (simp only: Let_def case_prod_beta if_True simp_thms)

lemma matchChunk_syntax: "matchChunk chunk s failed = None \<longleftrightarrow> matchChunk chunk s' failed' = None"
proof (induction chunk arbitrary: s failed s' failed' rule: measure_induct_rule [of length])
  case (less chunk)
  show ?case
  proof (cases chunk)
    case (Cons c cs)
    show ?thesis
    proof (cases "c = CHR ''[''")
      case True
      define body where "body = (if cs \<noteq> [] \<and> hd cs = CHR ''^'' then tl cs else cs)"
      have short: "length body \<le> length cs" by (simp add: body_def)
      have none: "matchChunk chunk t f = None"
        if "map_option snd (matchRanges body r False False) = None" for t f r
      proof -
        have "matchRanges body q False False = None" for q
          using that matchRanges_syntax [of body r False False q False] by simp
        then show ?thesis by (simp add: Cons True matchChunk_class body_def)
      qed
      have some: "matchChunk chunk t f = None \<longleftrightarrow> matchChunk rest [] False = None"
        if "map_option snd (matchRanges body r False False) = Some rest" for t f r rest
      proof -
        let ?q = "fst (if f \<or> t = [] then (0, 0) else DecodeRune t)"
        have "map_option snd (matchRanges body ?q False False) = Some rest"
          using that matchRanges_syntax [of body r False False ?q False] by simp
        from map_option_snd_Some [OF this] obtain found
          where f: "matchRanges body ?q False False = Some (found, rest)" by blast
        from matchRanges_shorter [OF f] have "length rest < length chunk" using short Cons by simp
        from less.IH [OF this] show ?thesis
          using f unfolding Cons True matchChunk_class body_def [symmetric] by simp
      qed
      show ?thesis
        by (cases "map_option snd (matchRanges body 0 False False)") (simp_all add: none some)
    next
      case False
      define N where "N = (matchChunk cs [] False = None)"
      have cs: "matchChunk cs t f = None \<longleftrightarrow> N" for t f
        unfolding N_def using less.IH [of cs] Cons by simp
      show ?thesis
      proof (cases cs)
        case Nil
        have "Ex Not" by (rule exI [of _ False]) simp
        with Nil show ?thesis using False by (simp add: Cons matchChunk.simps(2) [of c] Let_def)
      next
        case ds: (Cons d ds)
        define M where "M = (matchChunk ds [] False = None)"
        have "matchChunk ds t f = None \<longleftrightarrow> M" for t f
          unfolding M_def using less.IH [of ds] Cons ds by simp
        then show ?thesis using False cs unfolding Cons
          by (simp add: matchChunk.simps(2) [of c "d # ds"] Let_def ds)
      qed
    qed
  qed simp
qed

lemma skipTo_Bad: "skipTo chunk name atend = Bad \<Longrightarrow> matchChunk chunk s f = None"
proof (induction name)
  case (Cons x xs)
  then show ?case
    using matchChunk_syntax [of chunk xs False s f] by (auto split: if_splits option.splits)
qed simp

lemma Match_bad: "Match pattern name = None \<longleftrightarrow> checkRest pattern = None"
proof (induction pattern name rule: Match.induct)
  case (1 pattern name)
  show ?case
  proof (cases "pattern = []")
    case True
    then show ?thesis by (simp add: Match.simps checkRest.simps)
  next
    case False
    obtain star chunk rest where sc: "scanChunk pattern = (star, chunk, rest)" by (cases "scanChunk pattern")
    have check: "checkRest pattern = (case matchChunk chunk [] False of None \<Rightarrow> None | Some _ \<Rightarrow> checkRest rest)"
      by (subst checkRest.simps) (simp add: False sc)
    show ?thesis
    proof (cases "star \<and> chunk = []")
      case True
      have "strip_stars pattern = []"
      proof (rule ccontr)
        assume ne: "strip_stars pattern \<noteq> []"
        from sc True have "scan (strip_stars pattern) False = ([], rest)" by (simp add: scanChunk_def)
        from scan_progress [OF ne strip_stars_hd [OF ne] this] show False by simp
      qed
      then have "rest = []" using sc by (auto simp: scanChunk_def)
      then show ?thesis using True False sc check
        by (subst Match.simps) (simp add: checkRest.simps)
    next
      case no: False
      show ?thesis
      proof (cases "matchChunk chunk name False")
        case None
        then have "matchChunk chunk [] False = None" using matchChunk_syntax by blast
        then show ?thesis using None no False sc check by (subst Match.simps) simp
      next
        case (Some p)
        obtain t ok where p: "p = (t, ok)" by (cases p)
        have "matchChunk chunk [] False \<noteq> None" using Some matchChunk_syntax [of chunk name False "[]" False] by simp
        then have check': "checkRest pattern = checkRest rest" using check by auto
        have nb: "skipTo chunk name (rest = []) \<noteq> Bad"
          using skipTo_Bad [of chunk name "rest = []" name False] Some by auto
        show ?thesis
          using "1.IH" [OF False sc [symmetric] refl no Some p [symmetric]] nb Some p no False sc check'
          by (subst Match.simps) (auto split: skip.split)
      qed
    qed
  qed
qed

text \<open>Whether \<^verbatim>\<open>path.Match\<close> calls a pattern bad does not depend on the string it is matched
  against. A pattern that start-up validation accepted by matching it against one fixed string can
  therefore not fail, and be skipped without notice, when requests are matched against it.\<close>

theorem Match_bad_pattern: "Match pattern name = None \<longleftrightarrow> Match pattern name' = None"
  by (simp add: Match_bad)

section \<open>Plain patterns\<close>

definition plain :: "string \<Rightarrow> bool" where
  "plain p \<longleftrightarrow> list_all (\<lambda>c. c \<notin> {CHR ''*'', CHR ''?'', CHR ''['', CHR 0x5C}) p"

lemma matchChunk_failed_plain: "plain p \<Longrightarrow> matchChunk p s True = Some ([], False)"
proof (induction p arbitrary: s)
  case (Cons c cs)
  then show ?case by (simp add: matchChunk.simps(2) [of c] plain_def)
qed simp

lemma matchChunk_plain:
  "plain p \<Longrightarrow> matchChunk p s False = Some (if prefix p s then (drop (length p) s, True) else ([], False))"
proof (induction p arbitrary: s)
  case (Cons c cs)
  then have plain: "plain cs" "c \<noteq> CHR ''*''" "c \<noteq> CHR ''?''" "c \<noteq> CHR ''[''" "c \<noteq> CHR 0x5C"
    by (simp_all add: plain_def)
  show ?case
  proof (cases s)
    case Nil
    then show ?thesis using plain by (simp add: matchChunk.simps(2) [of c] matchChunk_failed_plain)
  next
    case (Cons d ds)
    then show ?thesis using plain Cons.IH [OF plain(1)]
      by (cases "d = c") (simp_all add: matchChunk.simps(2) [of c] matchChunk_failed_plain)
  qed
qed simp

lemma scan_plain:
  "plain p \<Longrightarrow> scan (p @ rest) False = (p @ fst (scan rest False), snd (scan rest False))"
proof (induction p)
  case (Cons c cs)
  then have "plain cs" "c \<noteq> CHR ''*''" "c \<noteq> CHR ''[''" "c \<noteq> CHR 0x5C" by (simp_all add: plain_def)
  then show ?case using Cons.IH by (simp add: scan_step [of c] Let_def)
qed simp

lemma strip_stars_plain: "plain p \<Longrightarrow> p \<noteq> [] \<Longrightarrow> strip_stars (p @ rest) = p @ rest"
  by (cases p) (auto simp: plain_def)

lemma plain_hd: "plain p \<Longrightarrow> p \<noteq> [] \<Longrightarrow> hd (p @ rest) \<noteq> CHR ''*''"
  by (cases p) (auto simp: plain_def)

lemma scanChunk_plain:
  "plain p \<Longrightarrow> p \<noteq> [] \<Longrightarrow> scanChunk (p @ rest) = (False, p @ fst (scan rest False), snd (scan rest False))"
  using plain_hd [of p rest] strip_stars_plain [of p rest] scan_plain [of p rest]
  by (simp add: scanChunk_def)

lemma Match_plain:
  assumes "plain p"
  shows "Match p name = Some (name = p)"
proof (cases "p = []")
  case False
  have sc: "scanChunk p = (False, p, [])" using scanChunk_plain [OF assms False, of "[]"] by simp
  have empty: "Match [] t = Some (t = [])" "checkRest [] = Some False" for t
    by (simp_all add: Match.simps [of "[]"] checkRest.simps [of "[]"])
  have "prefix p name \<and> drop (length p) name = [] \<longleftrightarrow> name = p" by (auto simp: prefix_def)
  then show ?thesis
    by (subst Match.simps) (auto simp: False sc matchChunk_plain [OF assms] empty)
qed (simp add: Match.simps)

lemma Match_star: "Match ''*'' name = Some (CHR ''/'' \<notin> set name)"
  by (subst Match.simps) (simp add: scanChunk_def)

text \<open>A plain pattern followed by a star: the prefix, then anything without a slash.\<close>

lemma Match_plain_star:
  assumes "plain p" and "p \<noteq> []"
  shows "Match (p @ ''*'') name = Some (prefix p name \<and> CHR ''/'' \<notin> set (drop (length p) name))"
proof -
  have sc: "scanChunk (p @ ''*'') = (False, p, ''*'')"
    using scanChunk_plain [OF assms, of "''*''"] by (simp add: scan_step)
  have check: "checkRest ''*'' = Some False"
    by (subst checkRest.simps) (simp add: scanChunk_def checkRest.simps [of "[]"])
  show ?thesis
    by (subst Match.simps) (simp add: sc matchChunk_plain [OF assms(1)] Match_star check assms(2))
qed

end
