(* ===== verification/Config.thy ===== *)
theory Config
  imports PathMatch
begin

text \<open>
  \<^verbatim>\<open>internal/config/config.go\<close>: the configuration structs, the defaults, the selection of the
  profile file, and validation. viper's reading and merging of files and environment variables is
  a parameter of \<^verbatim>\<open>LoadWithProfile\<close>. Durations are nanoseconds. A Go map is an association list, in
  the order in which one run iterates over it.
\<close>

section \<open>The structs\<close>

type_synonym Duration = int

record Runtime =
  rt_ActiveProfile :: string
  rt_ConfigFiles :: "string list"

record App =
  app_Name :: string
  app_Schema :: string
  app_Env :: string
  app_ShutdownTimeout :: Duration

record CORS =
  cors_Enabled :: bool
  cors_AllowedOrigins :: "string list"
  cors_AllowedHeaders :: "string list"
  cors_ExposedHeaders :: "string list"
  cors_MaxAge :: Duration

record HTTP =
  http_Address :: string
  http_ReadTimeout :: Duration
  http_WriteTimeout :: Duration
  http_IdleTimeout :: Duration
  http_RequestTimeout :: Duration
  http_MaxBodyBytes :: int
  http_TrustedProxies :: "string list"
  http_CORS :: CORS

record GRPCTLS =
  grpctls_Enabled :: bool
  grpctls_CertFile :: string
  grpctls_KeyFile :: string
  grpctls_ClientCAFile :: string

record GRPC =
  grpc_Enabled :: bool
  grpc_Address :: string
  grpc_ReflectionEnabled :: bool
  grpc_MaxReceiveBytes :: int
  grpc_TLS :: GRPCTLS

record Log =
  log_Level :: string
  log_Format :: string
  log_File :: string
  log_MaxSizeMB :: int
  log_MaxBackups :: int
  log_MaxAgeDays :: int
  log_Compress :: bool

record Database =
  db_Enabled :: bool
  db_Name :: string
  db_Schema :: string
  db_Type :: string
  db_DSN :: string
  db_MaxOpenConns :: int
  db_MaxIdleConns :: int
  db_ConnMaxLifetime :: Duration
  db_ConnMaxIdleTime :: Duration
  db_PingTimeout :: Duration

record Redis =
  redis_Enabled :: bool
  redis_Address :: string
  redis_Username :: string
  redis_Password :: string
  redis_DB :: int
  redis_DialTimeout :: Duration
  redis_ReadTimeout :: Duration
  redis_WriteTimeout :: Duration

record Health =
  health_DatabaseTimeout :: Duration
  health_RedisTimeout :: Duration
  health_OpenSearchTimeout :: Duration

record RateLimitRule =
  rule_Rate :: int
  rule_Burst :: int
  rule_Period :: Duration

record RateLimit =
  rl_Enabled :: bool
  rl_FailOpen :: bool
  rl_IP :: RateLimitRule
  rl_API :: RateLimitRule
  rl_User :: RateLimitRule
  rl_Login :: RateLimitRule

record Observability =
  obs_MetricsEnabled :: bool
  obs_TracingEnabled :: bool
  obs_TracingEndpoint :: string
  obs_TracingSampleRatio :: float64
  obs_PprofEnabled :: bool
  obs_PprofToken :: string

record Swagger =
  swagger_Enabled :: bool
  swagger_RequireAuth :: bool

record JWT =
  jwt_Issuer :: string
  jwt_Secret :: string
  jwt_TTL :: Duration

record PSK =
  psk_Enabled :: bool
  psk_Key :: string
  psk_HTTPPaths :: "string list"
  psk_GRPCMethods :: "string list"

record Auth =
  auth_ClientID :: string
  auth_ClientSecret :: string
  auth_JWKSURL :: string
  auth_Issuer :: string
  auth_Audience :: string
  auth_SkipHTTPPaths :: "string list"
  auth_SkipGRPCMethods :: "string list"
  auth_PSK :: PSK

record Authorization =
  authz_Enabled :: bool

record Migration =
  mig_AutoUp :: bool
  mig_CreateSchema :: bool
  mig_Path :: string
  mig_DatabaseURL :: string
  mig_Table :: string
  mig_Schema :: string
  mig_DatabaseName :: string

record Idempotency =
  idem_Enabled :: bool
  idem_GRPCMethods :: "string list"
  idem_ProcessingTTL :: Duration
  idem_ResultTTL :: Duration
  idem_FailureTTL :: Duration

record ClientAuth =
  ca_Type :: string
  ca_Token :: string

record Retry =
  retry_MaxAttempts :: int
  retry_InitialBackoff :: Duration
  retry_MaxBackoff :: Duration
  retry_Methods :: "string list"

record Breaker =
  breaker_Enabled :: bool
  breaker_FailureThreshold :: uint32
  breaker_OpenTimeout :: Duration

record ClientTLS =
  ctls_Enabled :: bool
  ctls_AllowInsecure :: bool
  ctls_ServerName :: string
  ctls_CAFile :: string
  ctls_CertFile :: string
  ctls_KeyFile :: string

record HTTPUpstream =
  hu_BaseURL :: string
  hu_Timeout :: Duration
  hu_Auth :: ClientAuth
  hu_Retry :: Retry
  hu_Breaker :: Breaker
  hu_TLS :: ClientTLS

record GRPCUpstream =
  gu_Target :: string
  gu_Timeout :: Duration
  gu_Auth :: ClientAuth
  gu_Retry :: Retry
  gu_Breaker :: Breaker
  gu_TLS :: ClientTLS

record Outbound =
  out_HTTP :: "(string \<times> HTTPUpstream) list"
  out_GRPC :: "(string \<times> GRPCUpstream) list"

record EventBus =
  bus_Enabled :: bool
  bus_URLs :: "string list"
  bus_StreamName :: string
  bus_Subjects :: "string list"
  bus_Storage :: string
  bus_MaxAge :: Duration
  bus_DuplicateWindow :: Duration
  bus_ConnectTimeout :: Duration
  bus_ReconnectWait :: Duration
  bus_PublishTimeout :: Duration
  bus_ConsumerAckWait :: Duration
  bus_ConsumerAckTimeout :: Duration
  bus_ConsumerHandlerTimeout :: Duration
  bus_ConsumerRetryDelay :: Duration
  bus_ConsumerMaxRetryDelay :: Duration
  bus_ConsumerMaxDeliver :: int
  bus_ConsumerMaxAckPending :: int
  bus_DeadLetterSubject :: string
  bus_DeadLetterMaxDataBytes :: int
  bus_InboxRetention :: Duration
  bus_InboxCleanupInterval :: Duration
  bus_InboxCleanupBatchSize :: int

record OpenSearch =
  os_Enabled :: bool
  os_Addresses :: "string list"
  os_Username :: string
  os_Password :: string
  os_Index :: string
  os_Timeout :: Duration
  os_InsecureSkipVerify :: bool

record Projection =
  proj_Durable :: string
  proj_Subject :: string

record Config =
  cfg_Runtime :: Runtime
  cfg_App :: App
  cfg_HTTP :: HTTP
  cfg_GRPC :: GRPC
  cfg_Log :: Log
  cfg_Database :: Database
  cfg_Redis :: Redis
  cfg_Health :: Health
  cfg_RateLimit :: RateLimit
  cfg_Observability :: Observability
  cfg_Swagger :: Swagger
  cfg_JWT :: JWT
  cfg_Auth :: Auth
  cfg_Authorization :: Authorization
  cfg_Migration :: Migration
  cfg_Idempotency :: Idempotency
  cfg_Outbound :: Outbound
  cfg_EventBus :: EventBus
  cfg_OpenSearch :: OpenSearch
  cfg_Projection :: Projection

section \<open>IEEE 754 comparisons\<close>

text \<open>\<^verbatim>\<open>x < 0\<close> and \<^verbatim>\<open>x > 1\<close> on the bit pattern of a float64; both are false of a NaN.\<close>

definition f64_nan :: "float64 \<Rightarrow> bool" where
  "f64_nan x \<longleftrightarrow> 0x7FF0000000000000 < x mod 0x8000000000000000"

definition f64_lt_zero :: "float64 \<Rightarrow> bool" where
  "f64_lt_zero x \<longleftrightarrow> \<not> f64_nan x \<and> 0x8000000000000000 < x"

definition f64_gt_one :: "float64 \<Rightarrow> bool" where
  "f64_gt_one x \<longleftrightarrow> \<not> f64_nan x \<and> 0x3FF0000000000000 < x \<and> x < 0x8000000000000000"

section \<open>Strings of the configuration\<close>

text \<open>\<^verbatim>\<open>^[a-z0-9][a-z0-9_-]*$\<close> and \<^verbatim>\<open>^[a-z][a-z0-9_]{0,62}$\<close>.\<close>

definition is_lower :: "char \<Rightarrow> bool" where
  "is_lower c \<longleftrightarrow> 97 \<le> (of_char c :: nat) \<and> (of_char c :: nat) \<le> 122"

definition is_digit :: "char \<Rightarrow> bool" where
  "is_digit c \<longleftrightarrow> 48 \<le> (of_char c :: nat) \<and> (of_char c :: nat) \<le> 57"

definition validProfile :: "string \<Rightarrow> bool" where
  "validProfile s \<longleftrightarrow> s \<noteq> [] \<and> (is_lower (hd s) \<or> is_digit (hd s))
     \<and> list_all (\<lambda>c. is_lower c \<or> is_digit c \<or> c = CHR ''_'' \<or> c = CHR ''-'') s"

definition validMigrationTable :: "string \<Rightarrow> bool" where
  "validMigrationTable s \<longleftrightarrow> s \<noteq> [] \<and> is_lower (hd s)
     \<and> list_all (\<lambda>c. is_lower c \<or> is_digit c \<or> c = CHR ''_'') s \<and> length s \<le> 63"

text \<open>\<^verbatim>\<open>filepath.Ext\<close>: from the last dot of the last path element.\<close>

definition Ext :: "string \<Rightarrow> string" where
  "Ext path =
     (let tail = takeWhile (\<lambda>c. c \<noteq> CHR ''/'') (rev path) in
      if CHR ''.'' \<in> set tail then CHR ''.'' # rev (takeWhile (\<lambda>c. c \<noteq> CHR ''.'') tail) else [])"

definition profileConfigPath :: "string \<Rightarrow> string \<Rightarrow> string" where
  "profileConfigPath path profile = TrimSuffix path (Ext path) @ ''-'' @ profile @ Ext path"

text \<open>\<^verbatim>\<open>strings.Split(s, ",")\<close> and \<^verbatim>\<open>strings.Trim(s, cutset)\<close> for the two quote characters.\<close>

fun splitComma :: "string \<Rightarrow> string list" where
  "splitComma [] = [[]]"
| "splitComma (c # s) =
     (if c = CHR '','' then [] # splitComma s
      else (case splitComma s of [] \<Rightarrow> [[c]] | t # ts \<Rightarrow> (c # t) # ts))"

definition trimQuotes :: "string \<Rightarrow> string" where
  "trimQuotes s =
     (let q = (\<lambda>c. c = CHR 0x22 \<or> c = CHR 0x27) in rev (dropWhile q (rev (dropWhile q s))))"

text \<open>The decode hook's function from a string to a list.\<close>

definition stringToStringSlice :: "string \<Rightarrow> string list" where
  "stringToStringSlice data =
     (let raw = TrimSpace data;
          body = (if HasPrefix raw ''['' \<and> suffix '']'' raw then TrimSpace (butlast (tl raw)) else raw)
      in if body = [] then [] else map (\<lambda>v. trimQuotes (TrimSpace v)) (splitComma body))"

section \<open>Validation\<close>

text \<open>
  \<^verbatim>\<open>Validate\<close> is a sequence of \<^verbatim>\<open>if ... { return err }\<close>: the first failing check decides. The \<^verbatim>\<open>%q\<close>
  verb is kept as quotes around the value, without its escapes.
\<close>

fun first_error :: "err option list \<Rightarrow> err option" where
  "first_error [] = None"
| "first_error (None # cs) = first_error cs"
| "first_error (Some e # cs) = Some e"

definition refuse :: "bool \<Rightarrow> string \<Rightarrow> err option" where
  "refuse bad m = (if bad then Some (Plain m) else None)"

definition quoted :: "string \<Rightarrow> string" where
  "quoted s = CHR 0x22 # s @ [CHR 0x22]"

definition errBadPattern :: err where
  "errBadPattern = Sentinel (External ''syntax error in pattern'')"

definition badPattern :: "string \<Rightarrow> bool" where
  "badPattern p \<longleftrightarrow> Match p ''/validation/target'' = None"

definition isDBType :: "string \<Rightarrow> bool" where
  "isDBType v \<longleftrightarrow> v = ''mysql'' \<or> v = ''postgres'' \<or> v = ''kingbase''"

definition notMethodPattern :: "string \<Rightarrow> bool" where
  "notMethodPattern p \<longleftrightarrow> \<not> HasPrefix p ''/'' \<or> length (filter (\<lambda>c. c = CHR ''/'') p) \<noteq> 2"

definition checkPath :: "string \<Rightarrow> string \<Rightarrow> err option" where
  "checkPath key pattern = first_error
     [refuse (\<not> HasPrefix pattern ''/api/'') (key @ '' contains path outside /api '' @ quoted pattern),
      if badPattern pattern
      then Some (prefixed (key @ '' contains invalid pattern '' @ quoted pattern) errBadPattern) else None]"

definition checkMethod :: "string \<Rightarrow> string \<Rightarrow> err option" where
  "checkMethod key pattern = first_error
     [refuse (notMethodPattern pattern) (key @ '' contains invalid method pattern '' @ quoted pattern),
      if badPattern pattern
      then Some (prefixed (key @ '' contains invalid pattern '' @ quoted pattern) errBadPattern) else None]"

definition production :: "Config \<Rightarrow> bool" where
  "production c \<longleftrightarrow> app_Env (cfg_App c) = ''production''"

definition validateServers :: "Config \<Rightarrow> err option" where
  "validateServers c = first_error
     [refuse (\<not> validMigrationTable (db_Name (cfg_Database c)))
        ''database.name must contain lowercase letters, digits, or underscores and be at most 63 characters'',
      refuse (db_Schema (cfg_Database c) \<noteq> [] \<and> \<not> validMigrationTable (db_Schema (cfg_Database c)))
        ''database.schema must contain lowercase letters, digits, or underscores and be at most 63 characters'',
      refuse (http_Address (cfg_HTTP c) = []) ''http.address is required'',
      refuse (grpc_Enabled (cfg_GRPC c) \<and> (grpc_Address (cfg_GRPC c) = [] \<or> grpc_MaxReceiveBytes (cfg_GRPC c) \<le> 0))
        ''enabled grpc requires address and positive max_receive_bytes'',
      refuse (grpctls_Enabled (grpc_TLS (cfg_GRPC c))
          \<and> (grpctls_CertFile (grpc_TLS (cfg_GRPC c)) = [] \<or> grpctls_KeyFile (grpc_TLS (cfg_GRPC c)) = []))
        ''grpc tls requires cert_file and key_file'',
      refuse (production c \<and> grpc_Enabled (cfg_GRPC c) \<and> \<not> grpctls_Enabled (grpc_TLS (cfg_GRPC c)))
        ''grpc tls must be enabled in production'',
      refuse (production c \<and> grpc_ReflectionEnabled (cfg_GRPC c))
        ''grpc reflection must be disabled in production'']"

definition validateStorage :: "Config \<Rightarrow> err option" where
  "validateStorage c = first_error
     [refuse (db_Enabled (cfg_Database c) \<and> (db_DSN (cfg_Database c) = [] \<or> \<not> isDBType (db_Type (cfg_Database c))))
        ''enabled database requires dsn and type mysql, postgres, or kingbase'',
      refuse (mig_AutoUp (cfg_Migration c) \<and> (\<not> db_Enabled (cfg_Database c) \<or> mig_Path (cfg_Migration c) = []
          \<or> mig_DatabaseURL (cfg_Migration c) = [] \<or> \<not> validMigrationTable (mig_Table (cfg_Migration c))))
        ''migration.auto_up requires enabled database, path, database_url, and a valid service-specific table'',
      refuse (redis_Enabled (cfg_Redis c) \<and> redis_Address (cfg_Redis c) = []) ''enabled redis requires address'',
      refuse (http_RequestTimeout (cfg_HTTP c) \<le> 0 \<or> health_DatabaseTimeout (cfg_Health c) \<le> 0
          \<or> health_RedisTimeout (cfg_Health c) \<le> 0 \<or> health_OpenSearchTimeout (cfg_Health c) \<le> 0)
        ''http and health timeouts must be positive'']"

text \<open>The four rules are iterated over in a random order; only the name in the text depends on it.\<close>

definition validateRule :: "string \<times> RateLimitRule \<Rightarrow> err option" where
  "validateRule nr = (case nr of (name, rule) \<Rightarrow>
     refuse (rule_Rate rule \<le> 0 \<or> rule_Burst rule \<le> 0 \<or> rule_Period rule \<le> 0)
       (''rate_limit.'' @ name @ '' values must be positive''))"

definition validateRateLimit :: "Config \<Rightarrow> err option" where
  "validateRateLimit c = first_error
     [refuse (rl_Enabled (cfg_RateLimit c) \<and> \<not> redis_Enabled (cfg_Redis c)) ''rate_limit requires redis.enabled'',
      if rl_Enabled (cfg_RateLimit c)
      then first_error (map validateRule [(''ip'', rl_IP (cfg_RateLimit c)), (''api'', rl_API (cfg_RateLimit c)),
        (''user'', rl_User (cfg_RateLimit c)), (''login'', rl_Login (cfg_RateLimit c))])
      else None]"

definition validateOperations :: "Config \<Rightarrow> err option" where
  "validateOperations c = first_error
     [refuse (cors_Enabled (http_CORS (cfg_HTTP c)) \<and> cors_AllowedOrigins (http_CORS (cfg_HTTP c)) = [])
        ''cors.allowed_origins is required when cors is enabled'',
      refuse (f64_lt_zero (obs_TracingSampleRatio (cfg_Observability c))
          \<or> f64_gt_one (obs_TracingSampleRatio (cfg_Observability c)))
        ''observability.tracing_sample_ratio must be between 0 and 1'',
      refuse (obs_TracingEnabled (cfg_Observability c) \<and> obs_TracingEndpoint (cfg_Observability c) = [])
        ''observability.tracing_endpoint is required'',
      refuse (obs_PprofEnabled (cfg_Observability c) \<and> length (obs_PprofToken (cfg_Observability c)) < 32)
        ''observability.pprof_token must contain at least 32 bytes'',
      refuse (production c \<and> swagger_Enabled (cfg_Swagger c) \<and> \<not> swagger_RequireAuth (cfg_Swagger c))
        ''swagger.require_auth must be enabled in production'']"

definition validateAuth :: "Config \<Rightarrow> err option" where
  "validateAuth c = first_error
     ([refuse (production c \<and> (auth_JWKSURL (cfg_Auth c) = [] \<or> auth_Issuer (cfg_Auth c) = [] \<or> auth_Audience (cfg_Auth c) = []))
         ''production authentication requires identity JWKS URL, issuer, and search-service audience'',
       refuse (production c \<and> \<not> authz_Enabled (cfg_Authorization c)) ''authorization must be enabled in production'',
       refuse (authz_Enabled (cfg_Authorization c) \<and> map_of (out_GRPC (cfg_Outbound c)) ''authorization'' = None)
         ''enabled authorization requires outbound.grpc.authorization'',
       refuse ((auth_ClientID (cfg_Auth c) \<noteq> [] \<or> auth_ClientSecret (cfg_Auth c) \<noteq> []) \<and> length (jwt_Secret (cfg_JWT c)) < 32)
         ''jwt.secret must contain at least 32 bytes when auth is enabled'']
      @ map (checkPath ''auth.skip_http_paths'') (auth_SkipHTTPPaths (cfg_Auth c))
      @ map (checkMethod ''auth.skip_grpc_methods'') (auth_SkipGRPCMethods (cfg_Auth c))
      @ [refuse (psk_Enabled (auth_PSK (cfg_Auth c)) \<and> (length (psk_Key (auth_PSK (cfg_Auth c))) < 32
            \<or> length (psk_HTTPPaths (auth_PSK (cfg_Auth c))) + length (psk_GRPCMethods (auth_PSK (cfg_Auth c))) = 0))
          ''enabled auth.psk requires a key of at least 32 bytes and at least one route pattern'']
      @ map (checkPath ''auth.psk.http_paths'') (psk_HTTPPaths (auth_PSK (cfg_Auth c)))
      @ map (checkMethod ''auth.psk.grpc_methods'') (psk_GRPCMethods (auth_PSK (cfg_Auth c))))"

definition validateSearch :: "Config \<Rightarrow> err option" where
  "validateSearch c = first_error
     ([refuse (os_Enabled (cfg_OpenSearch c) \<and> (os_Addresses (cfg_OpenSearch c) = [] \<or> os_Index (cfg_OpenSearch c) = []
           \<or> os_Timeout (cfg_OpenSearch c) \<le> 0))
         ''enabled opensearch requires addresses, index, and a positive timeout'',
       refuse (os_Enabled (cfg_OpenSearch c) \<and> map_of (out_GRPC (cfg_Outbound c)) ''application'' = None)
         ''enabled opensearch requires outbound.grpc.application'',
       refuse (production c \<and> os_InsecureSkipVerify (cfg_OpenSearch c))
         ''opensearch.insecure_skip_verify is forbidden in production'',
       refuse (bus_Enabled (cfg_EventBus c) \<and> (\<not> db_Enabled (cfg_Database c) \<or> proj_Durable (cfg_Projection c) = []
           \<or> proj_Subject (cfg_Projection c) = []))
         ''enabled event_bus requires database and projection durable/subject for Inbox idempotency'',
       refuse (idem_Enabled (cfg_Idempotency c) \<and> (\<not> redis_Enabled (cfg_Redis c) \<or> idem_GRPCMethods (cfg_Idempotency c) = []
           \<or> idem_ProcessingTTL (cfg_Idempotency c) \<le> 0 \<or> idem_ResultTTL (cfg_Idempotency c) \<le> 0
           \<or> idem_FailureTTL (cfg_Idempotency c) \<le> 0))
         ''enabled idempotency requires redis, at least one gRPC method pattern, and positive TTL values'']
      @ map (checkMethod ''idempotency.grpc_methods'') (idem_GRPCMethods (cfg_Idempotency c)))"

definition validateEventBus :: "EventBus \<Rightarrow> err option" where
  "validateEventBus b = first_error
     [refuse (bus_Enabled b \<and> (bus_URLs b = [] \<or> bus_StreamName b = [] \<or> bus_Subjects b = []
          \<or> (bus_Storage b \<noteq> ''file'' \<and> bus_Storage b \<noteq> ''memory'') \<or> bus_MaxAge b \<le> 0 \<or> bus_DuplicateWindow b \<le> 0
          \<or> bus_ConnectTimeout b \<le> 0 \<or> bus_ReconnectWait b \<le> 0 \<or> bus_PublishTimeout b \<le> 0
          \<or> bus_ConsumerAckWait b \<le> 0 \<or> bus_ConsumerMaxDeliver b \<le> 0))
        ''enabled event_bus requires URLs, stream, subjects, valid storage, positive timeouts, and max deliveries'',
      refuse (bus_Enabled b \<and> (bus_ConsumerAckTimeout b \<le> 0 \<or> bus_ConsumerHandlerTimeout b \<le> 0
          \<or> bus_ConsumerHandlerTimeout b \<ge> bus_ConsumerAckWait b \<or> bus_ConsumerRetryDelay b \<le> 0
          \<or> bus_ConsumerMaxRetryDelay b < bus_ConsumerRetryDelay b \<or> bus_ConsumerMaxAckPending b \<le> 0
          \<or> bus_DeadLetterSubject b = [] \<or> bus_DeadLetterMaxDataBytes b \<le> 0 \<or> bus_InboxRetention b \<le> 0
          \<or> bus_InboxCleanupInterval b \<le> 0 \<or> bus_InboxCleanupBatchSize b \<le> 0))
        ''event_bus consumer timeouts, retry policy, ack limit, and dead-letter settings are invalid'']"

definition checkRetryMethod :: "string \<Rightarrow> string \<Rightarrow> err option" where
  "checkRetryMethod name pattern = first_error
     [refuse (notMethodPattern pattern) (''outbound '' @ name @ '' retry method pattern is invalid''),
      if badPattern pattern
      then Some (prefixed (''outbound '' @ name @ '' retry method pattern is invalid'') errBadPattern) else None]"

definition validateClientPolicy ::
    "string \<Rightarrow> ClientAuth \<Rightarrow> Retry \<Rightarrow> Breaker \<Rightarrow> ClientTLS \<Rightarrow> bool \<Rightarrow> err option" where
  "validateClientPolicy name a r b t inProduction = first_error
     ([refuse (ca_Type a \<noteq> [] \<and> ca_Type a \<noteq> ''bearer'' \<and> ca_Type a \<noteq> ''psk'')
         (''outbound '' @ name @ '' auth.type must be bearer or psk''),
       refuse (ca_Type a \<noteq> [] \<and> ca_Token a = []) (''outbound '' @ name @ '' auth.token is required''),
       refuse (ca_Type a \<noteq> [] \<and> \<not> ctls_Enabled t \<and> \<not> ctls_AllowInsecure t)
         (''outbound '' @ name @ '' credentials require TLS or explicit allow_insecure''),
       refuse (ctls_Enabled t \<and> ctls_AllowInsecure t)
         (''outbound '' @ name @ '' TLS and allow_insecure are mutually exclusive''),
       refuse (inProduction \<and> ca_Type a \<noteq> [] \<and> ctls_AllowInsecure t)
         (''production outbound '' @ name @ '' credentials require TLS''),
       refuse (retry_MaxAttempts r < 1 \<or> retry_MaxAttempts r > 5 \<or> retry_InitialBackoff r \<le> 0
           \<or> retry_MaxBackoff r < retry_InitialBackoff r)
         (''outbound '' @ name @ '' retry policy is invalid'')]
      @ map (checkRetryMethod name) (retry_Methods r)
      @ [refuse (breaker_Enabled b \<and> (breaker_FailureThreshold b = 0 \<or> breaker_OpenTimeout b \<le> 0))
           (''outbound '' @ name @ '' breaker policy is invalid''),
         refuse (ctls_Enabled t \<and> (ctls_CertFile t = []) \<noteq> (ctls_KeyFile t = []))
           (''outbound '' @ name @ '' TLS certificate and key must be configured together'')])"

definition validateHTTPUpstream :: "bool \<Rightarrow> string \<times> HTTPUpstream \<Rightarrow> err option" where
  "validateHTTPUpstream inProduction nu = (case nu of (name, u) \<Rightarrow> first_error
     [refuse (hu_BaseURL u = [] \<or> hu_Timeout u \<le> 0)
        (''outbound.http.'' @ name @ '' requires base_url and positive timeout''),
      validateClientPolicy name (hu_Auth u) (hu_Retry u) (hu_Breaker u) (hu_TLS u) inProduction])"

definition validateGRPCUpstream :: "bool \<Rightarrow> string \<times> GRPCUpstream \<Rightarrow> err option" where
  "validateGRPCUpstream inProduction nu = (case nu of (name, u) \<Rightarrow> first_error
     [refuse (gu_Target u = [] \<or> gu_Timeout u \<le> 0)
        (''outbound.grpc.'' @ name @ '' requires target and positive timeout''),
      validateClientPolicy name (gu_Auth u) (gu_Retry u) (gu_Breaker u) (gu_TLS u) inProduction])"

definition Validate :: "Config \<Rightarrow> err option" where
  "Validate c = first_error
     ([validateServers c, validateStorage c, validateRateLimit c, validateOperations c, validateAuth c,
       validateSearch c, validateEventBus (cfg_EventBus c)]
      @ map (validateHTTPUpstream (production c)) (out_HTTP (cfg_Outbound c))
      @ map (validateGRPCUpstream (production c)) (out_GRPC (cfg_Outbound c)))"

end
