(* ===== verification/ConfigLoad.thy ===== *)
theory ConfigLoad
  imports Config
begin

text \<open>
  The defaults and the loading of \<^verbatim>\<open>internal/config/config.go\<close>, and what a configuration that was
  accepted guarantees to the components that read it.
\<close>

section \<open>Defaults\<close>

definition second :: Duration where
  "second = 1000000000"

definition minute :: Duration where
  "minute = 60 * second"

definition hour :: Duration where
  "hour = 60 * minute"

definition setRateLimitDefaults :: "int \<Rightarrow> int \<Rightarrow> RateLimitRule" where
  "setRateLimitDefaults rate burst = \<lparr>rule_Rate = rate, rule_Burst = burst, rule_Period = minute\<rparr>"

text \<open>
  The configuration that \<^verbatim>\<open>setDefaults\<close> alone describes. Keys without a default decode to zero
  values. The sample ratio 0.1 is its nearest float64.
\<close>

definition setDefaults :: Config where
  "setDefaults = \<lparr>
     cfg_Runtime = \<lparr>rt_ActiveProfile = [], rt_ConfigFiles = []\<rparr>,
     cfg_App = \<lparr>app_Name = ''search-service'', app_Schema = [], app_Env = ''development'',
       app_ShutdownTimeout = 10 * second\<rparr>,
     cfg_HTTP = \<lparr>http_Address = ''127.0.0.1:8080'', http_ReadTimeout = 10 * second, http_WriteTimeout = 15 * second,
       http_IdleTimeout = 60 * second, http_RequestTimeout = 10 * second, http_MaxBodyBytes = 1048576,
       http_TrustedProxies = [],
       http_CORS = \<lparr>cors_Enabled = False, cors_AllowedOrigins = [],
         cors_AllowedHeaders = [''Authorization'', ''Content-Type'', ''X-Request-ID''],
         cors_ExposedHeaders = [''X-Request-ID'', ''X-RateLimit-Limit'', ''X-RateLimit-Remaining'', ''Retry-After''],
         cors_MaxAge = 12 * hour\<rparr>\<rparr>,
     cfg_GRPC = \<lparr>grpc_Enabled = True, grpc_Address = ''127.0.0.1:9090'', grpc_ReflectionEnabled = True,
       grpc_MaxReceiveBytes = 16777216,
       grpc_TLS = \<lparr>grpctls_Enabled = False, grpctls_CertFile = [], grpctls_KeyFile = [], grpctls_ClientCAFile = []\<rparr>\<rparr>,
     cfg_Log = \<lparr>log_Level = ''info'', log_Format = ''json'', log_File = ''logs/app.log'', log_MaxSizeMB = 100,
       log_MaxBackups = 10, log_MaxAgeDays = 30, log_Compress = True\<rparr>,
     cfg_Database = \<lparr>db_Enabled = False, db_Name = ''platform'', db_Schema = ''search'', db_Type = ''postgres'',
       db_DSN = [], db_MaxOpenConns = 25, db_MaxIdleConns = 10, db_ConnMaxLifetime = 5 * minute,
       db_ConnMaxIdleTime = minute, db_PingTimeout = 5 * second\<rparr>,
     cfg_Redis = \<lparr>redis_Enabled = False, redis_Address = ''127.0.0.1:6379'', redis_Username = [],
       redis_Password = [], redis_DB = 0, redis_DialTimeout = 5 * second, redis_ReadTimeout = 3 * second,
       redis_WriteTimeout = 3 * second\<rparr>,
     cfg_Health = \<lparr>health_DatabaseTimeout = 2 * second, health_RedisTimeout = 2 * second,
       health_OpenSearchTimeout = 2 * second\<rparr>,
     cfg_RateLimit = \<lparr>rl_Enabled = False, rl_FailOpen = False, rl_IP = setRateLimitDefaults 120 30,
       rl_API = setRateLimitDefaults 10000 1000, rl_User = setRateLimitDefaults 600 100,
       rl_Login = setRateLimitDefaults 10 3\<rparr>,
     cfg_Observability = \<lparr>obs_MetricsEnabled = True, obs_TracingEnabled = False,
       obs_TracingEndpoint = ''http://127.0.0.1:4318'', obs_TracingSampleRatio = 0x3FB999999999999A,
       obs_PprofEnabled = False, obs_PprofToken = []\<rparr>,
     cfg_Swagger = \<lparr>swagger_Enabled = True, swagger_RequireAuth = False\<rparr>,
     cfg_JWT = \<lparr>jwt_Issuer = ''search-service'', jwt_Secret = [], jwt_TTL = 2 * hour\<rparr>,
     cfg_Auth = \<lparr>auth_ClientID = [], auth_ClientSecret = [], auth_JWKSURL = [], auth_Issuer = ''identity-service'',
       auth_Audience = ''search-service'', auth_SkipHTTPPaths = [''/api/v1/version''],
       auth_SkipGRPCMethods = [''/grpc.health.v1.Health/*''],
       auth_PSK = \<lparr>psk_Enabled = False, psk_Key = [], psk_HTTPPaths = [], psk_GRPCMethods = []\<rparr>\<rparr>,
     cfg_Authorization = \<lparr>authz_Enabled = False\<rparr>,
     cfg_Migration = \<lparr>mig_AutoUp = False, mig_CreateSchema = False, mig_Path = ''migrations/postgres'',
       mig_DatabaseURL = [], mig_Table = ''search_schema_migrations'', mig_Schema = [], mig_DatabaseName = []\<rparr>,
     cfg_Idempotency = \<lparr>idem_Enabled = False, idem_GRPCMethods = [], idem_ProcessingTTL = 30 * second,
       idem_ResultTTL = 24 * hour, idem_FailureTTL = 5 * minute\<rparr>,
     cfg_Outbound = \<lparr>out_HTTP = [], out_GRPC = []\<rparr>,
     cfg_EventBus = \<lparr>bus_Enabled = False, bus_URLs = [''nats://127.0.0.1:4222''], bus_StreamName = ''PLATFORM_EVENTS'',
       bus_Subjects = [''platform.>''], bus_Storage = ''file'', bus_MaxAge = 168 * hour,
       bus_DuplicateWindow = 10 * minute, bus_ConnectTimeout = 5 * second, bus_ReconnectWait = second,
       bus_PublishTimeout = 5 * second, bus_ConsumerAckWait = 30 * second, bus_ConsumerAckTimeout = 5 * second,
       bus_ConsumerHandlerTimeout = 25 * second, bus_ConsumerRetryDelay = second,
       bus_ConsumerMaxRetryDelay = minute, bus_ConsumerMaxDeliver = 10, bus_ConsumerMaxAckPending = 64,
       bus_DeadLetterSubject = ''platform.system.event.dead-lettered.v1'', bus_DeadLetterMaxDataBytes = 1048576,
       bus_InboxRetention = 336 * hour, bus_InboxCleanupInterval = hour, bus_InboxCleanupBatchSize = 500\<rparr>,
     cfg_OpenSearch = \<lparr>os_Enabled = False, os_Addresses = [''http://127.0.0.1:9200''], os_Username = [],
       os_Password = [], os_Index = ''platform-search-v1'', os_Timeout = 5 * second, os_InsecureSkipVerify = False\<rparr>,
     cfg_Projection = \<lparr>proj_Durable = ''search-document-projection'', proj_Subject = ''platform.search.document.>''\<rparr>\<rparr>"

section \<open>Loading\<close>

text \<open>
  What \<^verbatim>\<open>LoadWithProfile\<close> asks of viper and the file system, on a state \<^verbatim>\<open>'w\<close> that holds the values
  read so far. The first two operations bind environment variables. \<^verbatim>\<open>vp_decode\<close> is \<^verbatim>\<open>v.Unmarshal\<close>
  after \<^verbatim>\<open>v.Set("app.env", profile)\<close>, with \<^const>\<open>stringToStringSlice\<close> as its hook.
\<close>

record 'w Viper =
  vp_bind :: "string \<Rightarrow> ('w, err) call_err"
  vp_read :: "string \<Rightarrow> ('w, err) call_err"
  vp_is_not_found :: "err \<Rightarrow> bool"
  vp_env :: "'w \<Rightarrow> string"
  vp_stat :: "string \<Rightarrow> 'w \<Rightarrow> err option"
  vp_not_exist :: "err \<Rightarrow> bool"
  vp_merge :: "string \<Rightarrow> ('w, err) call_err"
  vp_decode :: "string \<Rightarrow> 'w \<Rightarrow> err + Config"

text \<open>
  \<^verbatim>\<open>strings.ToLower\<close>, exact up to the point where the profile is checked: ASCII letters, and the two
  other characters whose lower case is ASCII, U+212A and U+0130. Every other character outside ASCII
  stays outside ASCII and is refused by \<^const>\<open>validProfile\<close> either way.
\<close>

fun ToLower :: "string \<Rightarrow> string" where
  "ToLower [] = []"
| "ToLower [a] = [ascii_lower a]"
| "ToLower [a, b] =
     (if a = CHR 0xC4 \<and> b = CHR 0xB0 then ''i'' else ascii_lower a # ToLower [b])"
| "ToLower (a # b # c # s) =
     (if a = CHR 0xC4 \<and> b = CHR 0xB0 then CHR ''i'' # ToLower (c # s)
      else if a = CHR 0xE2 \<and> b = CHR 0x84 \<and> c = CHR 0xAA then CHR ''k'' # ToLower s
      else ascii_lower a # ToLower (b # c # s))"

definition chooseProfile :: "string \<Rightarrow> string \<Rightarrow> string" where
  "chooseProfile explicitProfile env =
     (let profile = ToLower (TrimSpace explicitProfile) in
      if profile = [] then ToLower (TrimSpace env) else profile)"

text \<open>The profile's file is merged when it exists; the files that were loaded, in order.\<close>

definition mergeProfile :: "'w Viper \<Rightarrow> string \<Rightarrow> string \<Rightarrow> 'w \<Rightarrow> (err + string list) \<times> 'w" where
  "mergeProfile v path profile w =
     (let profilePath = profileConfigPath path profile in
      if profilePath = path then (Inr [path], w)
      else case vp_stat v profilePath w of
          None \<Rightarrow> (case vp_merge v profilePath w of
              (Some e, w') \<Rightarrow> (Inl (prefixed (''merge profile config '' @ quoted profilePath) e), w')
            | (None, w') \<Rightarrow> (Inr [path, profilePath], w'))
        | Some e \<Rightarrow>
            if \<not> vp_not_exist v e
            then (Inl (prefixed (''inspect profile config '' @ quoted profilePath) e), w)
            else (Inr [path], w))"

definition finishConfig :: "Config \<Rightarrow> Config" where
  "finishConfig cfg = cfg\<lparr>cfg_Migration := (cfg_Migration cfg)\<lparr>mig_Schema := db_Schema (cfg_Database cfg),
     mig_DatabaseName := db_Name (cfg_Database cfg)\<rparr>\<rparr>"

definition LoadWithProfile :: "'w Viper \<Rightarrow> string \<Rightarrow> string \<Rightarrow> ('w, err, Config) call" where
  "LoadWithProfile v path explicitProfile w0 =
     (case vp_bind v ''app.env'' w0 of
        (Some e, w1) \<Rightarrow> (Inl (prefixed ''bind environment profile'' e), w1)
      | (None, w1) \<Rightarrow>
     (case vp_bind v ''outbound.grpc.authorization.target'' w1 of
        (Some e, w2) \<Rightarrow> (Inl (prefixed ''bind authorization target'' e), w2)
      | (None, w2) \<Rightarrow>
     (case vp_read v path w2 of (readErr, w3) \<Rightarrow>
      if (case readErr of None \<Rightarrow> False | Some e \<Rightarrow> path \<noteq> [] \<or> \<not> vp_is_not_found v e)
      then (Inl (prefixed ''read config'' (the readErr)), w3)
      else let profile = chooseProfile explicitProfile (vp_env v w3) in
        if \<not> validProfile profile then (Inl (Plain (''invalid environment profile '' @ quoted profile)), w3)
        else (case mergeProfile v path profile w3 of
            (Inl e, w4) \<Rightarrow> (Inl e, w4)
          | (Inr files, w4) \<Rightarrow>
              (case vp_decode v profile w4 of
                 Inl e \<Rightarrow> (Inl (prefixed ''decode config'' e), w4)
               | Inr cfg \<Rightarrow>
                   (case Validate (finishConfig cfg) of
                      Some e \<Rightarrow> (Inl e, w4)
                    | None \<Rightarrow> (Inr ((finishConfig cfg)\<lparr>cfg_Runtime :=
                        \<lparr>rt_ActiveProfile = profile, rt_ConfigFiles = files\<rparr>\<rparr>), w4)))))))"

definition Load :: "'w Viper \<Rightarrow> string \<Rightarrow> ('w, err, Config) call" where
  "Load v path = LoadWithProfile v path []"

section \<open>The first failing check\<close>

lemma first_error_None: "first_error cs = None \<longleftrightarrow> (\<forall>c \<in> set cs. c = None)"
  by (induction cs rule: first_error.induct) auto

lemma refuse_None [simp]: "refuse bad m = None \<longleftrightarrow> \<not> bad"
  by (simp add: refuse_def)

lemma validateRule_None:
  "validateRule (name, r) = None \<longleftrightarrow> 0 < rule_Rate r \<and> 0 < rule_Burst r \<and> 0 < rule_Period r"
  by (auto simp: validateRule_def)

lemma checkPath_None: "checkPath key p = None \<longleftrightarrow> HasPrefix p ''/api/'' \<and> \<not> badPattern p"
  by (auto simp: checkPath_def first_error_None)

lemma checkMethod_None: "checkMethod key p = None \<longleftrightarrow> \<not> notMethodPattern p \<and> \<not> badPattern p"
  by (auto simp: checkMethod_def first_error_None)

lemma checkRetryMethod_None: "checkRetryMethod name p = None \<longleftrightarrow> \<not> notMethodPattern p \<and> \<not> badPattern p"
  by (auto simp: checkRetryMethod_def first_error_None)

lemma Validate_None:
  "Validate c = None \<longleftrightarrow>
     validateServers c = None \<and> validateStorage c = None \<and> validateRateLimit c = None
     \<and> validateOperations c = None \<and> validateAuth c = None \<and> validateSearch c = None
     \<and> validateEventBus (cfg_EventBus c) = None
     \<and> (\<forall>u \<in> set (out_HTTP (cfg_Outbound c)). validateHTTPUpstream (production c) u = None)
     \<and> (\<forall>u \<in> set (out_GRPC (cfg_Outbound c)). validateGRPCUpstream (production c) u = None)"
  by (auto simp: Validate_def first_error_None)

lemmas validate_simps = first_error_None validateServers_def validateStorage_def validateRateLimit_def
  validateOperations_def validateAuth_def validateSearch_def

section \<open>Patterns\<close>

lemma badPattern_iff: "badPattern p \<longleftrightarrow> Match p name = None"
  by (simp add: badPattern_def Match_bad)

lemma badPattern_plain: "plain p \<Longrightarrow> \<not> badPattern p"
  by (simp add: badPattern_def Match_plain)

lemma badPattern_star: "plain p \<Longrightarrow> p \<noteq> [] \<Longrightarrow> \<not> badPattern (p @ ''*'')"
  by (simp add: badPattern_def Match_plain_star)

text \<open>Every list of patterns a configuration holds.\<close>

definition all_patterns :: "Config \<Rightarrow> string list" where
  "all_patterns c = auth_SkipHTTPPaths (cfg_Auth c) @ auth_SkipGRPCMethods (cfg_Auth c)
     @ psk_HTTPPaths (auth_PSK (cfg_Auth c)) @ psk_GRPCMethods (auth_PSK (cfg_Auth c))
     @ idem_GRPCMethods (cfg_Idempotency c)
     @ concat (map (\<lambda>u. retry_Methods (hu_Retry (snd u))) (out_HTTP (cfg_Outbound c)))
     @ concat (map (\<lambda>u. retry_Methods (gu_Retry (snd u))) (out_GRPC (cfg_Outbound c)))"

lemma first_error_Cons: "first_error (x # cs) = None \<longleftrightarrow> x = None \<and> first_error cs = None"
  by (cases x) simp_all

lemma first_error_append: "first_error (cs @ ds) = None \<longleftrightarrow> first_error cs = None \<and> first_error ds = None"
  by (auto simp: first_error_None)

lemma first_error_map: "first_error (map f xs) = None \<longleftrightarrow> (\<forall>x \<in> set xs. f x = None)"
  by (simp add: first_error_None)

lemma validateClientPolicy_None:
  "validateClientPolicy name a r b t inProduction = None \<longleftrightarrow>
     \<not> (ca_Type a \<noteq> [] \<and> ca_Type a \<noteq> ''bearer'' \<and> ca_Type a \<noteq> ''psk'')
     \<and> \<not> (ca_Type a \<noteq> [] \<and> ca_Token a = [])
     \<and> \<not> (ca_Type a \<noteq> [] \<and> \<not> ctls_Enabled t \<and> \<not> ctls_AllowInsecure t)
     \<and> \<not> (ctls_Enabled t \<and> ctls_AllowInsecure t)
     \<and> \<not> (inProduction \<and> ca_Type a \<noteq> [] \<and> ctls_AllowInsecure t)
     \<and> \<not> (retry_MaxAttempts r < 1 \<or> retry_MaxAttempts r > 5 \<or> retry_InitialBackoff r \<le> 0
           \<or> retry_MaxBackoff r < retry_InitialBackoff r)
     \<and> (\<forall>p \<in> set (retry_Methods r). \<not> notMethodPattern p \<and> \<not> badPattern p)
     \<and> \<not> (breaker_Enabled b \<and> (breaker_FailureThreshold b = 0 \<or> breaker_OpenTimeout b \<le> 0))
     \<and> \<not> (ctls_Enabled t \<and> (ctls_CertFile t = []) \<noteq> (ctls_KeyFile t = []))"
  unfolding validateClientPolicy_def first_error_append first_error_Cons first_error_map
    refuse_None checkRetryMethod_None first_error.simps(1)
  by (simp only: simp_thms conj_assoc)

lemma validateHTTPUpstream_None:
  "validateHTTPUpstream inProduction (name, u) = None \<longleftrightarrow> hu_BaseURL u \<noteq> [] \<and> 0 < hu_Timeout u
     \<and> validateClientPolicy name (hu_Auth u) (hu_Retry u) (hu_Breaker u) (hu_TLS u) inProduction = None"
  by (auto simp: validateHTTPUpstream_def first_error_None)

lemma validateGRPCUpstream_None:
  "validateGRPCUpstream inProduction (name, u) = None \<longleftrightarrow> gu_Target u \<noteq> [] \<and> 0 < gu_Timeout u
     \<and> validateClientPolicy name (gu_Auth u) (gu_Retry u) (gu_Breaker u) (gu_TLS u) inProduction = None"
  by (auto simp: validateGRPCUpstream_def first_error_None)

lemma first_error_member: "first_error cs = None \<Longrightarrow> x \<in> set cs \<Longrightarrow> x = None"
  by (simp add: first_error_None)

lemma auth_patterns:
  assumes "validateAuth c = None"
  shows "p \<in> set (auth_SkipHTTPPaths (cfg_Auth c)) \<Longrightarrow> HasPrefix p ''/api/'' \<and> \<not> badPattern p"
    and "p \<in> set (auth_SkipGRPCMethods (cfg_Auth c)) \<Longrightarrow> \<not> notMethodPattern p \<and> \<not> badPattern p"
    and "p \<in> set (psk_HTTPPaths (auth_PSK (cfg_Auth c))) \<Longrightarrow> HasPrefix p ''/api/'' \<and> \<not> badPattern p"
    and "p \<in> set (psk_GRPCMethods (auth_PSK (cfg_Auth c))) \<Longrightarrow> \<not> notMethodPattern p \<and> \<not> badPattern p"
proof -
  note member = first_error_member [OF assms [unfolded validateAuth_def]]
  show "p \<in> set (auth_SkipHTTPPaths (cfg_Auth c)) \<Longrightarrow> HasPrefix p ''/api/'' \<and> \<not> badPattern p"
    using member [of "checkPath ''auth.skip_http_paths'' p"] unfolding checkPath_None set_append set_map by blast
  show "p \<in> set (auth_SkipGRPCMethods (cfg_Auth c)) \<Longrightarrow> \<not> notMethodPattern p \<and> \<not> badPattern p"
    using member [of "checkMethod ''auth.skip_grpc_methods'' p"] unfolding checkMethod_None set_append set_map by blast
  show "p \<in> set (psk_HTTPPaths (auth_PSK (cfg_Auth c))) \<Longrightarrow> HasPrefix p ''/api/'' \<and> \<not> badPattern p"
    using member [of "checkPath ''auth.psk.http_paths'' p"] unfolding checkPath_None set_append set_map by blast
  show "p \<in> set (psk_GRPCMethods (auth_PSK (cfg_Auth c))) \<Longrightarrow> \<not> notMethodPattern p \<and> \<not> badPattern p"
    using member [of "checkMethod ''auth.psk.grpc_methods'' p"] unfolding checkMethod_None set_append set_map by blast
qed

lemma idempotency_patterns:
  assumes "validateSearch c = None" and "p \<in> set (idem_GRPCMethods (cfg_Idempotency c))"
  shows "\<not> notMethodPattern p \<and> \<not> badPattern p"
  using first_error_member [OF assms(1) [unfolded validateSearch_def],
      of "checkMethod ''idempotency.grpc_methods'' p"] assms(2)
  unfolding checkMethod_None set_append set_map by blast

lemma accepted_patterns:
  assumes "Validate c = None" and "p \<in> set (all_patterns c)"
  shows "\<not> badPattern p"
proof -
  have auth: "validateAuth c = None" and search: "validateSearch c = None"
    and http: "\<forall>u \<in> set (out_HTTP (cfg_Outbound c)). validateHTTPUpstream (production c) u = None"
    and grpc: "\<forall>u \<in> set (out_GRPC (cfg_Outbound c)). validateGRPCUpstream (production c) u = None"
    using assms(1) by (simp_all add: Validate_None)
  have h: "\<not> badPattern q" if "u \<in> set (out_HTTP (cfg_Outbound c))" "q \<in> set (retry_Methods (hu_Retry (snd u)))" for u q
    using http that by (cases u) (auto simp: validateHTTPUpstream_None validateClientPolicy_None)
  have g: "\<not> badPattern q" if "u \<in> set (out_GRPC (cfg_Outbound c))" "q \<in> set (retry_Methods (gu_Retry (snd u)))" for u q
    using grpc that by (cases u) (auto simp: validateGRPCUpstream_None validateClientPolicy_None)
  from assms(2) show ?thesis
    unfolding all_patterns_def set_append Un_iff set_concat set_map
    using auth_patterns [OF auth, of p] idempotency_patterns [OF search, of p] h g by blast
qed

section \<open>What an accepted configuration guarantees\<close>

text \<open>A production configuration that is accepted, for the closed instances.\<close>

definition example_upstream :: GRPCUpstream where
  "example_upstream = \<lparr>gu_Target = ''dns:///authorization:9090'', gu_Timeout = second,
     gu_Auth = \<lparr>ca_Type = ''bearer'', ca_Token = ''t''\<rparr>,
     gu_Retry = \<lparr>retry_MaxAttempts = 3, retry_InitialBackoff = 1, retry_MaxBackoff = 2,
       retry_Methods = [''/a.B/*'']\<rparr>,
     gu_Breaker = \<lparr>breaker_Enabled = False, breaker_FailureThreshold = 0, breaker_OpenTimeout = 0\<rparr>,
     gu_TLS = \<lparr>ctls_Enabled = True, ctls_AllowInsecure = False, ctls_ServerName = [], ctls_CAFile = [],
       ctls_CertFile = [], ctls_KeyFile = []\<rparr>\<rparr>"

definition example_config :: Config where
  "example_config = setDefaults\<lparr>
     cfg_App := (cfg_App setDefaults)\<lparr>app_Env := ''production''\<rparr>,
     cfg_GRPC := (cfg_GRPC setDefaults)\<lparr>grpc_ReflectionEnabled := False,
       grpc_TLS := \<lparr>grpctls_Enabled = True, grpctls_CertFile = ''c'', grpctls_KeyFile = ''k'', grpctls_ClientCAFile = []\<rparr>\<rparr>,
     cfg_Database := (cfg_Database setDefaults)\<lparr>db_Enabled := True, db_DSN := ''dsn''\<rparr>,
     cfg_Swagger := \<lparr>swagger_Enabled = True, swagger_RequireAuth = True\<rparr>,
     cfg_Auth := (cfg_Auth setDefaults)\<lparr>auth_JWKSURL := ''https://identity/jwks''\<rparr>,
     cfg_Authorization := \<lparr>authz_Enabled = True\<rparr>,
     cfg_EventBus := (cfg_EventBus setDefaults)\<lparr>bus_Enabled := True\<rparr>,
     cfg_OpenSearch := (cfg_OpenSearch setDefaults)\<lparr>os_Enabled := True\<rparr>,
     cfg_Outbound := \<lparr>out_HTTP = [],
       out_GRPC = [(''authorization'', example_upstream), (''application'', example_upstream)]\<rparr>\<rparr>"

lemma health_pattern: "\<not> badPattern ''/grpc.health.v1.Health/*'' \<and> \<not> notMethodPattern ''/grpc.health.v1.Health/*''"
  using badPattern_star [of "''/grpc.health.v1.Health/''"] by (simp add: plain_def notMethodPattern_def)

lemma example_pattern: "\<not> badPattern ''/a.B/*'' \<and> \<not> notMethodPattern ''/a.B/*''"
  using badPattern_star [of "''/a.B/''"] by (simp add: plain_def notMethodPattern_def)

lemma version_pattern: "\<not> badPattern ''/api/v1/version''"
  by (rule badPattern_plain) (simp add: plain_def)

lemmas example_patterns = health_pattern example_pattern version_pattern

lemmas duration_simps = second_def minute_def hour_def

lemma ratio_ok: "\<not> f64_lt_zero 0x3FB999999999999A" "\<not> f64_gt_one 0x3FB999999999999A"
  by (simp_all add: f64_lt_zero_def f64_gt_one_def f64_nan_def)

lemma valid_names:
  "validMigrationTable ''platform''" "validMigrationTable ''search''" "validMigrationTable ''search_schema_migrations''"
  by (simp_all add: validMigrationTable_def is_lower_def is_digit_def)

lemma example_config_valid: "Validate example_config = None"
  unfolding Validate_None
  by (simp add: example_config_def setDefaults_def example_upstream_def first_error_None validateServers_def
      validateStorage_def validateRateLimit_def validateOperations_def validateAuth_def validateSearch_def
      validateEventBus_def validateGRPCUpstream_None validateClientPolicy_None valid_names ratio_ok isDBType_def
      production_def checkPath_None checkMethod_None example_patterns duration_simps)

text \<open>C17: Production hardening. A configuration accepted for production serves gRPC only over TLS and
  without reflection, serves the API documentation only behind authentication, verifies tokens
  against a named issuer, audience and key set, enforces authorization through a configured
  upstream, verifies OpenSearch certificates, and has TLS enabled for every upstream with credentials.\<close>

theorem Validate_production:
  assumes "Validate c = None" and "app_Env (cfg_App c) = ''production''"
  shows "(if grpc_Enabled (cfg_GRPC c) then grpctls_Enabled (grpc_TLS (cfg_GRPC c)) else True)
    \<and> \<not> grpc_ReflectionEnabled (cfg_GRPC c)
    \<and> (if swagger_Enabled (cfg_Swagger c) then swagger_RequireAuth (cfg_Swagger c) else True)
    \<and> auth_JWKSURL (cfg_Auth c) \<noteq> [] \<and> auth_Issuer (cfg_Auth c) \<noteq> [] \<and> auth_Audience (cfg_Auth c) \<noteq> []
    \<and> authz_Enabled (cfg_Authorization c)
    \<and> map_of (out_GRPC (cfg_Outbound c)) ''authorization'' \<noteq> None
    \<and> \<not> os_InsecureSkipVerify (cfg_OpenSearch c)
    \<and> list_all (\<lambda>(name, u). ca_Type (hu_Auth u) = [] \<or> ctls_Enabled (hu_TLS u)) (out_HTTP (cfg_Outbound c))
    \<and> list_all (\<lambda>(name, u). ca_Type (gu_Auth u) = [] \<or> ctls_Enabled (gu_TLS u)) (out_GRPC (cfg_Outbound c))"
proof -
  have prod: "production c" using assms(2) by (simp add: production_def)
  have servers: "validateServers c = None" and ops: "validateOperations c = None" and auth: "validateAuth c = None"
    and search: "validateSearch c = None"
    and http: "\<forall>u \<in> set (out_HTTP (cfg_Outbound c)). validateHTTPUpstream True u = None"
    and grpc: "\<forall>u \<in> set (out_GRPC (cfg_Outbound c)). validateGRPCUpstream True u = None"
    using assms(1) prod by (simp_all add: Validate_None)
  have h: "ca_Type (hu_Auth u) = [] \<or> ctls_Enabled (hu_TLS u)" if "(n, u) \<in> set (out_HTTP (cfg_Outbound c))" for n u
  proof -
    have "validateHTTPUpstream True (n, u) = None" using http that by blast
    then show ?thesis unfolding validateHTTPUpstream_None validateClientPolicy_None by blast
  qed
  have g: "ca_Type (gu_Auth u) = [] \<or> ctls_Enabled (gu_TLS u)" if "(n, u) \<in> set (out_GRPC (cfg_Outbound c))" for n u
  proof -
    have "validateGRPCUpstream True (n, u) = None" using grpc that by blast
    then show ?thesis unfolding validateGRPCUpstream_None validateClientPolicy_None by blast
  qed
  have "list_all (\<lambda>(name, u). ca_Type (hu_Auth u) = [] \<or> ctls_Enabled (hu_TLS u)) (out_HTTP (cfg_Outbound c))"
    using h by (auto simp: list_all_iff)
  moreover have "list_all (\<lambda>(name, u). ca_Type (gu_Auth u) = [] \<or> ctls_Enabled (gu_TLS u)) (out_GRPC (cfg_Outbound c))"
    using g by (auto simp: list_all_iff)
  moreover note servers [unfolded validateServers_def first_error_Cons refuse_None]
    ops [unfolded validateOperations_def first_error_Cons refuse_None]
    auth [unfolded validateAuth_def first_error_append first_error_Cons refuse_None]
    search [unfolded validateSearch_def first_error_append first_error_Cons refuse_None]
  ultimately show ?thesis using prod by simp
qed

theorem Validate_production_witness:
  "grpctls_Enabled (grpc_TLS (cfg_GRPC example_config)) \<and> authz_Enabled (cfg_Authorization example_config)
   \<and> \<not> os_InsecureSkipVerify (cfg_OpenSearch example_config)"
  using Validate_production [OF example_config_valid] by (simp add: example_config_def setDefaults_def)

text \<open>Route patterns. In an accepted configuration no pattern of any list, the exempted and the
  PSK-protected routes included, is one that matching calls bad, for whatever route it is tried on.\<close>

theorem Validate_patterns:
  assumes "Validate c = None"
  shows "list_all (\<lambda>p. Match p route \<noteq> None) (all_patterns c)"
  using accepted_patterns [OF assms] by (auto simp: list_all_iff badPattern_iff [of _ route])

theorem Validate_patterns_witness:
  "list_all (\<lambda>p. Match p ''/platform.search.v1.SearchService/Search'' \<noteq> None) (all_patterns example_config)
   \<and> all_patterns example_config \<noteq> []"
  using Validate_patterns [OF example_config_valid] by (simp add: all_patterns_def example_config_def setDefaults_def)

text \<open>Event consumption. With the event bus enabled, an accepted configuration has the Inbox
  database, gives a handler less time than the broker waits for its acknowledgement, backs off
  within its bounds, delivers at least once, and cleans the Inbox with a positive period and batch.\<close>

theorem Validate_event_bus:
  assumes "Validate c = None" and "bus_Enabled (cfg_EventBus c)"
  shows "db_Enabled (cfg_Database c) \<and> db_DSN (cfg_Database c) \<noteq> [] \<and> proj_Durable (cfg_Projection c) \<noteq> []
    \<and> 0 < bus_ConsumerHandlerTimeout (cfg_EventBus c)
    \<and> bus_ConsumerHandlerTimeout (cfg_EventBus c) < bus_ConsumerAckWait (cfg_EventBus c)
    \<and> 0 < bus_ConsumerRetryDelay (cfg_EventBus c)
    \<and> bus_ConsumerRetryDelay (cfg_EventBus c) \<le> bus_ConsumerMaxRetryDelay (cfg_EventBus c)
    \<and> 1 \<le> bus_ConsumerMaxDeliver (cfg_EventBus c) \<and> 0 < bus_InboxRetention (cfg_EventBus c)
    \<and> 0 < bus_InboxCleanupInterval (cfg_EventBus c) \<and> 1 \<le> bus_InboxCleanupBatchSize (cfg_EventBus c)"
proof -
  have storage: "validateStorage c = None" and search: "validateSearch c = None"
    and bus: "validateEventBus (cfg_EventBus c) = None"
    using assms(1) by (simp_all add: Validate_None)
  note storage [unfolded validateStorage_def first_error_Cons refuse_None]
    search [unfolded validateSearch_def first_error_append first_error_Cons refuse_None]
    bus [unfolded validateEventBus_def first_error_Cons refuse_None]
  then show ?thesis using assms(2) by (simp add: not_le not_less)
qed

theorem Validate_event_bus_witness:
  "bus_ConsumerHandlerTimeout (cfg_EventBus example_config) < bus_ConsumerAckWait (cfg_EventBus example_config)
   \<and> db_Enabled (cfg_Database example_config)"
proof -
  have "bus_Enabled (cfg_EventBus example_config)" by (simp add: example_config_def)
  from Validate_event_bus [OF example_config_valid this] show ?thesis by blast
qed

text \<open>Map order. Go iterates over the upstream maps in a random order; whether a configuration is
  accepted does not depend on it.\<close>

theorem Validate_map_order:
  assumes "set http = set (out_HTTP (cfg_Outbound c))" and "set grpc = set (out_GRPC (cfg_Outbound c))"
    and "distinct (map fst grpc)" and "distinct (map fst (out_GRPC (cfg_Outbound c)))"
  shows "Validate (c\<lparr>cfg_Outbound := \<lparr>out_HTTP = http, out_GRPC = grpc\<rparr>\<rparr>) = None \<longleftrightarrow> Validate c = None"
proof -
  have lookup: "map_of grpc = map_of (out_GRPC (cfg_Outbound c))"
    using assms(2-4) by (metis map_of_inject_set)
  let ?c = "c\<lparr>cfg_Outbound := \<lparr>out_HTTP = http, out_GRPC = grpc\<rparr>\<rparr>"
  have "validateServers ?c = validateServers c" "validateStorage ?c = validateStorage c"
    "validateRateLimit ?c = validateRateLimit c" "validateOperations ?c = validateOperations c"
    "production ?c = production c"
    by (simp_all add: validateServers_def validateStorage_def validateRateLimit_def validateOperations_def production_def)
  moreover from this have "validateAuth ?c = validateAuth c" "validateSearch ?c = validateSearch c"
    by (simp_all add: validateAuth_def validateSearch_def lookup)
  ultimately show ?thesis by (simp add: Validate_None assms(1,2))
qed

theorem Validate_map_order_witness:
  "Validate (example_config\<lparr>cfg_Outbound := \<lparr>out_HTTP = [],
     out_GRPC = [(''application'', example_upstream), (''authorization'', example_upstream)]\<rparr>\<rparr>) = None"
proof -
  have "out_HTTP (cfg_Outbound example_config) = []"
    "out_GRPC (cfg_Outbound example_config) = [(''authorization'', example_upstream), (''application'', example_upstream)]"
    by (simp_all add: example_config_def)
  then show ?thesis
    using Validate_map_order [of "[]" example_config "[(''application'', example_upstream), (''authorization'', example_upstream)]"]
      example_config_valid by (simp add: insert_commute)
qed

text \<open>The built-in defaults alone are accepted for development and refused for production, so
  production cannot start without being configured.\<close>

theorem defaults_development_only:
  "Validate setDefaults = None
   \<and> Validate (setDefaults\<lparr>cfg_App := (cfg_App setDefaults)\<lparr>app_Env := ''production''\<rparr>\<rparr>)
     = Some (Plain ''grpc tls must be enabled in production'')"
proof
  show "Validate setDefaults = None"
    unfolding Validate_None
    by (simp add: setDefaults_def first_error_None validateServers_def validateStorage_def validateRateLimit_def
        validateOperations_def validateAuth_def validateSearch_def validateEventBus_def valid_names ratio_ok
        production_def checkPath_None checkMethod_None example_patterns duration_simps)
next
  let ?c = "setDefaults\<lparr>cfg_App := (cfg_App setDefaults)\<lparr>app_Env := ''production''\<rparr>\<rparr>"
  have "validateServers ?c = Some (Plain ''grpc tls must be enabled in production'')"
    by (simp add: validateServers_def setDefaults_def valid_names production_def refuse_def)
  then show "Validate ?c = Some (Plain ''grpc tls must be enabled in production'')"
    by (simp add: Validate_def)
qed

text \<open>The check of the sampling ratio lets a NaN through: it compares with 0 and with 1, and both
  comparisons are false of a NaN.\<close>

theorem Validate_accepts_nan:
  "f64_nan 0x7FF8000000000001
   \<and> Validate (setDefaults\<lparr>cfg_Observability :=
        (cfg_Observability setDefaults)\<lparr>obs_TracingSampleRatio := 0x7FF8000000000001\<rparr>\<rparr>) = None"
proof
  show nan: "f64_nan 0x7FF8000000000001" by (simp add: f64_nan_def)
  have "\<not> f64_lt_zero 0x7FF8000000000001" "\<not> f64_gt_one 0x7FF8000000000001"
    by (simp_all add: f64_lt_zero_def f64_gt_one_def nan)
  then show "Validate (setDefaults\<lparr>cfg_Observability :=
        (cfg_Observability setDefaults)\<lparr>obs_TracingSampleRatio := 0x7FF8000000000001\<rparr>\<rparr>) = None"
    unfolding Validate_None
    by (simp add: setDefaults_def first_error_None validateServers_def validateStorage_def validateRateLimit_def
        validateOperations_def validateAuth_def validateSearch_def validateEventBus_def valid_names
        production_def checkPath_None checkMethod_None example_patterns duration_simps)
qed

text \<open>Loading. A configuration that is returned was accepted by validation as it is used, carries a
  well-formed profile taken from the flag or, without one, from the environment, and names the
  profile's file, if it was read, after the base file.\<close>

theorem LoadWithProfile_validated:
  assumes "LoadWithProfile v path explicitProfile w = (Inr c, w')"
  shows "Validate c = None \<and> validProfile (rt_ActiveProfile (cfg_Runtime c))
    \<and> (\<exists>w1. rt_ActiveProfile (cfg_Runtime c) = chooseProfile explicitProfile (vp_env v w1))
    \<and> mig_Schema (cfg_Migration c) = db_Schema (cfg_Database c)
    \<and> rt_ConfigFiles (cfg_Runtime c) \<in> {[path], [path, profileConfigPath path (rt_ActiveProfile (cfg_Runtime c))]}"
proof -
  have runtime: "Validate (c0\<lparr>cfg_Runtime := r\<rparr>) = Validate c0" for c0 r
    by (simp add: Validate_def validateServers_def validateStorage_def validateRateLimit_def validateOperations_def
        validateAuth_def validateSearch_def production_def)
  obtain w3 cfg files w4 where
      profile: "validProfile (chooseProfile explicitProfile (vp_env v w3))"
    and merge: "mergeProfile v path (chooseProfile explicitProfile (vp_env v w3)) w3 = (Inr files, w4)"
    and valid: "Validate (finishConfig cfg) = None"
    and c: "c = (finishConfig cfg)\<lparr>cfg_Runtime :=
      \<lparr>rt_ActiveProfile = chooseProfile explicitProfile (vp_env v w3), rt_ConfigFiles = files\<rparr>\<rparr>"
    using assms by (auto simp: LoadWithProfile_def Let_def split: prod.splits option.splits if_splits sum.splits)
  have "files \<in> {[path], [path, profileConfigPath path (chooseProfile explicitProfile (vp_env v w3))]}"
    using merge by (auto simp: mergeProfile_def Let_def split: if_splits option.splits prod.splits)
  then show ?thesis using profile valid by (auto simp: c runtime finishConfig_def)
qed

text \<open>A viper that reads nothing and decodes to a fixed configuration.\<close>

definition fixed_viper :: "Config \<Rightarrow> unit Viper" where
  "fixed_viper c = \<lparr>vp_bind = (\<lambda>_ w. (None, w)), vp_read = (\<lambda>_ w. (None, w)), vp_is_not_found = (\<lambda>_. False),
     vp_env = (\<lambda>_. '' Production ''), vp_stat = (\<lambda>_ _. Some (Plain ''no such file'')), vp_not_exist = (\<lambda>_. True),
     vp_merge = (\<lambda>_ w. (None, w)), vp_decode = (\<lambda>_ _. Inr c)\<rparr>"

lemma example_profile: "chooseProfile [] '' Production '' = ''production''"
  by (simp add: chooseProfile_def trim_eval ascii_lower_def char_of_def bit_0)

theorem LoadWithProfile_validated_witness:
  "\<exists>c. LoadWithProfile (fixed_viper example_config) ''config.yaml'' [] () = (Inr c, ())
     \<and> rt_ActiveProfile (cfg_Runtime c) = ''production'' \<and> Validate c = None"
proof -
  have "Validate (finishConfig example_config) = Validate example_config"
    by (simp add: finishConfig_def Validate_def validateServers_def validateStorage_def validateRateLimit_def
        validateOperations_def validateAuth_def validateSearch_def production_def)
  then have v: "Validate (finishConfig example_config) = None" by (simp add: example_config_valid)
  have p: "validProfile ''production''" by (simp add: validProfile_def is_lower_def)
  let ?c = "(finishConfig example_config)\<lparr>cfg_Runtime :=
      \<lparr>rt_ActiveProfile = ''production'', rt_ConfigFiles = [''config.yaml'']\<rparr>\<rparr>"
  have run: "LoadWithProfile (fixed_viper example_config) ''config.yaml'' [] () = (Inr ?c, ())"
    by (simp add: LoadWithProfile_def fixed_viper_def example_profile p v mergeProfile_def Let_def)
  have "Validate ?c = None" using LoadWithProfile_validated [OF run] by (rule conjunct1)
  with run show ?thesis by (intro exI [of _ ?c] conjI) simp_all
qed

end
