(* ===== verification/Auth.thy ===== *)
theory Auth
  imports Messages ConfigLoad
begin

text \<open>
  \<^verbatim>\<open>internal/auth\<close>: route patterns, the pre-shared key, and token verification. The JWKS verifier
  of the platform library and the JWT library are parameters.
\<close>

section \<open>Route patterns\<close>

fun MatchesAny :: "string \<Rightarrow> string list \<Rightarrow> bool" where
  "MatchesAny v [] = False"
| "MatchesAny v (p # ps) =
     (case Match p v of
        Some True \<Rightarrow> True
      | _ \<Rightarrow> MatchesAny v ps)"

lemma MatchesAny_iff: "MatchesAny v ps \<longleftrightarrow> (\<exists>p \<in> set ps. Match p v = Some True)"
  by (induction ps) (auto split: option.splits bool.splits)

section \<open>Pre-shared key\<close>

text \<open>\<^verbatim>\<open>subtle.ConstantTimeCompare\<close> of two slices is 1 exactly if they are equal.\<close>

definition VerifyPSK :: "string \<Rightarrow> string \<Rightarrow> bool" where
  "VerifyPSK authorization expected =
     (case Cut authorization (CHR '' '') of (scheme, supplied, ok) \<Rightarrow>
        if \<not> ok \<or> \<not> EqualFold scheme ''PSK'' \<or> supplied = [] \<or> length supplied \<noteq> length expected then False
        else supplied = expected)"

text \<open>The pre-shared key. An authorization header is accepted exactly if it is the scheme PSK, in
  any case, one space, and the configured key; an empty key is never accepted.\<close>

theorem VerifyPSK_iff:
  "VerifyPSK a key \<longleftrightarrow> key \<noteq> []
     \<and> (\<exists>scheme. CHR '' '' \<notin> set scheme \<and> EqualFold scheme ''PSK'' \<and> a = scheme @ CHR '' '' # key)"
proof
  assume v: "VerifyPSK a key"
  obtain scheme supplied ok where cut: "Cut a (CHR '' '') = (scheme, supplied, ok)" by (rule prod_cases3)
  with v have "ok" "EqualFold scheme ''PSK''" "supplied \<noteq> []" "supplied = key"
    by (auto simp: VerifyPSK_def simp del: EqualFold.simps split: if_splits)
  with cut Cut_foundD [of a "CHR '' ''" scheme supplied]
  show "key \<noteq> [] \<and> (\<exists>scheme. CHR '' '' \<notin> set scheme \<and> EqualFold scheme ''PSK'' \<and> a = scheme @ CHR '' '' # key)"
    by (auto simp del: EqualFold.simps)
next
  assume "key \<noteq> [] \<and> (\<exists>scheme. CHR '' '' \<notin> set scheme \<and> EqualFold scheme ''PSK'' \<and> a = scheme @ CHR '' '' # key)"
  then show "VerifyPSK a key" by (auto simp: VerifyPSK_def simp del: EqualFold.simps)
qed

section \<open>Tokens\<close>

text \<open>
  \<^verbatim>\<open>au_parse\<close> stands for \<^verbatim>\<open>jwt.ParseWithClaims\<close> with the issuer, expiration and issued-at options: it
  is given the key function and the issuer, and answers with the subject and the token's validity.
  \<^verbatim>\<open>au_sign\<close> stands for signing new claims, for a subject, an identifier and a lifetime, and
  \<^verbatim>\<open>au_random\<close> for \<^verbatim>\<open>randomID\<close>.
\<close>

record 'w AuthService =
  au_issuer :: string
  au_secret :: string
  au_ttl :: Duration
  au_clientID :: string
  au_clientSecret :: string
  au_verifier :: "(Ctx \<Rightarrow> string \<Rightarrow> ('w, err, Principal) call) option"
  au_parse :: "(string \<Rightarrow> err + string) \<Rightarrow> string \<Rightarrow> string \<Rightarrow> ('w, err, string \<times> bool) call"
  au_sign :: "string \<Rightarrow> string \<Rightarrow> string \<Rightarrow> Duration \<Rightarrow> string \<Rightarrow> ('w, err, string) call"
  au_random :: "('w, err, string) call"

definition Enabled :: "'w AuthService \<Rightarrow> bool" where
  "Enabled s \<longleftrightarrow> length (au_secret s) \<ge> 32 \<and> au_clientID s \<noteq> [] \<and> au_clientSecret s \<noteq> []"

definition Authenticate :: "'w AuthService \<Rightarrow> string \<Rightarrow> string \<Rightarrow> bool" where
  "Authenticate s clientID clientSecret =
     (if \<not> Enabled s then False else clientID = au_clientID s \<and> clientSecret = au_clientSecret s)"

definition Issue :: "'w AuthService \<Rightarrow> string \<Rightarrow> ('w, err, string) call" where
  "Issue s subject w =
     (if \<not> Enabled s then (Inl (Plain ''authentication is not configured''), w)
      else case au_random s w of
          (Inl e, w') \<Rightarrow> (Inl (prefixed ''create token id'' e), w')
        | (Inr jti, w') \<Rightarrow> au_sign s (au_issuer s) subject jti (au_ttl s) (au_secret s) w')"

text \<open>The key function: only HS256 tokens are verified with the secret.\<close>

definition signingKey :: "'w AuthService \<Rightarrow> string \<Rightarrow> err + string" where
  "signingKey s alg =
     (if alg \<noteq> ''HS256'' then Inl (Plain (''unexpected signing method '' @ alg)) else Inr (au_secret s))"

definition Parse :: "'w AuthService \<Rightarrow> string \<Rightarrow> ('w, err, string) call" where
  "Parse s raw w =
     (if \<not> Enabled s then (Inl (Plain ''authentication is not configured''), w)
      else case au_parse s (signingKey s) (au_issuer s) raw w of
          (Inl e, w') \<Rightarrow> (Inl (prefixed ''parse jwt'' e), w')
        | (Inr (subject, valid), w') \<Rightarrow>
            if \<not> valid then (Inl (Plain ''invalid jwt claims''), w') else (Inr subject, w'))"

definition Verify :: "'w AuthService \<Rightarrow> Ctx \<Rightarrow> string \<Rightarrow> ('w, err, Principal) call" where
  "Verify s ctx raw w =
     (case au_verifier s of
        Some verify \<Rightarrow> verify ctx raw w
      | None \<Rightarrow>
          (case Parse s raw w of
             (Inl e, w') \<Rightarrow> (Inl e, w')
           | (Inr subject, w') \<Rightarrow>
               (Inr \<lparr>pr_ID = subject, pr_Type = TypeUser, pr_TenantID = [], pr_MembershipID = []\<rparr>, w')))"

text \<open>\<^verbatim>\<open>New\<close> and \<^verbatim>\<open>NewRuntime\<close>, given the libraries and the constructor of the verifier.\<close>

definition NewAuth ::
    "((string \<Rightarrow> err + string) \<Rightarrow> string \<Rightarrow> string \<Rightarrow> ('w, err, string \<times> bool) call) \<Rightarrow>
     (string \<Rightarrow> string \<Rightarrow> string \<Rightarrow> Duration \<Rightarrow> string \<Rightarrow> ('w, err, string) call) \<Rightarrow>
     ('w, err, string) call \<Rightarrow> Config \<Rightarrow> 'w AuthService" where
  "NewAuth parse sign random c = \<lparr>au_issuer = jwt_Issuer (cfg_JWT c), au_secret = jwt_Secret (cfg_JWT c),
     au_ttl = jwt_TTL (cfg_JWT c), au_clientID = auth_ClientID (cfg_Auth c),
     au_clientSecret = auth_ClientSecret (cfg_Auth c), au_verifier = None,
     au_parse = parse, au_sign = sign, au_random = random\<rparr>"

definition NewAuthRuntime ::
    "(string \<Rightarrow> string \<Rightarrow> string \<Rightarrow> err + (Ctx \<Rightarrow> string \<Rightarrow> ('w, err, Principal) call)) \<Rightarrow>
     'w AuthService \<Rightarrow> Config \<Rightarrow> err + 'w AuthService" where
  "NewAuthRuntime newVerifier service c =
     (if auth_JWKSURL (cfg_Auth c) = [] then Inr service
      else case newVerifier (auth_JWKSURL (cfg_Auth c)) (auth_Issuer (cfg_Auth c)) (auth_Audience (cfg_Auth c)) of
          Inl e \<Rightarrow> Inl (prefixed ''configure identity token verifier'' e)
        | Inr verify \<Rightarrow> Inr (service\<lparr>au_verifier := Some verify\<rparr>))"

text \<open>Token verification falls back to shared-secret tokens only when no key set is configured. In an
  accepted production configuration every bearer token is decided by the identity service's
  verifier alone, whatever the shared secret is.\<close>

theorem production_tokens:
  assumes "Validate c = None" and "app_Env (cfg_App c) = ''production''"
    and "NewAuthRuntime newVerifier (NewAuth parse sign random c) c = Inr s"
  shows "\<exists>verify. newVerifier (auth_JWKSURL (cfg_Auth c)) (auth_Issuer (cfg_Auth c)) (auth_Audience (cfg_Auth c)) = Inr verify
    \<and> Verify s = verify"
proof -
  have "validateAuth c = None" using assms(1) by (simp add: Validate_None)
  then have "auth_JWKSURL (cfg_Auth c) \<noteq> []" using assms(2)
    unfolding validateAuth_def first_error_append first_error_Cons refuse_None production_def by simp
  then show ?thesis using assms(3)
    by (auto simp: NewAuthRuntime_def Verify_def fun_eq_iff split: sum.splits)
qed

definition example_principal :: Principal where
  "example_principal = \<lparr>pr_ID = ''u'', pr_Type = TypeUser, pr_TenantID = ''t'', pr_MembershipID = ''m''\<rparr>"

definition accept_token :: "string \<Rightarrow> Ctx \<Rightarrow> string \<Rightarrow> (unit, err, Principal) call" where
  "accept_token token ctx raw w =
     (if raw = token then Inr example_principal else Inl (Plain ''invalid token''), w)"

definition example_auth :: "unit AuthService" where
  "example_auth = NewAuth (\<lambda>_ _ _ w. (Inl (Plain ''no parser''), w)) (\<lambda>_ _ _ _ _ w. (Inr [], w)) (\<lambda>w. (Inr ''id'', w))
     example_config"

theorem production_tokens_witness:
  "Verify (example_auth\<lparr>au_verifier := Some (accept_token ''ok'')\<rparr>) = accept_token ''ok''"
proof -
  have env: "app_Env (cfg_App example_config) = ''production''" by (simp add: example_config_def)
  have "NewAuthRuntime (\<lambda>_ _ _. Inr (accept_token ''ok'')) example_auth example_config
      = Inr (example_auth\<lparr>au_verifier := Some (accept_token ''ok'')\<rparr>)"
    by (simp add: NewAuthRuntime_def example_config_def)
  from production_tokens [OF example_config_valid env this [unfolded example_auth_def]]
  show ?thesis by (simp add: example_auth_def)
qed

section \<open>Authentication of a gRPC call\<close>

text \<open>\<^verbatim>\<open>platformprincipal.WithContext\<close>.\<close>

definition withPrincipal :: "Principal \<Rightarrow> Ctx \<Rightarrow> Ctx" where
  "withPrincipal p ctx = ctx\<lparr>cx_principal := Some p\<rparr>"

definition pskPrincipal :: Principal where
  "pskPrincipal = \<lparr>pr_ID = ''search-service:psk'', pr_Type = TypeServiceAccount, pr_TenantID = [], pr_MembershipID = []\<rparr>"

definition authenticateGRPC :: "'w AuthService \<Rightarrow> Auth \<Rightarrow> Ctx \<Rightarrow> string \<Rightarrow> ('w, err, Ctx) call" where
  "authenticateGRPC service cfg ctx verb w =
     (let given = cx_incoming ctx ''authorization'' in
      if psk_Enabled (auth_PSK cfg) \<and> MatchesAny verb (psk_GRPCMethods (auth_PSK cfg)) then
        (if given = [] \<or> \<not> VerifyPSK (hd given) (psk_Key (auth_PSK cfg))
         then (Inl (StatusError CUnauthenticated ''missing or invalid PSK''), w)
         else (Inr (withPrincipal pskPrincipal ctx), w))
      else if MatchesAny verb (auth_SkipGRPCMethods cfg) then (Inr ctx, w)
      else if given = [] then (Inl (StatusError CUnauthenticated ''missing bearer token''), w)
      else case Cut (hd given) (CHR '' '') of (scheme, raw, ok) \<Rightarrow>
        if \<not> ok \<or> \<not> EqualFold scheme ''Bearer'' then (Inl (StatusError CUnauthenticated ''invalid bearer token''), w)
        else (case Verify service ctx raw w of
            (Inl _, w') \<Rightarrow> (Inl (StatusError CUnauthenticated ''invalid or expired token''), w')
          | (Inr identity, w') \<Rightarrow> (Inr (withPrincipal identity ctx), w')))"

lemma authenticateGRPC_outcome:
  "case authenticateGRPC service cfg ctx verb w of
     (Inl e, w') \<Rightarrow> status_code (Some e) = CUnauthenticated
   | (Inr ctx', w') \<Rightarrow>
       if psk_Enabled (auth_PSK cfg) \<and> MatchesAny verb (psk_GRPCMethods (auth_PSK cfg))
       then ctx' = withPrincipal pskPrincipal ctx \<and> w' = w
         \<and> (\<exists>a rest. cx_incoming ctx ''authorization'' = a # rest \<and> VerifyPSK a (psk_Key (auth_PSK cfg)))
       else if MatchesAny verb (auth_SkipGRPCMethods cfg) then ctx' = ctx \<and> w' = w
       else \<exists>scheme raw rest identity. cx_incoming ctx ''authorization'' = (scheme @ CHR '' '' # raw) # rest
         \<and> EqualFold scheme ''Bearer'' \<and> Verify service ctx raw w = (Inr identity, w')
         \<and> ctx' = withPrincipal identity ctx"
proof (cases "cx_incoming ctx ''authorization''")
  case Nil
  then show ?thesis by (auto simp: authenticateGRPC_def simp del: EqualFold.simps)
next
  case (Cons a rest)
  obtain scheme raw ok where cut: "Cut a (CHR '' '') = (scheme, raw, ok)" by (rule prod_cases3)
  then show ?thesis
    using Cons Cut_foundD [of a "CHR '' ''" scheme raw]
    by (auto simp: authenticateGRPC_def Let_def simp del: EqualFold.simps split: prod.splits sum.splits)
qed

text \<open>C16: A call gets past authentication in exactly one of three ways: on a PSK route with the
  configured key and then as the PSK service account; on an exempted route, with the context left
  as it was; or with a bearer token the verifier accepted, as the principal it names. A PSK route
  never falls back to a bearer token, and every refusal is Unauthenticated.\<close>

theorem authenticateGRPC_sound:
  "case authenticateGRPC service cfg ctx verb w of
     (Inl e, w') \<Rightarrow> status_code (Some e) = CUnauthenticated
   | (Inr ctx', w') \<Rightarrow>
       if psk_Enabled (auth_PSK cfg) \<and> MatchesAny verb (psk_GRPCMethods (auth_PSK cfg))
       then ctx' = withPrincipal pskPrincipal ctx \<and> w' = w
         \<and> (\<exists>a rest. cx_incoming ctx ''authorization'' = a # rest \<and> VerifyPSK a (psk_Key (auth_PSK cfg)))
       else if MatchesAny verb (auth_SkipGRPCMethods cfg) then ctx' = ctx \<and> w' = w
       else \<exists>scheme raw rest identity. cx_incoming ctx ''authorization'' = (scheme @ CHR '' '' # raw) # rest
         \<and> EqualFold scheme ''Bearer'' \<and> Verify service ctx raw w = (Inr identity, w')
         \<and> ctx' = withPrincipal identity ctx"
  by (rule authenticateGRPC_outcome)

lemma default_exemptions:
  "MatchesAny verb [''/grpc.health.v1.Health/*''] \<longleftrightarrow>
     prefix ''/grpc.health.v1.Health/'' verb \<and> CHR ''/'' \<notin> set (drop (length ''/grpc.health.v1.Health/'') verb)"
proof -
  have split: "''/grpc.health.v1.Health/*'' = ''/grpc.health.v1.Health/'' @ ''*''" by simp
  have "plain ''/grpc.health.v1.Health/''" "''/grpc.health.v1.Health/'' \<noteq> []" by (simp_all add: plain_def)
  from Match_plain_star [OF this, of verb] show ?thesis
    unfolding MatchesAny_iff split by (simp del: length_Cons)
qed

text \<open>The default exemption covers the health service only: with it and no PSK route, a call to a
  method of any other service without a token is refused.\<close>

theorem default_exemption_closed:
  assumes "auth_SkipGRPCMethods cfg = [''/grpc.health.v1.Health/*'']" and "\<not> psk_Enabled (auth_PSK cfg)"
    and "\<not> prefix ''/grpc.health.v1.Health/'' verb" and "cx_incoming ctx ''authorization'' = []"
  shows "authenticateGRPC service cfg ctx verb w = (Inl (StatusError CUnauthenticated ''missing bearer token''), w)"
  using assms by (simp only: authenticateGRPC_def Let_def default_exemptions simp_thms if_False if_True)

theorem default_exemption_closed_witness:
  "authenticateGRPC example_auth (cfg_Auth example_config) background ''/platform.search.v1.SearchService/Search'' ()
     = (Inl (StatusError CUnauthenticated ''missing bearer token''), ())"
  by (rule default_exemption_closed) (simp_all add: example_config_def setDefaults_def background_def)

end
