(* ===== verification/SearchAuth.thy ===== *)
theory SearchAuth
  imports Messages
begin

text \<open>
  \<^verbatim>\<open>internal/searchauth/resolver.go\<close>: the visibility tokens of a caller, derived from its principal and
  from the role bindings that the authorization service lists page by page.
\<close>

section \<open>The client\<close>

text \<open>
  The fields of the requests and responses the resolver uses. A nil binding reads as empty strings;
  a response without page information has no total.
\<close>

record Binding =
  bn_Status :: string
  bn_RoleId :: string

record ListBindingsRequest =
  lb_TenantId :: string
  lb_SubjectId :: string
  lb_Page :: uint32
  lb_PageSize :: uint32

record BindingsPage =
  bp_Bindings :: "Binding list"
  bp_Total :: "uint64 option"

type_synonym 'w BindingsClient = "Ctx \<Rightarrow> ListBindingsRequest \<Rightarrow> ('w, err, BindingsPage) call"

definition pageSize :: uint32 where
  "pageSize = 100"

definition ErrForbidden :: err where
  "ErrForbidden = Sentinel AccessForbidden"

text \<open>The library's \<^verbatim>\<open>principal.ErrMissing\<close>.\<close>

definition ErrMissing :: err where
  "ErrMissing = Sentinel (External ''principal missing'')"

text \<open>A nil resolver is \<^const>\<open>None\<close>; so is the result of \<^verbatim>\<open>New\<close> on a nil client.\<close>

definition NewResolver :: "'w BindingsClient option \<Rightarrow> 'w BindingsClient option" where
  "NewResolver client = client"

section \<open>Credentials\<close>

definition WithAuthorization :: "Ctx \<Rightarrow> string \<Rightarrow> Ctx" where
  "WithAuthorization ctx authorization =
     (if authorization = [] then ctx else append_outgoing [(''authorization'', authorization)] ctx)"

definition forwardIncomingAuthorization :: "Ctx \<Rightarrow> Ctx" where
  "forwardIncomingAuthorization ctx =
     (if outgoing_values ctx ''authorization'' \<noteq> [] then ctx
      else case cx_incoming ctx ''authorization'' of
          [] \<Rightarrow> ctx
        | a # _ \<Rightarrow> append_outgoing [(''authorization'', a)] ctx)"

section \<open>Tokens\<close>

fun collectRoles :: "Binding list \<Rightarrow> string set \<Rightarrow> string list \<Rightarrow> string set \<times> string list" where
  "collectRoles [] seen tokens = (seen, tokens)"
| "collectRoles (b # bs) seen tokens =
     (if bn_Status b \<noteq> ''active'' \<or> bn_RoleId b = [] then collectRoles bs seen tokens
      else if bn_RoleId b \<in> seen then collectRoles bs seen tokens
      else collectRoles bs (insert (bn_RoleId b) seen) (tokens @ [''role:'' @ bn_RoleId b]))"

text \<open>
  The loop over the pages. The first argument is the number of iterations the loop condition
  \<^verbatim>\<open>page <= 100\<close> still allows; the comparison with the total is on \<^verbatim>\<open>uint64\<close>.
\<close>

fun listPages ::
    "nat \<Rightarrow> 'w BindingsClient \<Rightarrow> Ctx \<Rightarrow> string \<Rightarrow> string \<Rightarrow> uint32 \<Rightarrow> string set \<Rightarrow> string list \<Rightarrow>
     ('w, err, string list) call" where
  "listPages 0 client ctx tenantID membershipID page seen tokens w =
     (Inl (Plain ''authorization bindings exceed pagination safety limit''), w)"
| "listPages (Suc n) client ctx tenantID membershipID page seen tokens w =
     (case client ctx \<lparr>lb_TenantId = tenantID, lb_SubjectId = membershipID, lb_Page = page, lb_PageSize = pageSize\<rparr> w of
        (Inl e, w') \<Rightarrow> (Inl (prefixed ''list authorization bindings'' e), w')
      | (Inr response, w') \<Rightarrow>
          (case collectRoles (bp_Bindings response) seen tokens of (seen', tokens') \<Rightarrow>
             if bp_Total response = None \<or> ucast page * ucast pageSize \<ge> the (bp_Total response)
               \<or> bp_Bindings response = []
             then (Inr tokens', w')
             else listPages n client ctx tenantID membershipID (page + 1) seen' tokens' w'))"

definition VisibilityTokens ::
    "'w BindingsClient option \<Rightarrow> Ctx \<Rightarrow> string \<Rightarrow> ('w, err, string list) call" where
  "VisibilityTokens r ctx tenantID w =
     (case cx_principal ctx of
        None \<Rightarrow> (Inl ErrMissing, w)
      | Some identity \<Rightarrow>
          if pr_TenantID identity \<noteq> [] \<and> pr_TenantID identity \<noteq> tenantID then (Inl ErrForbidden, w)
          else let tokens = [''user:'' @ pr_ID identity]
                 @ (if pr_MembershipID identity \<noteq> [] then [''membership:'' @ pr_MembershipID identity] else [])
            in case r of
                None \<Rightarrow> (Inr tokens, w)
              | Some client \<Rightarrow>
                  if pr_MembershipID identity = [] then (Inr tokens, w)
                  else listPages 100 client (forwardIncomingAuthorization ctx) tenantID
                         (pr_MembershipID identity) 1 {} tokens w)"

lemma listPages_last:
  assumes "client ctx \<lparr>lb_TenantId = tenantID, lb_SubjectId = membershipID, lb_Page = page, lb_PageSize = pageSize\<rparr> w = (Inr response, w')"
    and "bp_Total response = None \<or> ucast page * ucast pageSize \<ge> the (bp_Total response) \<or> bp_Bindings response = []"
    and "collectRoles (bp_Bindings response) seen tokens = (seen', tokens')" and "0 < n"
  shows "listPages n client ctx tenantID membershipID page seen tokens w = (Inr tokens', w')"
proof (cases n)
  case (Suc m)
  show ?thesis unfolding Suc listPages.simps(2) assms(1,3) prod.case sum.case if_P [OF assms(2)] by (rule refl)
qed (use assms(4) in simp)

section \<open>The roles of a list of bindings\<close>

definition activeRoles :: "Binding list \<Rightarrow> string list" where
  "activeRoles bs = map bn_RoleId (filter (\<lambda>b. bn_Status b = ''active'' \<and> bn_RoleId b \<noteq> []) bs)"

definition role_token :: "string \<Rightarrow> string" where
  "role_token r = ''role:'' @ r"

lemma activeRoles_append [simp]: "activeRoles (as @ bs) = activeRoles as @ activeRoles bs"
  by (simp add: activeRoles_def)

lemma collectRoles_fold:
  "collectRoles bs seen (pre @ map role_token rs) =
     (let (seen', rs') = fold push_unique (activeRoles bs) (seen, rs) in (seen', pre @ map role_token rs'))"
proof (induction bs arbitrary: seen rs)
  case (Cons b bs)
  show ?case
  proof (cases "bn_Status b \<noteq> ''active'' \<or> bn_RoleId b = []")
    case True
    then have "activeRoles (b # bs) = activeRoles bs" by (auto simp: activeRoles_def)
    then show ?thesis using True Cons.IH by simp
  next
    case False
    then have "activeRoles (b # bs) = bn_RoleId b # activeRoles bs" by (simp add: activeRoles_def)
    then show ?thesis using False Cons.IH [of seen rs] Cons.IH [of "insert (bn_RoleId b) seen" "rs @ [bn_RoleId b]"]
      by (simp add: push_unique_eval role_token_def)
  qed
qed (simp add: activeRoles_def)

lemma collectRoles_uniq:
  "collectRoles bs (set rs) (pre @ map role_token (uniq rs)) =
     (set (rs @ activeRoles bs), pre @ map role_token (uniq (rs @ activeRoles bs)))"
proof -
  have "fold push_unique (activeRoles bs) (set rs, uniq rs) = fold push_unique (rs @ activeRoles bs) ({}, [])"
    by (simp add: fold_push_unique_Nil)
  also have "\<dots> = (set (rs @ activeRoles bs), uniq (rs @ activeRoles bs))"
    by (rule fold_push_unique_Nil)
  finally show ?thesis by (simp only: collectRoles_fold Let_def prod.case)
qed

section \<open>Complete or refused\<close>

text \<open>
  The pagination contract of the authorization service: the bindings of a subject are a fixed list;
  page \<^verbatim>\<open>p\<close> of size 100 is its \<^verbatim>\<open>p\<close>-th stretch of 100, and every response carries the length.
\<close>

definition serves :: "'w BindingsClient \<Rightarrow> string \<Rightarrow> string \<Rightarrow> Binding list \<Rightarrow> bool" where
  "serves client tenantID membershipID bs \<longleftrightarrow> length bs < 2 ^ 64 \<and>
     (\<forall>ctx p w. 1 \<le> p \<and> p \<le> 100 \<longrightarrow>
       (\<exists>w'. client ctx \<lparr>lb_TenantId = tenantID, lb_SubjectId = membershipID, lb_Page = of_nat p, lb_PageSize = 100\<rparr> w
         = (Inr \<lparr>bp_Bindings = take 100 (drop (100 * (p - 1)) bs), bp_Total = Some (of_nat (length bs))\<rparr>, w')))"

lemma page_done:
  assumes "p \<le> 100" and "length (bs :: 'a list) < 2 ^ 64"
  shows "(of_nat (length bs) :: uint64) \<le> ucast (of_nat p :: uint32) * ucast (100 :: uint32) \<longleftrightarrow> length bs \<le> 100 * p"
proof -
  have "unat (ucast (of_nat p :: uint32) * ucast (100 :: uint32) :: uint64) = 100 * p"
    using assms(1) by (simp add: unat_word_ariths unsigned_ucast_eq unsigned_of_nat take_bit_eq_mod mult.commute)
  moreover have "unat (of_nat (length bs) :: uint64) = length bs"
    using assms(2) by (simp add: unsigned_of_nat take_bit_eq_mod)
  ultimately show ?thesis by (simp add: word_le_nat_alt)
qed

lemma listPages_complete:
  assumes "serves client tenantID m bs" and "p + n = 101" and "1 \<le> p" and "100 * (p - 1) < length bs \<or> p = 1"
  shows "fst (listPages n client ctx tenantID m (of_nat p)
           (set (activeRoles (take (100 * (p - 1)) bs)))
           (pre @ map role_token (uniq (activeRoles (take (100 * (p - 1)) bs)))) w)
    = (if length bs \<le> 10000 then Inr (pre @ map role_token (uniq (activeRoles bs)))
       else Inl (Plain ''authorization bindings exceed pagination safety limit''))"
  using assms(2-)
proof (induction n arbitrary: p w)
  case 0
  then show ?case by simp
next
  case (Suc n)
  let ?done = "take (100 * (p - 1)) bs"
  let ?page = "take 100 (drop (100 * (p - 1)) bs)"
  have p: "1 \<le> p" "p \<le> 100" using Suc.prems by auto
  obtain w' where call: "client ctx \<lparr>lb_TenantId = tenantID, lb_SubjectId = m, lb_Page = of_nat p, lb_PageSize = 100\<rparr> w
      = (Inr \<lparr>bp_Bindings = ?page, bp_Total = Some (of_nat (length bs))\<rparr>, w')"
    using assms(1) p unfolding serves_def by blast
  have upto: "?done @ ?page = take (100 * p) bs"
  proof -
    have "100 * p = 100 * (p - 1) + 100" using p by simp
    then show ?thesis by (metis take_add)
  qed
  have collect: "collectRoles ?page (set (activeRoles ?done)) (pre @ map role_token (uniq (activeRoles ?done)))
      = (set (activeRoles (take (100 * p) bs)), pre @ map role_token (uniq (activeRoles (take (100 * p) bs))))"
    by (simp only: collectRoles_uniq activeRoles_append upto [symmetric])
  have stop: "(of_nat (length bs) :: uint64) \<le> ucast (of_nat p :: uint32) * ucast (100 :: uint32) \<longleftrightarrow> length bs \<le> 100 * p"
    using assms(1) p page_done unfolding serves_def by blast
  show ?case
  proof (cases "length bs \<le> 100 * p")
    case True
    then have "take (100 * p) bs = bs" by simp
    moreover have "length bs \<le> 10000" using True p by simp
    ultimately show ?thesis using True stop call collect by (simp add: pageSize_def)
  next
    case False
    then have more: "\<not> (of_nat (length bs) :: uint64) \<le> ucast (of_nat p :: uint32) * ucast (100 :: uint32)"
      and "?page \<noteq> []"
      using stop p by auto
    then have goon: "\<not> (Some (of_nat (length bs) :: uint64) = None
        \<or> ucast (of_nat p :: uint32) * ucast (100 :: uint32) \<ge> the (Some (of_nat (length bs) :: uint64)) \<or> ?page = [])"
      by simp
    have suc: "(of_nat p :: uint32) + 1 = of_nat (Suc p)" by simp
    have step: "fst (listPages (Suc n) client ctx tenantID m (of_nat p) (set (activeRoles ?done))
        (pre @ map role_token (uniq (activeRoles ?done))) w)
      = fst (listPages n client ctx tenantID m (of_nat (Suc p)) (set (activeRoles (take (100 * p) bs)))
          (pre @ map role_token (uniq (activeRoles (take (100 * p) bs)))) w')"
      by (simp only: listPages.simps(2) pageSize_def call prod.case sum.case collect BindingsPage.simps
          goon if_False suc)
    show ?thesis
    proof (cases n)
      case 0
      then have "p = 100" using Suc.prems by simp
      then show ?thesis using step 0 False by simp
    next
      case (Suc n')
      have "fst (listPages n client ctx tenantID m (of_nat (Suc p)) (set (activeRoles (take (100 * (Suc p - 1)) bs)))
          (pre @ map role_token (uniq (activeRoles (take (100 * (Suc p - 1)) bs)))) w')
        = (if length bs \<le> 10000 then Inr (pre @ map role_token (uniq (activeRoles bs)))
           else Inl (Plain ''authorization bindings exceed pagination safety limit''))"
        using Suc.prems False p by (intro Suc.IH) auto
      with step show ?thesis by simp
    qed
  qed
qed

lemma role_token_fun: "role_token = (\<lambda>r. ''role:'' @ r)"
  by (simp add: fun_eq_iff role_token_def)

text \<open>C14: Complete or refused. If the authorization service keeps its pagination contract, a member of
  the tenant gets its user token, its membership token and one role token for every active binding,
  each role once and in the order listed, as long as there are at most 10,000 bindings; with more the
  call is refused. No caller is ever given a part of its roles.\<close>

theorem VisibilityTokens_complete:
  assumes "cx_principal ctx = Some identity"
    and "pr_TenantID identity = [] \<or> pr_TenantID identity = tenantID" and "pr_MembershipID identity \<noteq> []"
    and "serves client tenantID (pr_MembershipID identity) bs"
  shows "fst (VisibilityTokens (Some client) ctx tenantID w) =
    (if length bs \<le> 10000
     then Inr ([''user:'' @ pr_ID identity, ''membership:'' @ pr_MembershipID identity]
       @ map (\<lambda>r. ''role:'' @ r) (uniq (activeRoles bs)))
     else Inl (Plain ''authorization bindings exceed pagination safety limit''))"
proof -
  let ?pre = "[''user:'' @ pr_ID identity, ''membership:'' @ pr_MembershipID identity]"
  have none: "activeRoles [] = []" by (simp add: activeRoles_def)
  have "fst (listPages 100 client (forwardIncomingAuthorization ctx) tenantID (pr_MembershipID identity) 1 {} ?pre w) =
      (if length bs \<le> 10000 then Inr (?pre @ map role_token (uniq (activeRoles bs)))
       else Inl (Plain ''authorization bindings exceed pagination safety limit''))"
    using listPages_complete [OF assms(4), of 1 100 "forwardIncomingAuthorization ctx" ?pre w] by (simp add: none)
  moreover have "VisibilityTokens (Some client) ctx tenantID w
      = listPages 100 client (forwardIncomingAuthorization ctx) tenantID (pr_MembershipID identity) 1 {} ?pre w"
    using assms(1-3) by (auto simp: VisibilityTokens_def Let_def simp del: listPages.simps)
  ultimately show ?thesis by (simp add: role_token_fun)
qed

text \<open>A client over a fixed list of bindings.\<close>

definition serving :: "Binding list \<Rightarrow> unit BindingsClient" where
  "serving bs ctx rq w =
     (Inr \<lparr>bp_Bindings = take 100 (drop (100 * (unat (lb_Page rq) - 1)) bs), bp_Total = Some (of_nat (length bs))\<rparr>, w)"

lemma serving_serves: "length bs < 2 ^ 64 \<Longrightarrow> serves (serving bs) tenantID membershipID bs"
  by (auto simp: serves_def serving_def unsigned_of_nat take_bit_eq_mod)

definition example_ctx :: Ctx where
  "example_ctx = background\<lparr>cx_principal := Some
     \<lparr>pr_ID = ''u'', pr_Type = TypeUser, pr_TenantID = ''t'', pr_MembershipID = ''m''\<rparr>\<rparr>"

theorem VisibilityTokens_complete_witness:
  "fst (VisibilityTokens (Some (serving [\<lparr>bn_Status = ''active'', bn_RoleId = ''r1''\<rparr>,
       \<lparr>bn_Status = ''revoked'', bn_RoleId = ''r2''\<rparr>, \<lparr>bn_Status = ''active'', bn_RoleId = ''r1''\<rparr>])) example_ctx ''t'' ())
   = Inr [''user:u'', ''membership:m'', ''role:r1'']"
proof -
  let ?bs = "[\<lparr>bn_Status = ''active'', bn_RoleId = ''r1''\<rparr>,
       \<lparr>bn_Status = ''revoked'', bn_RoleId = ''r2''\<rparr>, \<lparr>bn_Status = ''active'', bn_RoleId = ''r1''\<rparr>]"
  have "length ?bs < 2 ^ 64" by simp
  from VisibilityTokens_complete [OF _ _ _ serving_serves [OF this], of example_ctx
      "\<lparr>pr_ID = ''u'', pr_Type = TypeUser, pr_TenantID = ''t'', pr_MembershipID = ''m''\<rparr>" "''t''" "()"]
  show ?thesis by (simp add: example_ctx_def activeRoles_def)
qed

lemma collectRoles_sound:
  assumes "[] \<notin> set rs" "distinct rs" "seen = set rs"
  shows "\<exists>rs'. collectRoles bs seen (pre @ map role_token rs) = (set rs', pre @ map role_token rs')
    \<and> distinct rs' \<and> [] \<notin> set rs'"
  using assms
proof (induction bs arbitrary: seen rs)
  case (Cons b bs)
  show ?case
  proof (cases "(bn_Status b \<noteq> ''active'' \<or> bn_RoleId b = []) \<or> bn_RoleId b \<in> seen")
    case True
    then have "collectRoles (b # bs) seen ts = collectRoles bs seen ts" for ts by auto
    then show ?thesis using Cons.IH [OF Cons.prems] by simp
  next
    case False
    then have eq: "collectRoles (b # bs) seen (pre @ map role_token rs)
        = collectRoles bs (insert (bn_RoleId b) seen) (pre @ map role_token (rs @ [bn_RoleId b]))"
      by (simp add: role_token_def)
    show ?thesis unfolding eq using False Cons.prems by (intro Cons.IH) auto
  qed
qed auto

lemma listPages_sound:
  assumes "fst (listPages n client ctx tenantID m page (set rs) (pre @ map role_token rs) w) = Inr ts"
    and "[] \<notin> set rs" "distinct rs"
  shows "\<exists>rs'. ts = pre @ map role_token rs' \<and> distinct rs' \<and> [] \<notin> set rs'"
  using assms
proof (induction n arbitrary: page rs w)
  case (Suc n)
  obtain res w1 where call: "client ctx \<lparr>lb_TenantId = tenantID, lb_SubjectId = m, lb_Page = page, lb_PageSize = pageSize\<rparr> w
      = (res, w1)" by (cases "client ctx \<lparr>lb_TenantId = tenantID, lb_SubjectId = m, lb_Page = page, lb_PageSize = pageSize\<rparr> w")
  then obtain response where res: "res = Inr response" using Suc.prems(1) by (cases res) auto
  obtain rs' where collect: "collectRoles (bp_Bindings response) (set rs) (pre @ map role_token rs)
      = (set rs', pre @ map role_token rs')" and ok: "distinct rs'" "[] \<notin> set rs'"
    using collectRoles_sound [OF Suc.prems(2,3) refl] by blast
  show ?case
  proof (cases "bp_Total response = None \<or> ucast page * ucast pageSize \<ge> the (bp_Total response)
               \<or> bp_Bindings response = []")
    case True
    then have "ts = pre @ map role_token rs'"
      using Suc.prems(1) by (simp only: listPages.simps(2) call res prod.case sum.case collect if_True fst_conv sum.inject)
    with ok show ?thesis by blast
  next
    case False
    then have "fst (listPages n client ctx tenantID m (page + 1) (set rs') (pre @ map role_token rs') w1) = Inr ts"
      using Suc.prems(1) by (simp only: listPages.simps(2) call res prod.case sum.case collect if_False)
    from Suc.IH [OF this ok(2,1)] show ?thesis .
  qed
qed simp

lemma VisibilityTokens_outcome:
  "case cx_principal ctx of
     None \<Rightarrow> VisibilityTokens r ctx tenantID w = (Inl ErrMissing, w)
   | Some identity \<Rightarrow>
       if pr_TenantID identity \<noteq> [] \<and> pr_TenantID identity \<noteq> tenantID
       then VisibilityTokens r ctx tenantID w = (Inl ErrForbidden, w)
       else case fst (VisibilityTokens r ctx tenantID w) of
           Inl e \<Rightarrow> r \<noteq> None \<and> pr_MembershipID identity \<noteq> []
         | Inr ts \<Rightarrow> \<exists>roles. distinct roles \<and> [] \<notin> set roles
             \<and> ts = (''user:'' @ pr_ID identity)
                 # (if pr_MembershipID identity = [] then [] else [''membership:'' @ pr_MembershipID identity])
                 @ map (\<lambda>r. ''role:'' @ r) roles"
proof (cases "cx_principal ctx")
  case (Some identity)
  let ?pre = "(''user:'' @ pr_ID identity)
      # (if pr_MembershipID identity = [] then [] else [''membership:'' @ pr_MembershipID identity])"
  have own: "\<exists>roles. distinct roles \<and> [] \<notin> set roles \<and> ?pre = ?pre @ map (\<lambda>r. ''role:'' @ r) roles"
    by (rule exI [of _ "[]"]) simp
  show ?thesis
  proof (cases "pr_TenantID identity \<noteq> [] \<and> pr_TenantID identity \<noteq> tenantID")
    case True
    then show ?thesis by (simp add: Some VisibilityTokens_def)
  next
    case False
    show ?thesis
    proof (cases "r = None \<or> pr_MembershipID identity = []")
      case True
      then have "VisibilityTokens r ctx tenantID w = (Inr ?pre, w)"
        using False by (auto simp: Some VisibilityTokens_def Let_def split: option.split)
      then show ?thesis using own False by (simp only: Some option.case fst_conv sum.case if_False append_Cons)
    next
      case no: False
      then obtain client where r: "r = Some client" by auto
      have run: "VisibilityTokens r ctx tenantID w = listPages 100 client (forwardIncomingAuthorization ctx) tenantID
          (pr_MembershipID identity) 1 {} ?pre w"
        using no False by (auto simp: Some r VisibilityTokens_def Let_def simp del: listPages.simps)
      show ?thesis
      proof (cases "fst (VisibilityTokens r ctx tenantID w)")
        case (Inl e)
        have "r \<noteq> None \<and> pr_MembershipID identity \<noteq> []" using no by simp
        then show ?thesis using False by (simp only: Some Inl option.case sum.case if_False simp_thms)
      next
        case (Inr ts)
        have "\<exists>rs'. ts = ?pre @ map role_token rs' \<and> distinct rs' \<and> [] \<notin> set rs'"
          using listPages_sound [of 100 client "forwardIncomingAuthorization ctx" tenantID "pr_MembershipID identity" 1
              "[]" ?pre w ts] Inr run by simp
        then have "\<exists>roles. distinct roles \<and> [] \<notin> set roles \<and> ts = ?pre @ map (\<lambda>r. ''role:'' @ r) roles"
          unfolding role_token_fun by blast
        then show ?thesis using False by (simp only: Some Inr option.case sum.case if_False append_Cons)
      qed
    qed
  qed
qed (simp add: VisibilityTokens_def)

section \<open>Where the roles come from\<close>

text \<open>
  A role that the authorization service listed for the membership of a principal in a tenant, as an active
  binding, in answer to a call on behalf of that principal.
\<close>

definition listed_role :: "'w BindingsClient option \<Rightarrow> Principal \<Rightarrow> string \<Rightarrow> string \<Rightarrow> bool" where
  "listed_role r identity tenantID role \<longleftrightarrow> role \<noteq> [] \<and> pr_MembershipID identity \<noteq> []
     \<and> (\<exists>client ctx page w response w' b. r = Some client \<and> cx_principal ctx = Some identity
          \<and> client ctx \<lparr>lb_TenantId = tenantID, lb_SubjectId = pr_MembershipID identity, lb_Page = page, lb_PageSize = 100\<rparr> w
              = (Inr response, w')
          \<and> b \<in> set (bp_Bindings response) \<and> bn_Status b = ''active'' \<and> bn_RoleId b = role)"

lemma collectRoles_listed:
  "collectRoles bs seen tokens = (seen', tokens') \<Longrightarrow> v \<in> set tokens' \<Longrightarrow>
     v \<in> set tokens \<or> (\<exists>b \<in> set bs. bn_Status b = ''active'' \<and> bn_RoleId b \<noteq> [] \<and> v = ''role:'' @ bn_RoleId b)"
  by (induction bs seen tokens rule: collectRoles.induct) (auto split: if_splits)

lemma listPages_listed:
  assumes "listPages n client ctx tenantID (pr_MembershipID identity) page seen tokens w = (Inr ts, w')" and "v \<in> set ts"
    and "cx_principal ctx = Some identity" and "pr_MembershipID identity \<noteq> []"
  shows "v \<in> set tokens \<or> (\<exists>role. listed_role (Some client) identity tenantID role \<and> v = ''role:'' @ role)"
  using assms(1)
proof (induction n arbitrary: page seen tokens w)
  case (Suc n)
  let ?rq = "\<lparr>lb_TenantId = tenantID, lb_SubjectId = pr_MembershipID identity, lb_Page = page, lb_PageSize = 100\<rparr>"
  obtain res w1 where call: "client ctx ?rq w = (res, w1)" by (cases "client ctx ?rq w")
  then obtain response where res: "res = Inr response" using Suc.prems by (cases res) (auto simp: pageSize_def)
  obtain seen1 tokens1 where collect: "collectRoles (bp_Bindings response) seen tokens = (seen1, tokens1)"
    by (cases "collectRoles (bp_Bindings response) seen tokens")
  have here: "v \<in> set tokens \<or> (\<exists>role. listed_role (Some client) identity tenantID role \<and> v = ''role:'' @ role)"
    if v: "v \<in> set tokens1"
  proof -
    from collectRoles_listed [OF collect v] show ?thesis
    proof (elim disjE bexE conjE)
      fix b
      assume "b \<in> set (bp_Bindings response)" "bn_Status b = ''active''" "bn_RoleId b \<noteq> []" and "v = ''role:'' @ bn_RoleId b"
      moreover from this have "listed_role (Some client) identity tenantID (bn_RoleId b)"
        unfolding listed_role_def using assms(3,4) call [unfolded res] by blast
      ultimately show ?thesis by blast
    qed simp
  qed
  show ?case
  proof (cases "bp_Total response = None \<or> ucast page * ucast pageSize \<ge> the (bp_Total response) \<or> bp_Bindings response = []")
    case True
    then have "ts = tokens1"
      using Suc.prems by (simp only: listPages.simps(2) pageSize_def call res prod.case sum.case collect if_True prod.inject sum.inject)
    then show ?thesis using here assms(2) by blast
  next
    case False
    then have "listPages n client ctx tenantID (pr_MembershipID identity) (page + 1) seen1 tokens1 w1 = (Inr ts, w')"
      using Suc.prems by (simp only: listPages.simps(2) pageSize_def call res prod.case sum.case collect if_False)
    from Suc.IH [OF this] here show ?thesis by blast
  qed
qed simp

lemma forwardIncoming_principal [simp]: "cx_principal (forwardIncomingAuthorization ctx) = cx_principal ctx"
  by (simp add: forwardIncomingAuthorization_def append_outgoing_def split: list.split)

lemma VisibilityTokens_listed:
  assumes "VisibilityTokens r ctx tenantID w = (Inr ts, w')" and "v \<in> set ts" and "cx_principal ctx = Some identity"
  shows "v = ''user:'' @ pr_ID identity \<or> (pr_MembershipID identity \<noteq> [] \<and> v = ''membership:'' @ pr_MembershipID identity)
    \<or> (\<exists>role. listed_role r identity tenantID role \<and> v = ''role:'' @ role)"
proof (cases "r = None \<or> pr_MembershipID identity = []")
  case True
  then show ?thesis using assms by (auto simp: VisibilityTokens_def Let_def split: if_splits option.splits)
next
  case False
  then obtain client where r: "r = Some client" and member: "pr_MembershipID identity \<noteq> []" by auto
  let ?pre = "[''user:'' @ pr_ID identity, ''membership:'' @ pr_MembershipID identity]"
  have "listPages 100 client (forwardIncomingAuthorization ctx) tenantID (pr_MembershipID identity) 1 {} ?pre w = (Inr ts, w')"
    using assms(1,3) member by (auto simp: VisibilityTokens_def r Let_def simp del: listPages.simps split: if_splits)
  from listPages_listed [OF this assms(2) _ member] assms(3) member show ?thesis by (auto simp: r)
qed

text \<open>Only the caller's own identity and roles. Whatever the authorization service answers, the
  tokens of a caller are its user token, its membership token if it has a membership, and role tokens
  with distinct non-empty role identifiers: no answer can add a tenant-wide, user or membership token.
  A caller without a principal or of another tenant gets none, without any call.\<close>

theorem VisibilityTokens_sound:
  "case cx_principal ctx of
     None \<Rightarrow> VisibilityTokens r ctx tenantID w = (Inl ErrMissing, w)
   | Some identity \<Rightarrow>
       if pr_TenantID identity \<noteq> [] \<and> pr_TenantID identity \<noteq> tenantID
       then VisibilityTokens r ctx tenantID w = (Inl ErrForbidden, w)
       else case fst (VisibilityTokens r ctx tenantID w) of
           Inl e \<Rightarrow> r \<noteq> None \<and> pr_MembershipID identity \<noteq> []
         | Inr ts \<Rightarrow> \<exists>roles. distinct roles \<and> [] \<notin> set roles
             \<and> ts = (''user:'' @ pr_ID identity)
                 # (if pr_MembershipID identity = [] then [] else [''membership:'' @ pr_MembershipID identity])
                 @ map (\<lambda>r. ''role:'' @ r) roles"
  by (rule VisibilityTokens_outcome)

section \<open>Bounded work and forwarded credentials\<close>

text \<open>The client with a counter of its calls.\<close>

definition counted :: "'w BindingsClient \<Rightarrow> ('w \<times> nat) BindingsClient" where
  "counted client ctx rq wn = (case client ctx rq (fst wn) of (res, w') \<Rightarrow> (res, (w', snd wn + 1)))"

lemma listPages_counted:
  "snd (snd (listPages n (counted client) ctx tenantID m page seen tokens (w, k))) \<le> k + n"
proof (induction n arbitrary: page seen tokens w k)
  case (Suc n)
  obtain res w1 where call: "client ctx \<lparr>lb_TenantId = tenantID, lb_SubjectId = m, lb_Page = page, lb_PageSize = pageSize\<rparr> w
      = (res, w1)" by (cases "client ctx \<lparr>lb_TenantId = tenantID, lb_SubjectId = m, lb_Page = page, lb_PageSize = pageSize\<rparr> w")
  have IH: "snd (snd (listPages n (counted client) ctx tenantID m p s t (w1, Suc k))) \<le> Suc (k + n)" for p s t
    using Suc.IH [of p s t w1 "Suc k"] by simp
  have cc: "counted client ctx \<lparr>lb_TenantId = tenantID, lb_SubjectId = m, lb_Page = page, lb_PageSize = pageSize\<rparr> (w, k)
      = (res, (w1, Suc k))" by (simp add: counted_def call)
  show ?case
    by (cases res) (simp_all add: cc IH split: prod.split)
qed simp

text \<open>C33: Bounded work. Resolving the tokens of one request calls the authorization service at most 100
  times, whatever it answers.\<close>

theorem VisibilityTokens_calls:
  "snd (snd (VisibilityTokens (Some (counted client)) ctx tenantID (w, k))) \<le> k + 100"
  using listPages_counted [of 100 client]
  by (simp add: VisibilityTokens_def Let_def del: listPages.simps split: option.split)

text \<open>Forwarded credentials. The calls carry exactly one source of authorization: what was already set
  on the outgoing metadata, and otherwise the first incoming authorization value, if there is one.\<close>

theorem forwarded_authorization:
  "outgoing_values (forwardIncomingAuthorization ctx) ''authorization'' =
     (if outgoing_values ctx ''authorization'' \<noteq> [] then outgoing_values ctx ''authorization''
      else take 1 (cx_incoming ctx ''authorization''))
   \<and> outgoing_values (WithAuthorization ctx a) ''authorization'' =
      outgoing_values ctx ''authorization'' @ (if a = [] then [] else [a])"
  by (auto simp: forwardIncomingAuthorization_def WithAuthorization_def outgoing_values_def append_outgoing_def
      split: list.split)

end
