(* ===== verification/SearchStore.thy ===== *)
theory SearchStore
  imports SearchService "HOL-Library.AList"
begin

text \<open>
  \<^verbatim>\<open>internal/searchstore/opensearch.go\<close>: the engine that keeps the projection in OpenSearch. The
  HTTP client (\<^verbatim>\<open>client.Transport.Perform\<close>, with its retries), the protobuf JSON codec and the JSON
  decoder of the search response are libraries and enter as the record \<^verbatim>\<open>Wire\<close>; the requests, their
  order, the query, the path of a document, the classification of statuses and the folding of the
  response are the code's.
\<close>

section \<open>Requests and responses\<close>

text \<open>
  JSON values the code builds. The members of an object are listed in the order in which the code
  writes them. \<^verbatim>\<open>JRaw\<close> is a \<^verbatim>\<open>json.RawMessage\<close>: text the protobuf codec produced.
\<close>

datatype json =
    JObj "(string \<times> json) list"
  | JArr "json list"
  | JStr string
  | JInt int
  | JBool bool
  | JRaw string

datatype http_method = GET | HEAD | POST | PUT | DELETE

record Request =
  rq_method :: http_method
  rq_path :: string
  rq_body :: "json option"

record Response =
  rs_status :: int
  rs_body :: string

record RawHit =
  rh_Source :: string
  rh_Score :: float64
  rh_Highlight :: "(string \<times> string list) list"

record RawSearch =
  rw_Took :: uint64
  rw_Total :: uint64
  rw_Hits :: "RawHit list"
  rw_Aggregations :: "(string \<times> (string \<times> uint64) list) list"

text \<open>
  \<^verbatim>\<open>wi_observe\<close> is the metrics registry when metrics are enabled: it counts one request under a
  status label.
\<close>

record 'w Wire =
  wi_perform :: "Ctx \<Rightarrow> Request \<Rightarrow> ('w, err, Response) call"
  wi_marshal :: "SearchDocument \<Rightarrow> err + string"
  wi_unmarshal :: "string \<Rightarrow> err + SearchDocument"
  wi_decode :: "string \<Rightarrow> err + RawSearch"
  wi_observe :: "(string \<Rightarrow> 'w \<Rightarrow> 'w) option"

record 'w Store =
  st_wire :: "'w Wire"
  st_index :: string

section \<open>One exchange\<close>

definition success :: "int \<Rightarrow> bool" where
  "success status \<longleftrightarrow> 200 \<le> status \<and> status < 300"

definition observe :: "'w Store \<Rightarrow> string \<Rightarrow> 'w \<Rightarrow> 'w" where
  "observe e status w = (case wi_observe (st_wire e) of None \<Rightarrow> w | Some count \<Rightarrow> count status w)"

text \<open>
  \<^verbatim>\<open>doJSON\<close> up to the decoding of the body; \<^verbatim>\<open>target\<close> is the decoder when the caller passed a
  target. The paths are built from escaped segments, so \<^verbatim>\<open>http.NewRequestWithContext\<close> accepts them.
\<close>

definition doJSON ::
    "'w Store \<Rightarrow> Ctx \<Rightarrow> http_method \<Rightarrow> string \<Rightarrow> json option \<Rightarrow> (string \<Rightarrow> err + 'a) \<Rightarrow> ('w, err, 'a) call" where
  "doJSON e ctx verb path body target w =
     (case wi_perform (st_wire e) ctx \<lparr>rq_method = verb, rq_path = path, rq_body = body\<rparr> w of
        (Inl err, w') \<Rightarrow> (Inl (suffixed (Sentinel SearchUnavailable) (err_text err)), observe e ''error'' w')
      | (Inr response, w') \<Rightarrow>
          let w'' = observe e (FormatInt (rs_status response)) w' in
          if rs_status response = 404 then (Inl (Sentinel SearchNotFound), w'')
          else if \<not> success (rs_status response) then (Inl (ResponseStatus (rs_status response)), w'')
          else (case target (rs_body response) of
              Inl err \<Rightarrow> (Inl (prefixed ''decode opensearch response'' err), w'')
            | Inr x \<Rightarrow> (Inr x, w'')))"

definition no_target :: "string \<Rightarrow> err + unit" where
  "no_target body = Inr ()"

fun to_call_err :: "(err + 'a) \<times> 'w \<Rightarrow> err option \<times> 'w" where
  "to_call_err (Inl e, w) = (Some e, w)"
| "to_call_err (Inr _, w) = (None, w)"

definition Ping :: "'w Store \<Rightarrow> Ctx \<Rightarrow> ('w, err) call_err" where
  "Ping e ctx w = to_call_err (doJSON e ctx GET ''/_cluster/health'' None no_target w)"

definition index_path :: "'w Store \<Rightarrow> string" where
  "index_path e = ''/'' @ PathEscape (st_index e)"

section \<open>The index\<close>

definition keyword :: json where
  "keyword = JObj [(''type'', JStr ''keyword''), (''ignore_above'', JInt 2048)]"

definition textWithKeyword :: json where
  "textWithKeyword = JObj [(''type'', JStr ''text''), (''fields'', JObj [(''keyword'', keyword)])]"

definition typed :: "string \<Rightarrow> json" where
  "typed t = JObj [(''type'', JStr t)]"

definition index_mapping :: json where
  "index_mapping = JObj
     [(''settings'', JObj [(''index'', JObj [(''number_of_shards'', JInt 1), (''number_of_replicas'', JInt 1)])]),
      (''mappings'', JObj [(''dynamic'', JBool False), (''properties'', JObj
        [(''id'', keyword), (''tenantId'', keyword), (''sourceService'', keyword), (''documentType'', keyword),
         (''sourceId'', keyword), (''applicationId'', keyword), (''title'', textWithKeyword),
         (''summary'', typed ''text''), (''content'', typed ''text''), (''url'', keyword), (''icon'', keyword),
         (''keywords'', textWithKeyword), (''attributes'', typed ''flat_object''),
         (''visibilityTokens'', keyword), (''permissionCode'', keyword), (''sourceVersion'', typed ''long''),
         (''sourceCreatedAt'', typed ''date''), (''sourceUpdatedAt'', typed ''date'')])])]"

definition confirmIndex :: "'w Store \<Rightarrow> Ctx \<Rightarrow> ('w, err) call_err" where
  "confirmIndex e ctx w =
     (case wi_perform (st_wire e) ctx \<lparr>rq_method = HEAD, rq_path = index_path e, rq_body = None\<rparr> w of
        (Inl err, w') \<Rightarrow> (Some err, w')
      | (Inr response, w') \<Rightarrow>
          if success (rs_status response) then (None, w')
          else (Some (suffixed (Sentinel SearchUnavailable)
            (''index confirmation status '' @ FormatInt (rs_status response))), w'))"

definition ensureIndex :: "'w Store \<Rightarrow> Ctx \<Rightarrow> ('w, err) call_err" where
  "ensureIndex e ctx w =
     (case wi_perform (st_wire e) ctx \<lparr>rq_method = HEAD, rq_path = index_path e, rq_body = None\<rparr> w of
        (Inl err, w') \<Rightarrow> (Some (suffixed (Sentinel SearchUnavailable) (''inspect index: '' @ err_text err)), w')
      | (Inr response, w') \<Rightarrow>
          if success (rs_status response) then (None, w')
          else if rs_status response \<noteq> 404
          then (Some (suffixed (Sentinel SearchUnavailable)
            (''inspect index status '' @ FormatInt (rs_status response))), w')
          else (case doJSON e ctx PUT (index_path e) (Some index_mapping) no_target w' of
              (Inl err, w'') \<Rightarrow>
                if as_response_status err = Some 400 then confirmIndex e ctx w''
                else (Some (prefixed ''create search index'' err), w'')
            | (Inr _, w'') \<Rightarrow> (None, w'')))"

section \<open>The query\<close>

definition allowedFilter :: "string \<Rightarrow> bool" where
  "allowedFilter field \<longleftrightarrow>
     field \<in> {''id'', ''sourceService'', ''documentType'', ''applicationId'', ''permissionCode''}
     \<or> (HasPrefix field ''attributes.'' \<and> length field \<le> 128)"

definition jstrs :: "string list \<Rightarrow> json" where
  "jstrs xs = JArr (map JStr xs)"

definition term1 :: "string \<Rightarrow> string \<Rightarrow> json" where
  "term1 field x = JObj [(''term'', JObj [(field, JStr x)])]"

definition terms :: "string \<Rightarrow> string list \<Rightarrow> json" where
  "terms field xs = JObj [(''terms'', JObj [(field, jstrs xs)])]"

fun requestFilters :: "(string \<times> string list option) list \<Rightarrow> json list" where
  "requestFilters [] = []"
| "requestFilters ((field, vs) # rest) =
     (case vs of
        None \<Rightarrow> requestFilters rest
      | Some xs \<Rightarrow> if allowedFilter field \<and> xs \<noteq> [] then terms field xs # requestFilters rest
                   else requestFilters rest)"

definition filterClauses :: "SearchRequest \<Rightarrow> string list \<Rightarrow> json list" where
  "filterClauses request visibility =
     [term1 ''tenantId'' (sr_TenantId request), terms ''visibilityTokens'' visibility]
     @ (if sr_DocumentTypes request \<noteq> [] then [terms ''documentType'' (sr_DocumentTypes request)] else [])
     @ (if sr_ApplicationIds request \<noteq> [] then [terms ''applicationId'' (sr_ApplicationIds request)] else [])
     @ requestFilters (sr_Filters request)"

definition mustClause :: "SearchRequest \<Rightarrow> json" where
  "mustClause request =
     (if TrimSpace (sr_Query request) \<noteq> []
      then JObj [(''multi_match'', JObj [(''query'', JStr (sr_Query request)),
        (''fields'', jstrs [''title^4'', ''keywords^3'', ''summary^2'', ''content'']),
        (''type'', JStr ''best_fields'')])]
      else JObj [(''match_all'', JObj [])])"

text \<open>
  \<^verbatim>\<open>int((request.Page - 1) * request.PageSize)\<close>: both operations are on \<^verbatim>\<open>uint32\<close> and wrap; the
  conversion to \<^verbatim>\<open>int\<close> comes after.
\<close>

definition pageOffset :: "SearchRequest \<Rightarrow> int" where
  "pageOffset request = uint ((sr_Page request - 1) * sr_PageSize request)"

definition highlightClause :: json where
  "highlightClause = JObj [(''encoder'', JStr ''html''),
     (''fields'', JObj [(''title'', JObj []), (''summary'', JObj []), (''content'', JObj [])]),
     (''pre_tags'', jstrs [''<mark>'']), (''post_tags'', jstrs [''</mark>''])]"

definition sortClause :: "SearchRequest \<Rightarrow> (string \<times> json) list" where
  "sortClause request =
     (case sr_Sort request of
        SortUpdatedAtDesc \<Rightarrow> [(''sort'', JArr [JObj [(''sourceUpdatedAt'', JStr ''desc'')]])]
      | SortUpdatedAtAsc \<Rightarrow> [(''sort'', JArr [JObj [(''sourceUpdatedAt'', JStr ''asc'')]])]
      | _ \<Rightarrow> [])"

text \<open>\<^verbatim>\<open>aggs[field+"_facet"] = ...\<close>: a repeated field overwrites its entry.\<close>

fun facetAggregations :: "string list \<Rightarrow> (string \<times> json) list \<Rightarrow> (string \<times> json) list" where
  "facetAggregations [] aggs = aggs"
| "facetAggregations (field # rest) aggs =
     (if allowedFilter field
      then facetAggregations rest (AList.update (field @ ''_facet'')
        (JObj [(''terms'', JObj [(''field'', JStr field), (''size'', JInt 50)])]) aggs)
      else facetAggregations rest aggs)"

definition buildSearchQuery :: "SearchRequest \<Rightarrow> string list \<Rightarrow> json" where
  "buildSearchQuery request visibility =
     (let aggs = facetAggregations (sr_FacetFields request) [] in
      JObj ([(''from'', JInt (pageOffset request)), (''size'', JInt (uint (sr_PageSize request))),
         (''track_total_hits'', JBool True),
         (''query'', JObj [(''bool'', JObj [(''must'', JArr [mustClause request]),
            (''filter'', JArr (filterClauses request visibility))])]),
         (''highlight'', highlightClause)]
       @ sortClause request
       @ (if aggs \<noteq> [] then [(''aggs'', JObj aggs)] else [])))"

section \<open>Queries\<close>

fun decodeHits :: "(string \<Rightarrow> err + SearchDocument) \<Rightarrow> RawHit list \<Rightarrow> err + SearchHit list" where
  "decodeHits unmarshal [] = Inr []"
| "decodeHits unmarshal (h # hs) =
     (case unmarshal (rh_Source h) of
        Inl e \<Rightarrow> Inl (prefixed ''decode search document'' e)
      | Inr d \<Rightarrow> (case decodeHits unmarshal hs of
            Inl e \<Rightarrow> Inl e
          | Inr hits \<Rightarrow> Inr (\<lparr>sh_Document = d, sh_Score = rh_Score h,
              sh_Highlights = map (\<lambda>(f, fs). \<lparr>hl_Field = f, hl_Fragments = fs\<rparr>) (rh_Highlight h)\<rparr> # hits)))"

definition decodeFacet :: "string \<times> (string \<times> uint64) list \<Rightarrow> Facet" where
  "decodeFacet fb = (case fb of (field, buckets) \<Rightarrow>
     \<lparr>fc_Field = TrimSuffix field ''_facet'',
      fc_Buckets = map (\<lambda>(k, n). \<lparr>fb_Value = k, fb_Count = n\<rparr>) buckets\<rparr>)"

definition Search :: "'w Store \<Rightarrow> Ctx \<Rightarrow> SearchRequest \<Rightarrow> string list \<Rightarrow> ('w, err, SearchResponse) call" where
  "Search e ctx request visibility w =
     (case doJSON e ctx POST (index_path e @ ''/_search'') (Some (buildSearchQuery request visibility))
             (wi_decode (st_wire e)) w of
        (Inl err, w') \<Rightarrow> (Inl err, w')
      | (Inr raw, w') \<Rightarrow>
          (case decodeHits (wi_unmarshal (st_wire e)) (rw_Hits raw) of
             Inl err \<Rightarrow> (Inl err, w')
           | Inr hits \<Rightarrow> (Inr \<lparr>sp_Hits = hits, sp_Total = rw_Total raw, sp_Page = sr_Page request,
               sp_PageSize = sr_PageSize request, sp_Facets = map decodeFacet (rw_Aggregations raw),
               sp_TookMilliseconds = rw_Took raw\<rparr>, w')))"

definition Suggest :: "'w Store \<Rightarrow> Ctx \<Rightarrow> SuggestRequest \<Rightarrow> string list \<Rightarrow> ('w, err, SuggestResponse) call" where
  "Suggest e ctx request visibility w =
     (case Search e ctx (empty_request\<lparr>sr_TenantId := sg_TenantId request, sr_Query := sg_Prefix request,
             sr_DocumentTypes := sg_DocumentTypes request, sr_ApplicationIds := sg_ApplicationIds request,
             sr_Page := 1, sr_PageSize := sg_Limit request\<rparr>) visibility w of
        (Inl err, w') \<Rightarrow> (Inl err, w')
      | (Inr result, w') \<Rightarrow>
          (Inr \<lparr>sq_Suggestions = map (\<lambda>hit. let d = sh_Document hit in
             \<lparr>sn_Text = sd_Title d, sn_DocumentType = sd_DocumentType d, sn_SourceId = sd_SourceId d,
              sn_Url = sd_Url d\<rparr>) (sp_Hits result)\<rparr>, w'))"

definition Get :: "'w Store \<Rightarrow> Ctx \<Rightarrow> string \<Rightarrow> string \<Rightarrow> string list \<Rightarrow> ('w, err, SearchDocument) call" where
  "Get e ctx tenantID ident visibility w =
     (case Search e ctx (empty_request\<lparr>sr_TenantId := tenantID, sr_Filters := [(''id'', Some [ident])],
             sr_Page := 1, sr_PageSize := 1\<rparr>) visibility w of
        (Inl err, w') \<Rightarrow> (Inl err, w')
      | (Inr response, w') \<Rightarrow>
          (case sp_Hits response of
             [] \<Rightarrow> (Inl (Sentinel SearchNotFound), w')
           | hit # _ \<Rightarrow> (Inr (sh_Document hit), w')))"

section \<open>Writes\<close>

definition document_path :: "'w Store \<Rightarrow> string \<Rightarrow> int64 \<Rightarrow> string" where
  "document_path e ident version =
     index_path e @ ''/_doc/'' @ PathEscape ident
       @ ''?version_type=external_gte&version='' @ FormatInt (sint version)"

text \<open>One iteration of each loop: the error that ends it, or nil to go on.\<close>

definition upsertOne :: "'w Store \<Rightarrow> Ctx \<Rightarrow> SearchDocument \<Rightarrow> ('w, err) call_err" where
  "upsertOne e ctx document w =
     (case wi_marshal (st_wire e) document of
        Inl err \<Rightarrow> (Some err, w)
      | Inr data \<Rightarrow>
          (case doJSON e ctx PUT (document_path e (sd_Id document) (sd_SourceVersion document))
                  (Some (JRaw data)) no_target w of
             (Inl err, w') \<Rightarrow>
               if as_response_status err = Some 409 then (None, w') else (Some err, w')
           | (Inr _, w') \<Rightarrow> (None, w')))"

definition deleteOne :: "'w Store \<Rightarrow> Ctx \<Rightarrow> DocumentKey \<Rightarrow> ('w, err) call_err" where
  "deleteOne e ctx document w =
     (let ident = CanonicalID (dk_TenantId document) (dk_SourceService document)
                    (dk_DocumentType document) (dk_SourceId document) in
      case doJSON e ctx DELETE (document_path e ident (dk_SourceVersion document)) None no_target w of
        (Inl err, w') \<Rightarrow>
          if errors_is err SearchNotFound then (None, w')
          else if as_response_status err = Some 409 then (None, w')
          else (Some err, w')
      | (Inr _, w') \<Rightarrow> (None, w'))"

fun Upsert :: "'w Store \<Rightarrow> Ctx \<Rightarrow> SearchDocument list \<Rightarrow> ('w, err) call_err" where
  "Upsert e ctx [] w = (None, w)"
| "Upsert e ctx (d # ds) w =
     (case upsertOne e ctx d w of
        (Some err, w') \<Rightarrow> (Some err, w')
      | (None, w') \<Rightarrow> Upsert e ctx ds w')"

fun Delete :: "'w Store \<Rightarrow> Ctx \<Rightarrow> DocumentKey list \<Rightarrow> ('w, err) call_err" where
  "Delete e ctx [] w = (None, w)"
| "Delete e ctx (k # ks) w =
     (case deleteOne e ctx k w of
        (Some err, w') \<Rightarrow> (Some err, w')
      | (None, w') \<Rightarrow> Delete e ctx ks w')"

definition store_engine :: "'w Store \<Rightarrow> 'w Engine" where
  "store_engine e = \<lparr>eng_Ping = Ping e, eng_Search = Search e, eng_Suggest = Suggest e,
     eng_Get = Get e, eng_Upsert = Upsert e, eng_Delete = Delete e\<rparr>"

section \<open>How an exchange ends\<close>

lemma doJSON_cases:
  obtains (transport) err w1 where
      "wi_perform (st_wire e) ctx \<lparr>rq_method = verb, rq_path = path, rq_body = body\<rparr> w = (Inl err, w1)"
      "doJSON e ctx verb path body target w
        = (Inl (suffixed (Sentinel SearchUnavailable) (err_text err)), observe e ''error'' w1)"
  | (missing) r w1 where
      "wi_perform (st_wire e) ctx \<lparr>rq_method = verb, rq_path = path, rq_body = body\<rparr> w = (Inr r, w1)"
      "rs_status r = 404"
      "doJSON e ctx verb path body target w = (Inl (Sentinel SearchNotFound), observe e ''404'' w1)"
  | (refused) r w1 where
      "wi_perform (st_wire e) ctx \<lparr>rq_method = verb, rq_path = path, rq_body = body\<rparr> w = (Inr r, w1)"
      "rs_status r \<noteq> 404" "\<not> success (rs_status r)"
      "doJSON e ctx verb path body target w
        = (Inl (ResponseStatus (rs_status r)), observe e (FormatInt (rs_status r)) w1)"
  | (answered) r w1 where
      "wi_perform (st_wire e) ctx \<lparr>rq_method = verb, rq_path = path, rq_body = body\<rparr> w = (Inr r, w1)"
      "success (rs_status r)"
      "doJSON e ctx verb path body target w
        = (map_sum (prefixed ''decode opensearch response'') id (target (rs_body r)),
           observe e (FormatInt (rs_status r)) w1)"
proof (cases "wi_perform (st_wire e) ctx \<lparr>rq_method = verb, rq_path = path, rq_body = body\<rparr> w")
  case (Pair res w1)
  have f404: "FormatInt 404 = ''404''"
    by (simp add: format_eval)
  have ok: "success (404 :: int) = False" by (simp add: success_def)
  show ?thesis
  proof (cases res)
    case (Inl err)
    then show ?thesis using Pair transport by (simp add: doJSON_def)
  next
    case (Inr r)
    then show ?thesis
      using Pair missing [of r w1] refused [of r w1] answered [of r w1]
      by (cases "rs_status r = 404"; cases "success (rs_status r)"; cases "target (rs_body r)")
        (simp_all add: doJSON_def f404 ok)
  qed
qed

text \<open>One exchange with OpenSearch. A transport failure and every status outside 2xx other than 404
  come back as an error that is ErrUnavailable, 404 as ErrNotFound, and only a 2xx answer reaches the
  decoder. Exactly one request is sent, and it is counted once, under its status or as an error.\<close>

theorem doJSON_outcome:
  "case wi_perform (st_wire e) ctx \<lparr>rq_method = verb, rq_path = path, rq_body = body\<rparr> w of
     (Inl err, w1) \<Rightarrow> (\<exists>f. doJSON e ctx verb path body target w = (Inl f, observe e ''error'' w1)
        \<and> errors_is f SearchUnavailable \<and> as_response_status f = None)
   | (Inr r, w1) \<Rightarrow>
       snd (doJSON e ctx verb path body target w) = observe e (FormatInt (rs_status r)) w1
       \<and> (if 200 \<le> rs_status r \<and> rs_status r < 300
          then fst (doJSON e ctx verb path body target w)
            = map_sum (prefixed ''decode opensearch response'') id (target (rs_body r))
          else \<exists>f. fst (doJSON e ctx verb path body target w) = Inl f
            \<and> errors_is f (if rs_status r = 404 then SearchNotFound else SearchUnavailable)
            \<and> as_response_status f = (if rs_status r = 404 then None else Some (rs_status r)))"
proof -
  have f404: "FormatInt 404 = ''404''"
    by (simp add: format_eval)
  show ?thesis
    by (cases rule: doJSON_cases [of e ctx verb path body w target])
      (auto simp: f404 success_def suffixed_def)
qed

text \<open>Start-up. ensureIndex reports success only after OpenSearch has confirmed the index: by a 2xx
  answer to the inspection, to the creation, or, when the creation is refused with status 400
  because another replica was faster, to a second inspection. The creation is sent only after a 404.\<close>

theorem ensureIndex_confirmed:
  assumes "ensureIndex e ctx w = (None, w')"
  shows "\<exists>r w1. wi_perform (st_wire e) ctx \<lparr>rq_method = HEAD, rq_path = index_path e, rq_body = None\<rparr> w = (Inr r, w1)
    \<and> (if success (rs_status r) then w' = w1
       else rs_status r = 404 \<and> (\<exists>r2 w2.
         wi_perform (st_wire e) ctx \<lparr>rq_method = PUT, rq_path = index_path e, rq_body = Some index_mapping\<rparr> w1
           = (Inr r2, w2)
         \<and> (if success (rs_status r2) then w' = observe e (FormatInt (rs_status r2)) w2
            else rs_status r2 = 400 \<and> (\<exists>r3.
              wi_perform (st_wire e) ctx \<lparr>rq_method = HEAD, rq_path = index_path e, rq_body = None\<rparr>
                (observe e ''400'' w2) = (Inr r3, w') \<and> success (rs_status r3)))))"
proof -
  have f400: "FormatInt 400 = ''400''"
    by (simp add: format_eval)
  obtain r w1 where head: "wi_perform (st_wire e) ctx
      \<lparr>rq_method = HEAD, rq_path = index_path e, rq_body = None\<rparr> w = (Inr r, w1)"
    using assms by (auto simp: ensureIndex_def split: sum.splits prod.splits)
  show ?thesis
  proof (cases "success (rs_status r)")
    case True
    then show ?thesis using assms head by (simp add: ensureIndex_def)
  next
    case False
    then have "rs_status r = 404" using assms head by (auto simp: ensureIndex_def split: if_splits)
    moreover have "(case doJSON e ctx PUT (index_path e) (Some index_mapping) no_target w1 of
              (Inl err, w'') \<Rightarrow>
                if as_response_status err = Some 400 then confirmIndex e ctx w''
                else (Some (prefixed ''create search index'' err), w'')
            | (Inr _, w'') \<Rightarrow> (None, w'')) = (None, w')"
      using assms head False \<open>rs_status r = 404\<close> by (simp add: ensureIndex_def)
    ultimately show ?thesis using head False
      by (cases rule: doJSON_cases [of e ctx PUT "index_path e" "Some index_mapping" w1 no_target])
        (auto simp: suffixed_def confirmIndex_def no_target_def f400
          split: if_splits sum.splits prod.splits)
  qed
qed

text \<open>A server that answers with the statuses of a script, one after the other.\<close>

definition scripted :: "int list Store" where
  "scripted = \<lparr>st_wire = \<lparr>
     wi_perform = (\<lambda>ctx rq script. case script of
         [] \<Rightarrow> (Inl (Plain ''connection refused''), [])
       | status # rest \<Rightarrow> (Inr \<lparr>rs_status = status, rs_body = ''''\<rparr>, rest)),
     wi_marshal = (\<lambda>_. Inr ''''), wi_unmarshal = (\<lambda>_. Inr empty_document),
     wi_decode = (\<lambda>_. Inr \<lparr>rw_Took = 0, rw_Total = 0, rw_Hits = [], rw_Aggregations = []\<rparr>),
     wi_observe = None\<rparr>, st_index = ''search''\<rparr>"

text \<open>Another replica creates the index between the inspection and the creation.\<close>

theorem ensureIndex_confirmed_witness:
  "\<exists>r w1. wi_perform (st_wire scripted) background
       \<lparr>rq_method = HEAD, rq_path = index_path scripted, rq_body = None\<rparr> [404, 400, 200] = (Inr r, w1)
     \<and> rs_status r = 404 \<and> w1 = [400, 200]"
proof -
  have "ensureIndex scripted background [404, 400, 200] = (None, [])"
    by (simp add: ensureIndex_def confirmIndex_def doJSON_def scripted_def success_def observe_def)
  from ensureIndex_confirmed [OF this] show ?thesis
    by (auto simp: scripted_def success_def)
qed

section \<open>Paths\<close>

lemma document_path_split:
  "document_path e ident version =
     (index_path e @ ''/_doc/'') @ (PathEscape ident @ CHR ''?'' # ''version_type=external_gte&version=''
       @ FormatInt (sint version))"
  by (simp add: document_path_def)

text \<open>What the server reads from a path: the identifier and the version, if it is a document's path.\<close>

definition parse_document_path :: "string \<Rightarrow> string \<Rightarrow> (string \<times> int) option" where
  "parse_document_path index path =
     (let base = ''/'' @ PathEscape index @ ''/_doc/'' in
      if \<not> HasPrefix path base then None
      else case Cut (drop (length base) path) (CHR ''?'') of (segment, query, found) \<Rightarrow>
        if \<not> found \<or> CHR ''/'' \<in> set segment \<or> \<not> HasPrefix query ''version_type=external_gte&version='' then None
        else Some (PathUnescape segment, ParseInt (drop (length ''version_type=external_gte&version='') query)))"

lemma parse_document_path [simp]:
  "parse_document_path (st_index e) (document_path e ident version) = Some (ident, sint version)"
  unfolding document_path_split parse_document_path_def Let_def index_path_def
  by (simp add: PathEscape_no_slash PathEscape_no_question)

text \<open>The path of a write determines the document and the version it is for. Escaping keeps an
  identifier with slashes, question marks or percent signs inside its one path segment, so a server
  that splits the path reads back the identifier and the version, and no two writes share a path
  unless they are for the same document and version.\<close>

theorem document_path_roundtrip:
  "parse_document_path (st_index e) (document_path e a v) = Some (a, sint v)
   \<and> (document_path e a v = document_path e b v' \<longleftrightarrow> a = b \<and> v = v')"
proof -
  have "a = b \<and> v = v'" if "document_path e a v = document_path e b v'"
  proof -
    have "parse_document_path (st_index e) (document_path e a v) = parse_document_path (st_index e) (document_path e b v')"
      using that by simp
    then show ?thesis by (auto intro: signed_word_eqI)
  qed
  then show ?thesis by auto
qed

end
