(* ===== verification/VersionedIndex.thy ===== *)
theory VersionedIndex
  imports GoErrors
begin

text \<open>
  The promise written at the \<^verbatim>\<open>Engine\<close> interface, "implementations must apply source_version
  monotonically so delayed events cannot overwrite newer documents", as an abstract state machine
  with one rule, and what follows from it for deliveries that repeat, reorder and fail.
\<close>

section \<open>Latest version wins\<close>

text \<open>
  An index remembers for each identifier the version and the payload of the last write it took; a
  deletion is a write whose payload says so. A write is taken unless a newer one is remembered.
\<close>

type_synonym 'p index_view = "string \<rightharpoonup> int \<times> 'p"

definition admissible :: "string \<Rightarrow> int \<Rightarrow> 'p index_view \<Rightarrow> bool" where
  "admissible k v m \<longleftrightarrow> (case m k of None \<Rightarrow> True | Some (v0, _) \<Rightarrow> v0 \<le> v)"

definition latest :: "string \<Rightarrow> int \<Rightarrow> 'p \<Rightarrow> 'p index_view \<Rightarrow> 'p index_view" where
  "latest k v p m = (if admissible k v m then m(k \<mapsto> (v, p)) else m)"

lemma latest_other [simp]: "k' \<noteq> k \<Longrightarrow> latest k v p m k' = m k'"
  by (simp add: latest_def)

lemma latest_same:
  "latest k v p m k = (case m k of None \<Rightarrow> Some (v, p)
     | Some (v0, p0) \<Rightarrow> if v0 \<le> v then Some (v, p) else Some (v0, p0))"
  by (simp add: latest_def admissible_def split: option.split)

lemma latest_idem [simp]: "latest k v p (latest k v p m) = latest k v p m"
  by (auto simp: latest_def admissible_def)

text \<open>Versions never go back: the order in which an index may evolve.\<close>

definition version_le :: "'p index_view \<Rightarrow> 'p index_view \<Rightarrow> bool" where
  "version_le m m' \<longleftrightarrow> (\<forall>k v p. m k = Some (v, p) \<longrightarrow> (\<exists>v' p'. m' k = Some (v', p') \<and> v \<le> v'))"

lemma version_le_refl [simp]: "version_le m m"
  by (auto simp: version_le_def)

lemma version_le_trans: "version_le m1 m2 \<Longrightarrow> version_le m2 m3 \<Longrightarrow> version_le m1 m3"
  unfolding version_le_def by (meson order_trans)

lemma version_le_latest: "version_le m (latest k v p m)"
  by (auto simp: version_le_def latest_def admissible_def)

text \<open>A sequence of deliveries, with the results the consumer saw.\<close>

primrec deliver :: "('c \<Rightarrow> 'w \<Rightarrow> err option \<times> 'w) \<Rightarrow> 'c list \<Rightarrow> 'w \<Rightarrow> err option list \<times> 'w" where
  "deliver step [] w = ([], w)"
| "deliver step (c # cs) w =
     (case step c w of (r, w') \<Rightarrow> case deliver step cs w' of (rs, w'') \<Rightarrow> (r # rs, w''))"

definition absorb ::
    "('c \<Rightarrow> string) \<Rightarrow> ('c \<Rightarrow> int) \<Rightarrow> ('c \<Rightarrow> 'p) \<Rightarrow> 'c \<Rightarrow> 'p index_view \<Rightarrow> 'p index_view" where
  "absorb key ver payload c = latest (key c) (ver c) (payload c)"

lemma absorb_other [simp]: "key c \<noteq> k \<Longrightarrow> absorb key ver payload c m k = m k"
  by (simp add: absorb_def)

lemma absorb_same:
  "key c = k \<Longrightarrow> absorb key ver payload c m k = (case m k of None \<Rightarrow> Some (ver c, payload c)
     | Some (v0, p0) \<Rightarrow> if v0 \<le> ver c then Some (ver c, payload c) else Some (v0, p0))"
  by (auto simp: absorb_def latest_same)

text \<open>Every change of the sequence succeeded at least once.\<close>

definition all_succeeded :: "'c list \<Rightarrow> err option list \<Rightarrow> bool" where
  "all_succeeded cs rs \<longleftrightarrow> (\<forall>c \<in> set cs. (c, None) \<in> set (zip cs rs))"

section \<open>The interface\<close>

text \<open>
  \<^verbatim>\<open>step\<close> is the client's operation for one change; \<^verbatim>\<open>view\<close> reads the index out of the state
  behind it. In a state that satisfies \<^verbatim>\<open>inv\<close>, for a change that satisfies \<^verbatim>\<open>legal\<close>, an operation
  that reports success has been taken or superseded; one that reports an error may or may not have
  reached the index.
\<close>

locale guarded_index =
  fixes step :: "'c \<Rightarrow> 'w \<Rightarrow> err option \<times> 'w"
    and view :: "'w \<Rightarrow> 'p index_view"
    and key :: "'c \<Rightarrow> string"
    and ver :: "'c \<Rightarrow> int"
    and payload :: "'c \<Rightarrow> 'p"
    and inv :: "'w \<Rightarrow> bool"
    and legal :: "'c \<Rightarrow> bool"
  assumes taken: "inv w \<Longrightarrow> legal c \<Longrightarrow> step c w = (None, w') \<Longrightarrow>
      view w' = latest (key c) (ver c) (payload c) (view w)"
    and doubtful: "inv w \<Longrightarrow> legal c \<Longrightarrow> step c w = (Some e, w') \<Longrightarrow>
      view w' = view w \<or> view w' = latest (key c) (ver c) (payload c) (view w)"
    and kept: "inv w \<Longrightarrow> legal c \<Longrightarrow> step c w = (r, w') \<Longrightarrow> inv w'"
begin

abbreviation taken_change :: "'c \<Rightarrow> 'p index_view \<Rightarrow> 'p index_view" where
  "taken_change \<equiv> absorb key ver payload"

lemma step_view:
  "inv w \<Longrightarrow> legal c \<Longrightarrow> step c w = (r, w') \<Longrightarrow>
     view w' = taken_change c (view w) \<or> (r \<noteq> None \<and> view w' = view w)"
  by (cases r) (auto simp: absorb_def dest: taken doubtful)

lemma step_monotone: "inv w \<Longrightarrow> legal c \<Longrightarrow> step c w = (r, w') \<Longrightarrow> version_le (view w) (view w')"
  using step_view [of w c r w'] by (auto simp: absorb_def version_le_latest)

lemma deliver_monotone:
  "inv w \<Longrightarrow> list_all legal cs \<Longrightarrow> deliver step cs w = (rs, w') \<Longrightarrow> version_le (view w) (view w')"
proof (induction cs arbitrary: w w' rs)
  case (Cons c cs)
  obtain r w1 where 1: "step c w = (r, w1)" by (cases "step c w")
  obtain rs' w2 where 2: "deliver step cs w1 = (rs', w2)" by (cases "deliver step cs w1")
  have legal: "legal c" "list_all legal cs" using Cons.prems by simp_all
  have "version_le (view w) (view w1)" using Cons.prems(1) legal(1) 1 by (rule step_monotone)
  moreover have "version_le (view w1) (view w2)"
    using kept [OF Cons.prems(1) legal(1) 1] legal(2) 2 by (rule Cons.IH)
  ultimately show ?case using Cons.prems 1 2 by (auto intro: version_le_trans)
qed simp

text \<open>The changes that reached the index: all that succeeded and some that failed.\<close>

lemma deliver_applied:
  assumes "inv w" and "list_all legal cs" and "deliver step cs w = (rs, w')"
  shows "\<exists>applied. view w' = fold taken_change applied (view w)
    \<and> {c. (c, None) \<in> set (zip cs rs)} \<subseteq> set applied \<and> set applied \<subseteq> set cs"
  using assms
proof (induction cs arbitrary: w w' rs)
  case (Cons c cs)
  obtain r w1 where 1: "step c w = (r, w1)" by (cases "step c w")
  obtain rs' w2 where 2: "deliver step cs w1 = (rs', w2)" by (cases "deliver step cs w1")
  have res: "rs = r # rs'" "w' = w2" using Cons.prems 1 2 by auto
  have legal: "legal c" "list_all legal cs" using Cons.prems by simp_all
  obtain a where a: "view w2 = fold taken_change a (view w1)"
      "{c. (c, None) \<in> set (zip cs rs')} \<subseteq> set a" "set a \<subseteq> set cs"
    using Cons.IH [OF kept [OF Cons.prems(1) legal(1) 1] legal(2) 2] by blast
  show ?case
  proof (cases "view w1 = taken_change c (view w)")
    case True
    then show ?thesis using a res by (intro exI [of _ "c # a"]) auto
  next
    case False
    then have "r \<noteq> None" "view w1 = view w" using step_view [OF Cons.prems(1) legal(1) 1] by auto
    then show ?thesis using a res by (intro exI [of _ a]) auto
  qed
qed simp

end

text \<open>An operation that keeps its promise in every state and for every change.\<close>

locale versioned_index =
  fixes step :: "'c \<Rightarrow> 'w \<Rightarrow> err option \<times> 'w"
    and view :: "'w \<Rightarrow> 'p index_view"
    and key :: "'c \<Rightarrow> string"
    and ver :: "'c \<Rightarrow> int"
    and payload :: "'c \<Rightarrow> 'p"
  assumes always: "step c w = (r, w') \<Longrightarrow>
      view w' = latest (key c) (ver c) (payload c) (view w) \<or> (r \<noteq> None \<and> view w' = view w)"

sublocale versioned_index \<subseteq> guarded: guarded_index step view key ver payload "\<lambda>_. True" "\<lambda>_. True"
  by unfold_locales (use always in fastforce)+

section \<open>What a set of changes leaves behind\<close>

text \<open>
  Changes that agree on their payload whenever they agree on identifier and version leave the same
  index behind in every order and with every repetition.
\<close>

definition consistent :: "('c \<Rightarrow> string) \<Rightarrow> ('c \<Rightarrow> int) \<Rightarrow> ('c \<Rightarrow> 'p) \<Rightarrow> 'c set \<Rightarrow> bool" where
  "consistent key ver payload C \<longleftrightarrow>
     (\<forall>c \<in> C. \<forall>c' \<in> C. key c = key c' \<and> ver c = ver c' \<longrightarrow> payload c = payload c')"

text \<open>The write that wins at one identifier, given the one remembered before.\<close>

definition winner_at ::
    "('c \<Rightarrow> string) \<Rightarrow> ('c \<Rightarrow> int) \<Rightarrow> ('c \<Rightarrow> 'p) \<Rightarrow> 'c set \<Rightarrow> (int \<times> 'p) option \<Rightarrow> string \<Rightarrow> (int \<times> 'p) option \<Rightarrow> bool" where
  "winner_at key ver payload C old k new \<longleftrightarrow>
     (case new of
        None \<Rightarrow> old = None \<and> (\<forall>c \<in> C. key c \<noteq> k)
      | Some (v, p) \<Rightarrow>
          (\<forall>c \<in> C. key c = k \<longrightarrow> ver c \<le> v) \<and> (\<forall>v0 p0. old = Some (v0, p0) \<longrightarrow> v0 \<le> v)
          \<and> ((\<exists>c \<in> C. key c = k \<and> ver c = v \<and> payload c = p)
             \<or> (old = Some (v, p) \<and> (\<forall>c \<in> C. key c = k \<longrightarrow> ver c < v))))"

lemma fold_latest_winner:
  "winner_at key ver payload (set cs) (m k) k (fold (absorb key ver payload) cs m k)"
proof (induction cs rule: rev_induct)
  case Nil
  show ?case by (auto simp: winner_at_def split: option.split)
next
  case (snoc c cs)
  show ?case
  proof (cases "key c = k")
    case True
    show ?thesis
    proof (cases "fold (absorb key ver payload) cs m k")
      case None
      then show ?thesis using snoc True by (auto simp: winner_at_def absorb_same)
    next
      case (Some vp)
      obtain v p where vp: "vp = (v, p)" by (cases vp)
      have IH: "\<forall>d \<in> set cs. key d = k \<longrightarrow> ver d \<le> v" "\<forall>v0 p0. m k = Some (v0, p0) \<longrightarrow> v0 \<le> v"
        "(\<exists>d \<in> set cs. key d = k \<and> ver d = v \<and> payload d = p)
          \<or> (m k = Some (v, p) \<and> (\<forall>d \<in> set cs. key d = k \<longrightarrow> ver d < v))"
        using snoc unfolding Some vp by (simp_all add: winner_at_def)
      show ?thesis
      proof (cases "v \<le> ver c")
        case le: True
        have "\<forall>d \<in> set cs. key d = k \<longrightarrow> ver d \<le> ver c" "\<forall>v0 p0. m k = Some (v0, p0) \<longrightarrow> v0 \<le> ver c"
          using IH(1,2) le by (meson order_trans)+
        then show ?thesis using Some vp True le by (simp add: winner_at_def absorb_same)
      next
        case False
        then have new: "fold (absorb key ver payload) (cs @ [c]) m k = Some (v, p)"
          using Some vp True by (simp add: absorb_same)
        have bound: "\<forall>d \<in> set (cs @ [c]). key d = k \<longrightarrow> ver d \<le> v"
          using IH(1) False by simp
        have source: "(\<exists>d \<in> set (cs @ [c]). key d = k \<and> ver d = v \<and> payload d = p)
          \<or> (m k = Some (v, p) \<and> (\<forall>d \<in> set (cs @ [c]). key d = k \<longrightarrow> ver d < v))"
          using IH(3)
        proof (elim disjE)
          assume "\<exists>d \<in> set cs. key d = k \<and> ver d = v \<and> payload d = p"
          then have "\<exists>d \<in> set (cs @ [c]). key d = k \<and> ver d = v \<and> payload d = p" by auto
          then show ?thesis by (rule disjI1)
        next
          assume old: "m k = Some (v, p) \<and> (\<forall>d \<in> set cs. key d = k \<longrightarrow> ver d < v)"
          moreover have "ver c < v" using False by simp
          ultimately have "m k = Some (v, p) \<and> (\<forall>d \<in> set (cs @ [c]). key d = k \<longrightarrow> ver d < v)" by auto
          then show ?thesis by (rule disjI2)
        qed
        show ?thesis unfolding new winner_at_def option.case prod.case
          by (intro conjI bound IH(2) source)
      qed
    qed
  next
    case False
    then show ?thesis using snoc by (auto simp: winner_at_def split: option.splits)
  qed
qed

lemma winner_at_unique:
  assumes "consistent key ver payload C"
    and "winner_at key ver payload C old k a" and "winner_at key ver payload C old k b"
  shows "a = b"
proof (cases a; cases b)
  fix va vb assume ab: "a = Some va" "b = Some vb"
  obtain v p v' p' where vp: "va = (v, p)" "vb = (v', p')" by (cases va; cases vb)
  have "v \<le> v'" "v' \<le> v" using assms(2,3) unfolding ab vp by (auto simp: winner_at_def)
  then have v: "v = v'" by simp
  have src: "(\<exists>c \<in> C. key c = k \<and> ver c = v' \<and> payload c = q)
      \<or> (old = Some (v', q) \<and> (\<forall>c \<in> C. key c = k \<longrightarrow> ver c < v'))" if "q \<in> {p, p'}" for q
    using that assms(2,3) unfolding ab vp v by (auto simp: winner_at_def)
  have "p = p'"
  proof (cases "\<exists>c \<in> C. key c = k \<and> ver c = v'")
    case True
    then have "\<not> (\<forall>c \<in> C. key c = k \<longrightarrow> ver c < v')" by force
    then obtain c c' where "c \<in> C" "key c = k" "ver c = v'" "payload c = p"
        "c' \<in> C" "key c' = k" "ver c' = v'" "payload c' = p'"
      using src [of p] src [of p'] by blast
    then show ?thesis using assms(1) unfolding consistent_def by metis
  next
    case False
    then have "old = Some (v', p)" "old = Some (v', p')" using src [of p] src [of p'] by blast+
    then show ?thesis by simp
  qed
  with ab vp v show ?thesis by simp
qed (use assms(2,3) in \<open>auto simp: winner_at_def\<close>)

lemma fold_latest_converges:
  assumes "consistent key ver payload (set cs)" and "set cs' = set cs"
  shows "fold (absorb key ver payload) cs m
    = fold (absorb key ver payload) cs' m"
proof
  fix k
  show "fold (absorb key ver payload) cs m k
    = fold (absorb key ver payload) cs' m k"
    using winner_at_unique [OF assms(1) fold_latest_winner] fold_latest_winner [of key ver payload cs' m k]
    unfolding assms(2) by blast
qed

text \<open>A change that has been absorbed stays absorbed when other changes of a consistent set follow.\<close>

lemma absorbed_stays:
  assumes "consistent key ver payload C" and "c \<in> C" and "c' \<in> C"
    and "absorb key ver payload c m = m"
  shows "absorb key ver payload c (absorb key ver payload c' m) = absorb key ver payload c' m"
proof
  fix k
  have same: "payload c = payload c'" if "key c = key c'" "ver c = ver c'"
    using assms(1-3) that unfolding consistent_def by blast
  have old: "absorb key ver payload c m k = m k" using assms(4) by simp
  show "absorb key ver payload c (absorb key ver payload c' m) k = absorb key ver payload c' m k"
  proof (cases "key c = k")
    case True
    show ?thesis
    proof (cases "key c' = k")
      case both: True
      then show ?thesis using True old same
        by (auto simp: absorb_same split: option.splits if_splits)
    next
      case False
      then show ?thesis using True old by (simp add: absorb_same)
    qed
  qed simp
qed

lemma absorb_absorbed: "absorb key ver payload c (absorb key ver payload c m) = absorb key ver payload c m"
  by (simp add: absorb_def)

context guarded_index
begin

text \<open>
  The convergence lemma: whatever the order, the duplicates and the failed attempts, once every
  change has succeeded at least once the index holds what one pass over the changes leaves.
\<close>

lemma converges:
  assumes "inv w" and "list_all legal cs" and "deliver step cs w = (rs, w')"
    and "all_succeeded cs rs"
    and "consistent key ver payload (set cs)"
    and "set changes = set cs"
  shows "view w' = fold taken_change changes (view w)"
proof -
  obtain a where a: "view w' = fold taken_change a (view w)"
      "{c. (c, None) \<in> set (zip cs rs)} \<subseteq> set a" "set a \<subseteq> set cs"
    using deliver_applied [OF assms(1-3)] by blast
  then have "set a = set cs" using assms(4) by (auto simp: all_succeeded_def)
  then have "fold taken_change changes (view w) = fold taken_change a (view w)"
    using assms(5,6) by (intro fold_latest_converges) simp_all
  with a show ?thesis by simp
qed

end

context versioned_index
begin

lemma converges:
  assumes "deliver step cs w = (rs, w')"
    and "all_succeeded cs rs"
    and "consistent key ver payload (set cs)"
    and "set changes = set cs"
  shows "view w' = fold (absorb key ver payload) changes (view w)"
  using assms by (intro guarded.converges) (auto simp: list_all_iff)

lemma deliver_monotone: "deliver step cs w = (rs, w') \<Longrightarrow> version_le (view w) (view w')"
  by (rule guarded.deliver_monotone) (auto simp: list_all_iff)

end

section \<open>An index that forgets deletions\<close>

text \<open>
  A real index remembers the version of a deleted document only for a while. Before any step it may have forgotten
  some of the deletions; of a document that is there it forgets nothing.
\<close>

definition forgets :: "'q option index_view \<Rightarrow> 'q option index_view \<Rightarrow> bool" where
  "forgets m m' \<longleftrightarrow> (\<forall>k. m' k = m k \<or> (m' k = None \<and> (\<exists>v. m k = Some (v, None))))"

lemma forgets_refl [simp]: "forgets m m"
  by (simp add: forgets_def)

lemma forgets_live: "forgets m m' \<Longrightarrow> m k = Some (v, Some q) \<Longrightarrow> m' k = Some (v, Some q)"
  unfolding forgets_def by (metis option.distinct(1) option.inject prod.inject)

lemma forgets_remembered: "forgets m m' \<Longrightarrow> m' k = Some (v, p) \<Longrightarrow> m k = Some (v, p)"
  unfolding forgets_def by (metis option.distinct(1))

text \<open>No document under an identifier: never one, a deletion that is remembered, or one that was forgotten.\<close>

definition gone :: "'q option index_view \<Rightarrow> string \<Rightarrow> bool" where
  "gone m k \<longleftrightarrow> (case m k of Some (v, Some q) \<Rightarrow> False | _ \<Rightarrow> True)"

lemma gone_iff: "gone m k \<longleftrightarrow> (\<forall>v q. m k \<noteq> Some (v, Some q))"
  by (auto simp: gone_def split: option.splits)

lemma gone_forgets: "forgets m m' \<Longrightarrow> gone m k \<Longrightarrow> gone m' k"
  unfolding gone_iff by (metis forgets_remembered)

text \<open>What a log says after the first success of a change.\<close>

definition after_success :: "'c \<Rightarrow> ('c \<times> err option) list \<Rightarrow> ('c \<times> err option) list" where
  "after_success c log = tl (dropWhile (\<lambda>x. x \<noteq> (c, None)) log)"

lemma after_success_append:
  "(c, None) \<in> set log \<Longrightarrow> after_success c (log @ [x]) = after_success c log @ [x]"
proof -
  assume "(c, None) \<in> set log"
  then have "dropWhile (\<lambda>x. x \<noteq> (c, None)) (log @ [x]) = dropWhile (\<lambda>x. x \<noteq> (c, None)) log @ [x]"
      "dropWhile (\<lambda>x. x \<noteq> (c, None)) log \<noteq> []"
    by (auto simp: dropWhile_append1)
  then show ?thesis by (simp add: after_success_def)
qed

text \<open>
  The interface. A step is taken by the index, or reports an error, or reports success because the change is
  known to have been handled; and a change becomes known only by a success. A client also has maintenance
  steps, which make no change known.
\<close>

locale forgetful_index =
  fixes step :: "'c \<Rightarrow> 'w \<Rightarrow> err option \<times> 'w"
    and view :: "'w \<Rightarrow> 'q option index_view"
    and key :: "'c \<Rightarrow> string"
    and ver :: "'c \<Rightarrow> int"
    and payload :: "'c \<Rightarrow> 'q option"
    and known :: "'w \<Rightarrow> 'c \<Rightarrow> bool"
    and legal :: "'c \<Rightarrow> bool"
    and maintain :: "'w \<Rightarrow> 'w"
  assumes outcome: "legal c \<Longrightarrow> step c w = (r, w') \<Longrightarrow>
      (forgets (view w) (view w') \<and> (\<forall>d. legal d \<longrightarrow> known w' d \<longrightarrow> known w d) \<and> (r = None \<longrightarrow> known w c))
      \<or> (\<exists>m. forgets (view w) m \<and> view w' = absorb key ver payload c m
           \<and> (\<forall>d. legal d \<longrightarrow> known w' d \<longrightarrow> known w d \<or> (d = c \<and> r = None)))"
    and maintained: "forgets (view w) (view (maintain w)) \<and> (legal d \<longrightarrow> known (maintain w) d \<longrightarrow> known w d)"
begin

text \<open>The states and logs that deliveries and maintenance lead to.\<close>

inductive history :: "'w \<Rightarrow> ('c \<times> err option) list \<Rightarrow> 'w \<Rightarrow> bool" for w0 where
  start: "history w0 [] w0"
| delivered: "history w0 log w \<Longrightarrow> legal c \<Longrightarrow> step c w = (r, w') \<Longrightarrow> history w0 (log @ [(c, r)]) w'"
| tended: "history w0 log w \<Longrightarrow> history w0 log (maintain w)"

lemma history_known:
  assumes "history w0 log w" and "\<And>c. legal c \<Longrightarrow> \<not> known w0 c" and "legal c" and "known w c"
  shows "(c, None) \<in> set log"
  using assms(1,3,4)
proof (induction arbitrary: c rule: history.induct)
  case (delivered log w d r w')
  have "known w c \<or> (c = d \<and> r = None)" using outcome [OF delivered.hyps(2,3)] delivered.prems by blast
  then show ?case using delivered.IH [OF delivered.prems(1)] by auto
next
  case (tended log w)
  have "known w c" using maintained [of w c] tended.prems by simp
  then show ?case by (rule tended.IH [OF tended.prems(1)])
next
  case start
  then show ?case using assms(2) by simp
qed

text \<open>Everything that is remembered was there at the start or was delivered.\<close>

lemma history_origin:
  assumes "history w0 log w" and "view w k = Some (v, p)"
  shows "view w0 k = Some (v, p) \<or> (\<exists>c \<in> fst ` set log. legal c \<and> key c = k \<and> ver c = v \<and> payload c = p)"
  using assms
proof (induction arbitrary: v p rule: history.induct)
  case (delivered log w c r w')
  from outcome [OF delivered.hyps(2,3)] show ?case
  proof (elim disjE exE conjE)
    assume "forgets (view w) (view w')"
    then have "view w k = Some (v, p)" using delivered.prems by (rule forgets_remembered)
    then show ?thesis using delivered.IH by auto
  next
    fix m
    assume m: "forgets (view w) m" and new: "view w' = absorb key ver payload c m"
    have "m k = Some (v, p) \<or> (key c = k \<and> ver c = v \<and> payload c = p)"
      using delivered.prems unfolding new by (cases "key c = k") (auto simp: absorb_same split: option.splits if_splits)
    then show ?thesis using forgets_remembered [OF m] delivered.IH delivered.hyps(2) by auto
  qed
next
  case (tended log w)
  have "view w k = Some (v, p)" using forgets_remembered [OF conjunct1 [OF maintained] tended.prems] .
  then show ?case by (rule tended.IH)
qed simp

text \<open>A document that is there stays until something newer is delivered.\<close>

lemma live_step:
  assumes "view w k = Some (v, Some q)" and "legal c" and "step c w = (r, w')"
    and "key c = k \<Longrightarrow> ver c < v \<or> (ver c = v \<and> payload c = Some q)"
  shows "view w' k = Some (v, Some q)"
  using outcome [OF assms(2,3)]
proof (elim disjE exE conjE)
  fix m
  assume m: "forgets (view w) m" and new: "view w' = absorb key ver payload c m"
  have "m k = Some (v, Some q)" using m assms(1) by (rule forgets_live)
  then show ?thesis unfolding new using assms(4) by (cases "key c = k") (auto simp: absorb_same)
next
  assume "forgets (view w) (view w')"
  then show ?thesis using assms(1) by (rule forgets_live)
qed

lemma history_untouched:
  assumes "history w0 log w" and "view w0 k = Some (v, Some q)" and "\<And>c. legal c \<Longrightarrow> key c = k \<Longrightarrow> ver c < v"
  shows "view w k = Some (v, Some q)"
  using assms(1)
proof (induction rule: history.induct)
  case (delivered log w c r w')
  show ?case by (rule live_step [OF delivered.IH delivered.hyps(2,3)]) (use assms(3) delivered.hyps(2) in blast)
next
  case (tended log w)
  show ?case using forgets_live [OF conjunct1 [OF maintained] tended.IH] .
qed (rule assms(2))

text \<open>Nothing newer than a change is ever remembered for its identifier, if nothing newer is delivered.\<close>

lemma history_bound:
  assumes "history w0 log w" and "\<And>v p. view w0 k = Some (v, p) \<Longrightarrow> v \<le> bound"
    and "\<And>c. legal c \<Longrightarrow> key c = k \<Longrightarrow> ver c \<le> bound" and "view w k = Some (v, p)"
  shows "v \<le> bound"
  using history_origin [OF assms(1,4)] assms(2,3) by blast

lemma absorbed_at:
  assumes "\<And>v p. m (key c) = Some (v, p) \<Longrightarrow> v \<le> ver c"
  shows "absorb key ver payload c m (key c) = Some (ver c, payload c)"
  using assms by (auto simp: absorb_same split: option.splits)

lemma taken_at:
  assumes "history w0 log w" and "\<And>v p. view w0 (key c) = Some (v, p) \<Longrightarrow> v \<le> ver c"
    and "\<And>d. legal d \<Longrightarrow> key d = key c \<Longrightarrow> ver d \<le> ver c" and "forgets (view w) m"
  shows "absorb key ver payload c m (key c) = Some (ver c, payload c)"
proof (rule absorbed_at)
  fix v p
  assume "m (key c) = Some (v, p)"
  then have "view w (key c) = Some (v, p)" by (rule forgets_remembered [OF assms(4)])
  then show "v \<le> ver c" using history_bound [OF assms(1), where k = "key c" and bound = "ver c"] assms(2,3) by blast
qed

text \<open>The newest change of an identifier, once handled, is what is remembered, if it is not a deletion.\<close>

lemma history_live:
  assumes "history w0 log w" and "\<And>c. legal c \<Longrightarrow> \<not> known w0 c" and "legal c" and "payload c = Some q"
    and "\<And>v p. view w0 (key c) = Some (v, p) \<Longrightarrow> v \<le> ver c"
    and "\<And>d. legal d \<Longrightarrow> key d = key c \<Longrightarrow> ver d < ver c \<or> (ver d = ver c \<and> payload d = payload c)"
    and "(c, None) \<in> set log"
  shows "view w (key c) = Some (ver c, Some q)"
  using assms(1,7)
proof (induction rule: history.induct)
  case (delivered log w d r w')
  have newest: "ver d \<le> ver c" if "legal d" "key d = key c" for d using assms(6) [OF that] by auto
  show ?case
  proof (cases "(c, None) \<in> set log")
    case True
    show ?thesis
      by (rule live_step [OF delivered.IH [OF True] delivered.hyps(2,3)]) (use assms(4,6) delivered.hyps(2) in auto)
  next
    case False
    then have now: "d = c" "r = None" using delivered.prems by auto
    have "\<not> known w c" using history_known [OF delivered.hyps(1) assms(2,3)] False by blast
    then obtain m where m: "forgets (view w) m" and new: "view w' = absorb key ver payload c m"
      using outcome [OF delivered.hyps(2,3)] now by blast
    show ?thesis unfolding new using taken_at [OF delivered.hyps(1) assms(5) newest m] assms(4) by simp
  qed
next
  case (tended log w)
  show ?case using forgets_live [OF conjunct1 [OF maintained] tended.IH [OF tended.prems]] .
qed simp

text \<open>
  A deletion that is the newest change of an identifier leaves no document behind, if after its first success
  only deletions are delivered for the identifier. An older upsert delivered later may be taken, once the
  deletion is forgotten.
\<close>

lemma history_gone:
  assumes "history w0 log w" and "\<And>c. legal c \<Longrightarrow> \<not> known w0 c" and "legal c" and "payload c = None"
    and "\<And>v p. view w0 (key c) = Some (v, p) \<Longrightarrow> v \<le> ver c"
    and "\<And>d. legal d \<Longrightarrow> key d = key c \<Longrightarrow> ver d \<le> ver c"
    and "(c, None) \<in> set log" and "list_all (\<lambda>(d, r). key d = key c \<longrightarrow> payload d = None) (after_success c log)"
  shows "gone (view w) (key c)"
  using assms(1,7,8)
proof (induction rule: history.induct)
  case (delivered log w d r w')
  show ?case
  proof (cases "(c, None) \<in> set log")
    case True
    have IH: "gone (view w) (key c)" and deletion: "key d = key c \<longrightarrow> payload d = None"
      using delivered.IH [OF True] delivered.prems(2) by (simp_all add: after_success_append [OF True])
    from outcome [OF delivered.hyps(2,3)] show ?thesis
    proof (elim disjE exE conjE)
      fix m
      assume m: "forgets (view w) m" and new: "view w' = absorb key ver payload d m"
      have "gone m (key c)" using m IH by (rule gone_forgets)
      then show ?thesis unfolding new gone_iff using deletion
        by (cases "key d = key c") (auto simp: absorb_same split: option.splits if_splits)
    next
      assume "forgets (view w) (view w')"
      then show ?thesis using IH by (rule gone_forgets)
    qed
  next
    case False
    then have now: "d = c" "r = None" using delivered.prems by auto
    have "\<not> known w c" using history_known [OF delivered.hyps(1) assms(2,3)] False by blast
    then obtain m where m: "forgets (view w) m" and new: "view w' = absorb key ver payload c m"
      using outcome [OF delivered.hyps(2,3)] now by blast
    show ?thesis unfolding new gone_iff using taken_at [OF delivered.hyps(1) assms(5,6) m] assms(4) by simp
  qed
next
  case (tended log w)
  show ?case using gone_forgets [OF conjunct1 [OF maintained] tended.IH [OF tended.prems]] .
qed simp

text \<open>What one pass over the changes would leave, compared with what is there.\<close>

lemma history_converges:
  assumes "history w0 log w" and "\<And>c. legal c \<Longrightarrow> \<not> known w0 c" and "\<And>c. legal c \<longleftrightarrow> c \<in> fst ` set log"
    and "consistent key ver payload (fst ` set log)" and "\<forall>c \<in> fst ` set log. (c, None) \<in> set log"
    and "set changes = fst ` set log"
  shows "case fold (absorb key ver payload) changes (view w0) k of
      None \<Rightarrow> view w k = None
    | Some (v, Some q) \<Rightarrow> view w k = Some (v, Some q)
    | Some (v, None) \<Rightarrow> \<forall>c \<in> set changes. key c = k \<and> ver c = v
        \<and> list_all (\<lambda>(d, r). key d = k \<longrightarrow> payload d = None) (after_success c log) \<longrightarrow> gone (view w) k"
proof -
  note win = fold_latest_winner [of key ver payload changes "view w0" k, unfolded assms(6)]
  show ?thesis
  proof (cases "fold (absorb key ver payload) changes (view w0) k")
    case None
    then have "view w0 k = None" "\<And>c. legal c \<Longrightarrow> key c \<noteq> k" using win by (auto simp: winner_at_def assms(3))
    then have "view w k \<noteq> Some (v, p)" for v p using history_origin [OF assms(1), of k v p] by auto
    then have "view w k = None" by (cases "view w k") auto
    then show ?thesis using None by simp
  next
    case (Some vp)
    obtain v p where vp: "vp = (v, p)" by (cases vp)
    have bound: "legal c \<Longrightarrow> key c = k \<Longrightarrow> ver c \<le> v" and old: "view w0 k = Some (v0, p0) \<Longrightarrow> v0 \<le> v"
      and source: "(\<exists>c \<in> fst ` set log. key c = k \<and> ver c = v \<and> payload c = p)
        \<or> (view w0 k = Some (v, p) \<and> (\<forall>c \<in> fst ` set log. key c = k \<longrightarrow> ver c < v))" for c v0 p0
      using win unfolding Some vp by (auto simp: winner_at_def assms(3))
    have same: "payload c = payload d" if "legal c" "legal d" "key c = k" "key d = k" "ver c = ver d" for c d
      using assms(4) that unfolding consistent_def assms(3) by metis
    show ?thesis
    proof (cases p)
      case q: (Some q)
      from source have "view w k = Some (v, Some q)"
      proof (elim disjE bexE conjE)
        fix c
        assume c: "c \<in> fst ` set log" "key c = k" "ver c = v" "payload c = p"
        have legal: "legal c" and handled: "(c, None) \<in> set log" using c(1) assms(3,5) by blast+
        have "ver d < ver c \<or> (ver d = ver c \<and> payload d = payload c)" if "legal d" "key d = key c" for d
          using bound [OF that(1)] same [OF that(1) legal] that c by fastforce
        then show ?thesis
          using history_live [OF assms(1,2) legal _ _ _ handled, of q] old c q by simp
      next
        assume "view w0 k = Some (v, p)" and "\<forall>c \<in> fst ` set log. key c = k \<longrightarrow> ver c < v"
        then show ?thesis using history_untouched [OF assms(1), of k v q] q assms(3) by blast
      qed
      then show ?thesis by (simp add: Some vp q)
    next
      case p: None
      have "gone (view w) k" if c: "c \<in> set changes" "key c = k" "ver c = v"
        and last: "list_all (\<lambda>(d, r). key d = k \<longrightarrow> payload d = None) (after_success c log)" for c
      proof -
        have legal: "legal c" and handled: "(c, None) \<in> set log" using c(1) assms(3,5,6) by blast+
        have "payload c = None" using source
        proof (elim disjE bexE conjE)
          fix d
          assume d: "d \<in> fst ` set log" "key d = k" "ver d = v" "payload d = p"
          have "legal d" using d(1) assms(3) by blast
          from same [OF legal this] c d p show ?thesis by simp
        next
          assume "\<forall>d \<in> fst ` set log. key d = k \<longrightarrow> ver d < v"
          then have "ver c < v" using legal c(2) assms(3) by blast
          then show ?thesis using c(3) by simp
        qed
        then show ?thesis
          using history_gone [OF assms(1,2) legal _ _ _ handled] old bound last c by simp
      qed
      then show ?thesis unfolding Some vp p option.case prod.case by blast
    qed
  qed
qed

end

end
