(* ===== verification/IndexWrites.thy ===== *)
theory IndexWrites
  imports SearchStore VersionedIndex
begin

text \<open>
  The writes of \<^verbatim>\<open>internal/searchstore/opensearch.go\<close> against the contract of the versioned index:
  what OpenSearch is relied on for, a reference server that keeps this contract, and the
  convergence of repeated, reordered and failed writes.
\<close>

section \<open>The versioned index behind the wire\<close>

text \<open>
  The documented behaviour of OpenSearch the code relies on, for an index that exists. A write with
  \<^verbatim>\<open>version_type=external_gte\<close> answered with 2xx was taken and was not older than what the index
  remembered; 409 means that a newer version is remembered and nothing changed; a deletion answered
  with 404 found no document but is remembered with its version. After any other answer, or none, the
  write may or may not have been taken. \<^verbatim>\<open>view\<close> gives for each identifier the remembered version and the
  stored text, none after a deletion; counting requests does not touch it.

  OpenSearch remembers a deletion only for \<^verbatim>\<open>index.gc_deletes\<close>, 60 seconds unless the index says otherwise,
  and \<^verbatim>\<open>ensureIndex\<close> does not say. So there are two contracts. \<^verbatim>\<open>external_gte\<close> is about deliveries within
  that period: nothing is forgotten. \<^verbatim>\<open>forgetful_gte\<close> is about any period: before a write, any of the
  remembered deletions may have been forgotten.
\<close>

type_synonym stored = "string option"

definition write_outcome ::
    "http_method \<Rightarrow> (err + Response) \<Rightarrow> string \<Rightarrow> int \<Rightarrow> stored \<Rightarrow> stored index_view \<Rightarrow> stored index_view \<Rightarrow> bool" where
  "write_outcome verb res k v p m m' =
     (case res of
        Inl _ \<Rightarrow> m' = m \<or> m' = latest k v p m
      | Inr r \<Rightarrow>
          if success (rs_status r) \<or> (rs_status r = 404 \<and> verb = DELETE)
          then admissible k v m \<and> m' = m(k \<mapsto> (v, p))
          else if rs_status r = 409 then \<not> admissible k v m \<and> m' = m
          else m' = m \<or> m' = latest k v p m)"

definition external_gte :: "'w Store \<Rightarrow> ('w \<Rightarrow> stored index_view) \<Rightarrow> bool" where
  "external_gte e view \<longleftrightarrow>
     (\<forall>ctx k v data w res w'.
        wi_perform (st_wire e) ctx
          \<lparr>rq_method = PUT, rq_path = document_path e k v, rq_body = Some (JRaw data)\<rparr> w = (res, w') \<longrightarrow>
        write_outcome PUT res k (sint v) (Some data) (view w) (view w'))
     \<and> (\<forall>ctx k v w res w'.
        wi_perform (st_wire e) ctx
          \<lparr>rq_method = DELETE, rq_path = document_path e k v, rq_body = None\<rparr> w = (res, w') \<longrightarrow>
        write_outcome DELETE res k (sint v) None (view w) (view w'))
     \<and> (\<forall>status w. view (observe e status w) = view w)"

definition forgetful_gte :: "'w Store \<Rightarrow> ('w \<Rightarrow> stored index_view) \<Rightarrow> bool" where
  "forgetful_gte e view \<longleftrightarrow>
     (\<forall>ctx k v data w res w'.
        wi_perform (st_wire e) ctx
          \<lparr>rq_method = PUT, rq_path = document_path e k v, rq_body = Some (JRaw data)\<rparr> w = (res, w') \<longrightarrow>
        (\<exists>m. forgets (view w) m \<and> write_outcome PUT res k (sint v) (Some data) m (view w')))
     \<and> (\<forall>ctx k v w res w'.
        wi_perform (st_wire e) ctx
          \<lparr>rq_method = DELETE, rq_path = document_path e k v, rq_body = None\<rparr> w = (res, w') \<longrightarrow>
        (\<exists>m. forgets (view w) m \<and> write_outcome DELETE res k (sint v) None m (view w')))
     \<and> (\<forall>status w. view (observe e status w) = view w)"

lemma external_gte_forgetful: "external_gte e view \<Longrightarrow> forgetful_gte e view"
  unfolding external_gte_def forgetful_gte_def by (meson forgets_refl)

text \<open>One change of the projection, and the engine call that makes it.\<close>

datatype change = Upserted SearchDocument | Deleted DocumentKey

definition key_id :: "DocumentKey \<Rightarrow> string" where
  "key_id k = CanonicalID (dk_TenantId k) (dk_SourceService k) (dk_DocumentType k) (dk_SourceId k)"

primrec change_key :: "change \<Rightarrow> string" where
  "change_key (Upserted d) = sd_Id d"
| "change_key (Deleted k) = key_id k"

primrec change_version :: "change \<Rightarrow> int" where
  "change_version (Upserted d) = sint (sd_SourceVersion d)"
| "change_version (Deleted k) = sint (dk_SourceVersion k)"

primrec change_payload :: "'w Store \<Rightarrow> change \<Rightarrow> stored" where
  "change_payload e (Upserted d) = (case wi_marshal (st_wire e) d of Inl _ \<Rightarrow> None | Inr data \<Rightarrow> Some data)"
| "change_payload e (Deleted k) = None"

primrec applyChange :: "'w Store \<Rightarrow> Ctx \<Rightarrow> change \<Rightarrow> ('w, err) call_err" where
  "applyChange e ctx (Upserted d) = Upsert e ctx [d]"
| "applyChange e ctx (Deleted k) = Delete e ctx [k]"

lemma Upsert_one: "Upsert e ctx [d] w = upsertOne e ctx d w"
  by (auto split: prod.split option.split)

lemma Delete_one: "Delete e ctx [k] w = deleteOne e ctx k w"
  by (auto split: prod.split option.split)

lemma latest_admissible: "admissible k v m \<Longrightarrow> latest k v p m = m(k \<mapsto> (v, p))"
  by (simp add: latest_def)

lemma latest_inadmissible: "\<not> admissible k v m \<Longrightarrow> latest k v p m = m"
  by (simp add: latest_def)

lemma upsertOne_view:
  assumes "external_gte e view" and "upsertOne e ctx d w = (r, w')"
  shows "view w' = latest (change_key (Upserted d)) (change_version (Upserted d)) (change_payload e (Upserted d)) (view w)
    \<or> (r \<noteq> None \<and> view w' = view w)"
proof (cases "wi_marshal (st_wire e) d")
  case (Inl err)
  then show ?thesis using assms(2) by (auto simp: upsertOne_def)
next
  case (Inr data)
  let ?path = "document_path e (sd_Id d) (sd_SourceVersion d)"
  let ?run = "doJSON e ctx PUT ?path (Some (JRaw data)) no_target w"
  have put: "write_outcome PUT res (sd_Id d) (sint (sd_SourceVersion d)) (Some data) (view w) (view w1)"
    if "wi_perform (st_wire e) ctx \<lparr>rq_method = PUT, rq_path = ?path, rq_body = Some (JRaw data)\<rparr> w = (res, w1)"
    for res w1 using assms(1) that unfolding external_gte_def by blast
  have count: "view (observe e status w1) = view w1" for status w1
    using assms(1) unfolding external_gte_def by blast
  have run: "(case ?run of (Inl err, w') \<Rightarrow> if as_response_status err = Some 409 then (None, w') else (Some err, w')
      | (Inr _, w') \<Rightarrow> (None, w')) = (r, w')"
    using assms(2) Inr by (simp add: upsertOne_def)
  show ?thesis
    by (cases rule: doJSON_cases [of e ctx PUT ?path "Some (JRaw data)" w no_target])
      (use run in \<open>auto simp: count Inr write_outcome_def suffixed_def no_target_def
        latest_admissible latest_inadmissible split: if_splits dest!: put\<close>)
qed

lemma deleteOne_view:
  assumes "external_gte e view" and "deleteOne e ctx k w = (r, w')"
  shows "view w' = latest (change_key (Deleted k)) (change_version (Deleted k)) (change_payload e (Deleted k)) (view w)
    \<or> (r \<noteq> None \<and> view w' = view w)"
proof -
  let ?path = "document_path e (key_id k) (dk_SourceVersion k)"
  let ?run = "doJSON e ctx DELETE ?path None no_target w"
  have del: "write_outcome DELETE res (key_id k) (sint (dk_SourceVersion k)) None (view w) (view w1)"
    if "wi_perform (st_wire e) ctx \<lparr>rq_method = DELETE, rq_path = ?path, rq_body = None\<rparr> w = (res, w1)"
    for res w1 using assms(1) that unfolding external_gte_def by blast
  have count: "view (observe e status w1) = view w1" for status w1
    using assms(1) unfolding external_gte_def by blast
  have run: "(case ?run of (Inl err, w') \<Rightarrow> if errors_is err SearchNotFound then (None, w')
        else if as_response_status err = Some 409 then (None, w') else (Some err, w')
      | (Inr _, w') \<Rightarrow> (None, w')) = (r, w')"
    using assms(2) by (simp add: deleteOne_def key_id_def Let_def)
  show ?thesis
    by (cases rule: doJSON_cases [of e ctx DELETE ?path None w no_target])
      (use run in \<open>auto simp: count write_outcome_def suffixed_def no_target_def
        latest_admissible latest_inadmissible split: if_splits dest!: del\<close>)
qed

lemma applyChange_view:
  assumes "external_gte e view" and "applyChange e ctx c w = (r, w')"
  shows "view w' = latest (change_key c) (change_version c) (change_payload e c) (view w)
    \<or> (r \<noteq> None \<and> view w' = view w)"
proof (cases c)
  case (Upserted d)
  then show ?thesis using assms upsertOne_view [of e view ctx d w r w'] by (simp add: Upsert_one del: Upsert.simps)
next
  case (Deleted k)
  then show ?thesis using assms deleteOne_view [of e view ctx k w r w'] by (simp add: Delete_one del: Delete.simps)
qed

text \<open>The same of an index that forgets deletions: the write goes to what is still remembered.\<close>

lemma upsertOne_forgetful:
  assumes "forgetful_gte e view" and "upsertOne e ctx d w = (r, w')"
  shows "\<exists>m. forgets (view w) m
    \<and> (view w' = latest (change_key (Upserted d)) (change_version (Upserted d)) (change_payload e (Upserted d)) m
       \<or> (r \<noteq> None \<and> view w' = m))"
proof (cases "wi_marshal (st_wire e) d")
  case (Inl err)
  then show ?thesis using assms(2) by (auto simp: upsertOne_def intro!: exI [of _ "view w"])
next
  case (Inr data)
  let ?path = "document_path e (sd_Id d) (sd_SourceVersion d)"
  let ?run = "doJSON e ctx PUT ?path (Some (JRaw data)) no_target w"
  obtain res w1 where perform: "wi_perform (st_wire e) ctx \<lparr>rq_method = PUT, rq_path = ?path, rq_body = Some (JRaw data)\<rparr> w = (res, w1)"
    by (cases "wi_perform (st_wire e) ctx \<lparr>rq_method = PUT, rq_path = ?path, rq_body = Some (JRaw data)\<rparr> w")
  obtain m where m: "forgets (view w) m" and put: "write_outcome PUT res (sd_Id d) (sint (sd_SourceVersion d)) (Some data) m (view w1)"
    using assms(1) perform unfolding forgetful_gte_def by blast
  have count: "view (observe e status w1) = view w1" for status w1
    using assms(1) unfolding forgetful_gte_def by blast
  have run: "(case ?run of (Inl err, w') \<Rightarrow> if as_response_status err = Some 409 then (None, w') else (Some err, w')
      | (Inr _, w') \<Rightarrow> (None, w')) = (r, w')"
    using assms(2) Inr by (simp add: upsertOne_def)
  have "view w' = latest (sd_Id d) (sint (sd_SourceVersion d)) (Some data) m \<or> (r \<noteq> None \<and> view w' = m)"
    by (cases rule: doJSON_cases [of e ctx PUT ?path "Some (JRaw data)" w no_target])
      (use run put perform in \<open>auto simp: count write_outcome_def suffixed_def no_target_def
        latest_admissible latest_inadmissible split: if_splits\<close>)
  then show ?thesis using m by (auto simp: Inr)
qed

lemma deleteOne_forgetful:
  assumes "forgetful_gte e view" and "deleteOne e ctx k w = (r, w')"
  shows "\<exists>m. forgets (view w) m
    \<and> (view w' = latest (change_key (Deleted k)) (change_version (Deleted k)) (change_payload e (Deleted k)) m
       \<or> (r \<noteq> None \<and> view w' = m))"
proof -
  let ?path = "document_path e (key_id k) (dk_SourceVersion k)"
  let ?run = "doJSON e ctx DELETE ?path None no_target w"
  obtain res w1 where perform: "wi_perform (st_wire e) ctx \<lparr>rq_method = DELETE, rq_path = ?path, rq_body = None\<rparr> w = (res, w1)"
    by (cases "wi_perform (st_wire e) ctx \<lparr>rq_method = DELETE, rq_path = ?path, rq_body = None\<rparr> w")
  obtain m where m: "forgets (view w) m" and del: "write_outcome DELETE res (key_id k) (sint (dk_SourceVersion k)) None m (view w1)"
    using assms(1) perform unfolding forgetful_gte_def by blast
  have count: "view (observe e status w1) = view w1" for status w1
    using assms(1) unfolding forgetful_gte_def by blast
  have run: "(case ?run of (Inl err, w') \<Rightarrow> if errors_is err SearchNotFound then (None, w')
        else if as_response_status err = Some 409 then (None, w') else (Some err, w')
      | (Inr _, w') \<Rightarrow> (None, w')) = (r, w')"
    using assms(2) by (simp add: deleteOne_def key_id_def Let_def)
  have "view w' = latest (key_id k) (sint (dk_SourceVersion k)) None m \<or> (r \<noteq> None \<and> view w' = m)"
    by (cases rule: doJSON_cases [of e ctx DELETE ?path None w no_target])
      (use run del perform in \<open>auto simp: count write_outcome_def suffixed_def no_target_def
        latest_admissible latest_inadmissible split: if_splits\<close>)
  then show ?thesis using m by auto
qed

lemma applyChange_forgetful:
  assumes "forgetful_gte e view" and "applyChange e ctx c w = (r, w')"
  shows "\<exists>m. forgets (view w) m \<and> (view w' = latest (change_key c) (change_version c) (change_payload e c) m
      \<or> (r \<noteq> None \<and> view w' = m))"
proof (cases c)
  case (Upserted d)
  then show ?thesis using assms upsertOne_forgetful [of e view ctx d w r w'] by (simp add: Upsert_one del: Upsert.simps)
next
  case (Deleted k)
  then show ?thesis using assms deleteOne_forgetful [of e view ctx k w r w'] by (simp add: Delete_one del: Delete.simps)
qed

lemma engine_versioned_index:
  "external_gte e view \<Longrightarrow>
     versioned_index (applyChange e ctx) view change_key change_version (change_payload e)"
  by unfold_locales (rule applyChange_view)


section \<open>A reference server\<close>

text \<open>
  A server that keeps the contract, small enough to run: its state is the index itself. It is the
  concrete world of the closed instances.
\<close>

definition ref_write :: "http_method \<Rightarrow> string \<Rightarrow> int \<Rightarrow> stored \<Rightarrow> (stored index_view, err, Response) call" where
  "ref_write verb k v p m =
     (if admissible k v m
      then (Inr \<lparr>rs_status =
          (if verb = DELETE \<and> (case m k of Some (_, Some _) \<Rightarrow> False | _ \<Rightarrow> True) then 404 else 200), rs_body = []\<rparr>,
          m(k \<mapsto> (v, p)))
      else (Inr \<lparr>rs_status = 409, rs_body = []\<rparr>, m))"

definition ref_perform :: "string \<Rightarrow> Ctx \<Rightarrow> Request \<Rightarrow> (stored index_view, err, Response) call" where
  "ref_perform index ctx rq m =
     (case parse_document_path index (rq_path rq) of
        None \<Rightarrow> (Inr \<lparr>rs_status = 200, rs_body = []\<rparr>, m)
      | Some (k, v) \<Rightarrow>
          (case rq_body rq of
             Some (JRaw data) \<Rightarrow> ref_write (rq_method rq) k v (Some data) m
           | _ \<Rightarrow> ref_write (rq_method rq) k v None m))"

definition ref_store :: "string \<Rightarrow> (SearchDocument \<Rightarrow> err + string) \<Rightarrow> stored index_view Store" where
  "ref_store index marshal = \<lparr>st_wire = \<lparr>wi_perform = ref_perform index, wi_marshal = marshal,
     wi_unmarshal = (\<lambda>_. Inl (Plain ''no document'')),
     wi_decode = (\<lambda>_. Inr \<lparr>rw_Took = 0, rw_Total = 0, rw_Hits = [], rw_Aggregations = []\<rparr>),
     wi_observe = None\<rparr>, st_index = index\<rparr>"

lemma ref_store_simps [simp]:
  "st_index (ref_store index marshal) = index"
  "wi_perform (st_wire (ref_store index marshal)) = ref_perform index"
  "wi_marshal (st_wire (ref_store index marshal)) = marshal"
  "observe (ref_store index marshal) status m = m"
  by (simp_all add: ref_store_def observe_def)

lemma ref_parse [simp]:
  "parse_document_path index (document_path (ref_store index marshal) k v) = Some (k, sint v)"
  using parse_document_path [of "ref_store index marshal" k v] by (simp del: parse_document_path)

lemma ref_write_outcome:
  "ref_write verb k v p m = (res, m') \<Longrightarrow> write_outcome verb res k v p m m'"
  by (auto simp: ref_write_def write_outcome_def success_def split: if_splits)

lemma ref_external_gte: "external_gte (ref_store index marshal) (\<lambda>m. m)"
  unfolding external_gte_def by (auto simp: ref_perform_def intro: ref_write_outcome)

interpretation ref_index: versioned_index "applyChange (ref_store index marshal) ctx" "\<lambda>m. m"
    change_key change_version "change_payload (ref_store index marshal)"
  for index marshal ctx
  by (rule engine_versioned_index) (rule ref_external_gte)

text \<open>With a codec that always succeeds the reference server takes or supersedes every change.\<close>

lemma ref_applyChange:
  "applyChange (ref_store index (\<lambda>d. Inr (text d))) ctx c m
     = (None, absorb change_key change_version (change_payload (ref_store index (\<lambda>d. Inr (text d)))) c m)"
  by (cases c)
    (auto simp: Upsert_one Delete_one upsertOne_def deleteOne_def doJSON_def ref_perform_def ref_write_def
      success_def no_target_def absorb_def latest_def key_id_def [symmetric] Let_def
      simp del: Upsert.simps Delete.simps)

lemma ref_deliver:
  "deliver (applyChange (ref_store index (\<lambda>d. Inr (text d))) ctx) cs m
     = (replicate (length cs) None,
        fold (absorb change_key change_version (change_payload (ref_store index (\<lambda>d. Inr (text d))))) cs m)"
  by (induction cs arbitrary: m) (simp_all add: ref_applyChange)

lemma all_succeeded_replicate: "all_succeeded cs (replicate (length cs) None)"
  by (induction cs) (auto simp: all_succeeded_def)

definition example_update :: change where
  "example_update = Upserted (empty_document\<lparr>sd_Id := CanonicalID ''t'' ''s'' ''d'' ''1'', sd_Title := ''old'',
     sd_SourceVersion := 2\<rparr>)"

definition example_removal :: change where
  "example_removal = Deleted \<lparr>dk_TenantId = ''t'', dk_SourceService = ''s'', dk_DocumentType = ''d'',
     dk_SourceId = ''1'', dk_SourceVersion = 3\<rparr>"

section \<open>What repeated, reordered and failed writes leave behind\<close>

text \<open>C5: Convergence. Let the projection deliver changes to the engine in any order, with any
  repetition and with any failures in between, within the period for which OpenSearch remembers deletions.
  Once every change has succeeded at least once, the index holds exactly what one pass over the changes
  in any order would leave, provided changes of one document and one version carry the same content.\<close>

theorem writes_converge:
  assumes "external_gte e view"
    and "deliver (applyChange e ctx) cs w = (rs, w')"
    and "all_succeeded cs rs"
    and "consistent change_key change_version (change_payload e) (set cs)"
    and "set changes = set cs"
  shows "view w' = fold (absorb change_key change_version (change_payload e)) changes (view w)"
  using versioned_index.converges [OF engine_versioned_index [OF assms(1)] assms(2-5)] .

theorem writes_converge_witness:
  "snd (deliver (applyChange (ref_store ''i'' (\<lambda>d. Inr (sd_Title d))) background)
       [example_removal, example_update, example_removal] Map.empty)
   = fold (absorb change_key change_version (change_payload (ref_store ''i'' (\<lambda>d. Inr (sd_Title d)))))
       [example_update, example_removal] Map.empty
   \<and> snd (deliver (applyChange (ref_store ''i'' (\<lambda>d. Inr (sd_Title d))) background)
       [example_removal, example_update, example_removal] Map.empty) (CanonicalID ''t'' ''s'' ''d'' ''1'') = Some (3, None)"
proof -
  let ?e = "ref_store ''i'' (\<lambda>d. Inr (sd_Title d))"
  let ?cs = "[example_removal, example_update, example_removal]"
  have "consistent change_key change_version (change_payload ?e) (set ?cs)"
    by (simp add: consistent_def example_update_def example_removal_def)
  from writes_converge [OF ref_external_gte ref_deliver [of "''i''" sd_Title background ?cs Map.empty]
      all_succeeded_replicate this, of "[example_update, example_removal]"]
  have "snd (deliver (applyChange ?e background) ?cs Map.empty)
      = fold (absorb change_key change_version (change_payload ?e)) [example_update, example_removal] Map.empty"
    unfolding ref_deliver snd_conv by auto
  moreover have "fold (absorb change_key change_version (change_payload ?e)) [example_update, example_removal]
      Map.empty (CanonicalID ''t'' ''s'' ''d'' ''1'') = Some (3, None)"
    by (simp add: absorb_def latest_def admissible_def example_update_def example_removal_def
        empty_document_def key_id_def)
  ultimately show ?thesis by simp
qed



end
