(* ===== verification/IndexQueries.thy ===== *)
theory IndexQueries
  imports SearchStore
begin

text \<open>
  The queries of \<^verbatim>\<open>internal/searchstore/opensearch.go\<close>: what the filter clauses mean for a document,
  what a search through the service may therefore return, and which window of the results a page is.
\<close>

section \<open>The meaning of the filter clauses\<close>

text \<open>
  The values that the index has of a document for a field of the mapping. The documents are written by
  \<^verbatim>\<open>protojson.Marshal\<close>, which leaves an empty string field out, so such a field has no value; the
  elements of a list and the entries of a map are written also when they are empty. A flat-object attribute is
  addressed as \<^verbatim>\<open>attributes.<name>\<close>.
\<close>

definition present :: "string \<Rightarrow> string list" where
  "present x = (if x = [] then [] else [x])"

lemma set_present [simp]: "x \<in> set (present y) \<longleftrightarrow> x = y \<and> y \<noteq> []"
  by (auto simp: present_def)

lemma list_ex_present [simp]: "list_ex P (present x) \<longleftrightarrow> x \<noteq> [] \<and> P x"
  by (simp add: present_def)

definition doc_values :: "SearchDocument \<Rightarrow> string \<Rightarrow> string list" where
  "doc_values d field =
     (if field = ''id'' then present (sd_Id d)
      else if field = ''tenantId'' then present (sd_TenantId d)
      else if field = ''sourceService'' then present (sd_SourceService d)
      else if field = ''documentType'' then present (sd_DocumentType d)
      else if field = ''applicationId'' then present (sd_ApplicationId d)
      else if field = ''permissionCode'' then present (sd_PermissionCode d)
      else if field = ''visibilityTokens'' then sd_VisibilityTokens d
      else if HasPrefix field ''attributes.''
      then (case sd_Attributes d (drop (length ''attributes.'') field) of None \<Rightarrow> [] | Some x \<Rightarrow> [x])
      else [])"

text \<open>
  OpenSearch's \<^verbatim>\<open>term\<close> and \<^verbatim>\<open>terms\<close> clauses on keyword fields: some value of the document equals
  the given one, or one of the given ones. Clauses of another shape are not interpreted: they hold.
\<close>

fun filter_holds :: "SearchDocument \<Rightarrow> json \<Rightarrow> bool" where
  "filter_holds d (JObj [(oper, JObj [(field, JStr x)])]) = (oper = ''term'' \<longrightarrow> x \<in> set (doc_values d field))"
| "filter_holds d (JObj [(oper, JObj [(field, JArr xs)])]) =
     (oper = ''terms'' \<longrightarrow> list_ex (\<lambda>x. JStr x \<in> set xs) (doc_values d field))"
| "filter_holds d _ = True"

fun jfield :: "string \<Rightarrow> json \<Rightarrow> json option" where
  "jfield k (JObj ms) = map_of ms k"
| "jfield k _ = None"

definition query_filters :: "json \<Rightarrow> json list" where
  "query_filters body =
     (case Option.bind (Option.bind (jfield ''query'' body) (jfield ''bool'')) (jfield ''filter'') of
        Some (JArr fs) \<Rightarrow> fs
      | _ \<Rightarrow> [])"

fun filter_met :: "SearchDocument \<Rightarrow> string \<times> string list option \<Rightarrow> bool" where
  "filter_met d (field, None) = True"
| "filter_met d (field, Some xs) =
     (\<not> allowedFilter field \<or> xs = [] \<or> list_ex (\<lambda>x. x \<in> set xs) (doc_values d field))"

text \<open>
  What a request asks of a document, without the query language. An empty value asks for nothing that a
  document could have.
\<close>

definition admitted :: "SearchRequest \<Rightarrow> string list \<Rightarrow> SearchDocument \<Rightarrow> bool" where
  "admitted r visibility d \<longleftrightarrow>
     sd_TenantId d = sr_TenantId r \<and> sd_TenantId d \<noteq> []
     \<and> list_ex (\<lambda>t. t \<in> set visibility) (sd_VisibilityTokens d)
     \<and> (sr_DocumentTypes r = [] \<or> sd_DocumentType d \<in> set (sr_DocumentTypes r) \<and> sd_DocumentType d \<noteq> [])
     \<and> (sr_ApplicationIds r = [] \<or> sd_ApplicationId d \<in> set (sr_ApplicationIds r) \<and> sd_ApplicationId d \<noteq> [])
     \<and> list_all (filter_met d) (sr_Filters r)"

lemma filter_holds_term [simp]: "filter_holds d (term1 field x) \<longleftrightarrow> x \<in> set (doc_values d field)"
  by (simp add: term1_def)

lemma filter_holds_terms [simp]:
  "filter_holds d (terms field xs) \<longleftrightarrow> list_ex (\<lambda>x. x \<in> set xs) (doc_values d field)"
  by (simp add: terms_def jstrs_def image_iff)

lemma requestFilters_hold:
  "list_all (filter_holds d) (requestFilters fs) \<longleftrightarrow> list_all (filter_met d) fs"
  by (induction fs rule: requestFilters.induct) (auto split: option.splits)

lemma query_filters_build [simp]:
  "query_filters (buildSearchQuery r visibility) = filterClauses r visibility"
  by (simp add: query_filters_def buildSearchQuery_def Let_def)

lemma filterClauses_hold: "list_all (filter_holds d) (filterClauses r visibility) \<longleftrightarrow> admitted r visibility d"
  by (auto simp: filterClauses_def requestFilters_hold admitted_def doc_values_def)

text \<open>C15: The filter of a query means what the request asks for: a document passes every clause of
  the query built for a request and a list of visibility tokens exactly if it belongs to the tenant,
  carries one of the tokens, has one of the requested types and applications when any are requested,
  and matches every filter on an allowed field. A tenant, type or application that is empty is one
  that no document has.\<close>

theorem query_filter_meaning:
  "list_all (filter_holds d) (query_filters (buildSearchQuery r visibility)) \<longleftrightarrow> admitted r visibility d"
  by (simp add: filterClauses_hold)

text \<open>The clauses a caller can add to a query.\<close>

definition caller_clause :: "json \<Rightarrow> bool" where
  "caller_clause c \<longleftrightarrow> (\<exists>field xs. c = terms field xs \<and> xs \<noteq> [] \<and> allowedFilter field
     \<and> field \<noteq> ''tenantId'' \<and> field \<noteq> ''visibilityTokens'')"

lemma caller_clauseI: "allowedFilter field \<Longrightarrow> xs \<noteq> [] \<Longrightarrow> caller_clause (terms field xs)"
  unfolding caller_clause_def by (intro exI conjI refl) (auto simp: allowedFilter_def)

lemma requestFilters_caller: "list_all caller_clause (requestFilters fs)"
  by (induction fs rule: requestFilters.induct) (simp_all add: caller_clauseI split: option.split)

text \<open>Request filters cannot widen a query or reach other fields. Whatever filters a request has, the
  clauses of its query begin with the tenant and the visibility tokens, and every further clause
  restricts an allowed field, which is neither of these two, to a non-empty list of values.\<close>

theorem query_filter_fields:
  "\<exists>rest. filterClauses r visibility = term1 ''tenantId'' (sr_TenantId r) # terms ''visibilityTokens'' visibility # rest
     \<and> list_all caller_clause rest"
  unfolding filterClauses_def append_Cons append_Nil
  by (intro exI conjI, rule refl)
    (auto simp: list_all_append requestFilters_caller caller_clauseI allowedFilter_def [of "''documentType''"]
      allowedFilter_def [of "''applicationId''"])

section \<open>What a search may return\<close>

text \<open>
  The documented behaviour the code relies on: every hit of a \<^verbatim>\<open>_search\<close> answer satisfies the filter
  clauses of the query that was sent. It is asked for the queries that the engine builds, whose clauses are
  on keyword fields and attributes.
\<close>

definition honours_filters :: "'w Store \<Rightarrow> bool" where
  "honours_filters e \<longleftrightarrow>
     (\<forall>ctx request visibility w r w' raw h d.
        wi_perform (st_wire e) ctx
          \<lparr>rq_method = POST, rq_path = index_path e @ ''/_search'', rq_body = Some (buildSearchQuery request visibility)\<rparr> w
          = (Inr r, w')
        \<and> success (rs_status r) \<and> wi_decode (st_wire e) (rs_body r) = Inr raw \<and> h \<in> set (rw_Hits raw)
        \<and> wi_unmarshal (st_wire e) (rh_Source h) = Inr d
        \<longrightarrow> list_all (filter_holds d) (query_filters (buildSearchQuery request visibility)))"

lemma honours_filtersD:
  assumes "honours_filters e"
    and "wi_perform (st_wire e) ctx
      \<lparr>rq_method = POST, rq_path = index_path e @ ''/_search'', rq_body = Some (buildSearchQuery request visibility)\<rparr> w = (Inr r, w')"
    and "success (rs_status r)" and "wi_decode (st_wire e) (rs_body r) = Inr raw" and "h \<in> set (rw_Hits raw)"
    and "wi_unmarshal (st_wire e) (rh_Source h) = Inr d"
  shows "list_all (filter_holds d) (query_filters (buildSearchQuery request visibility))"
  by (rule assms(1) [unfolded honours_filters_def, THEN spec, THEN spec, THEN spec, THEN spec, THEN spec,
      THEN spec, THEN spec, THEN spec, THEN spec, THEN mp]) (rule conjI, rule assms(2), rule conjI, rule assms(3),
      rule conjI, rule assms(4), rule conjI, rule assms(5), rule assms(6))

lemma decodeHits_documents:
  "decodeHits unmarshal hs = Inr hits \<Longrightarrow> hit \<in> set hits \<Longrightarrow>
     \<exists>h \<in> set hs. unmarshal (rh_Source h) = Inr (sh_Document hit)"
proof (induction hs arbitrary: hits)
  case (Cons h hs)
  then show ?case by (auto split: sum.splits)
qed simp

lemma Search_hits_admitted:
  assumes "honours_filters e" and "Search e ctx r visibility w = (Inr response, w')"
    and "hit \<in> set (sp_Hits response)"
  shows "admitted r visibility (sh_Document hit)"
proof -
  let ?body = "buildSearchQuery r visibility"
  obtain raw hits where raw: "doJSON e ctx POST (index_path e @ ''/_search'') (Some ?body) (wi_decode (st_wire e)) w
        = (Inr raw, w')"
    and hits: "decodeHits (wi_unmarshal (st_wire e)) (rw_Hits raw) = Inr hits"
    and resp: "sp_Hits response = hits"
    using assms(2) by (auto simp: Search_def split: prod.splits sum.splits)
  from hits assms(3) obtain h where "h \<in> set (rw_Hits raw)"
    and "wi_unmarshal (st_wire e) (rh_Source h) = Inr (sh_Document hit)"
    unfolding resp using decodeHits_documents by blast
  moreover obtain rs w1 where "wi_perform (st_wire e) ctx
      \<lparr>rq_method = POST, rq_path = index_path e @ ''/_search'', rq_body = Some ?body\<rparr> w = (Inr rs, w1)"
    and "success (rs_status rs)" and "wi_decode (st_wire e) (rs_body rs) = Inr raw"
  proof (cases rule: doJSON_cases [of e ctx POST "index_path e @ ''/_search''" "Some ?body" w "wi_decode (st_wire e)"])
    case (answered rs w1)
    then show ?thesis using raw that [of rs w1] by (cases "wi_decode (st_wire e) (rs_body rs)") auto
  qed (use raw in auto)
  ultimately have "list_all (filter_holds (sh_Document hit)) (query_filters ?body)"
    by - (rule honours_filtersD [OF assms(1)])
  then show ?thesis by (simp add: filterClauses_hold)
qed

section \<open>Through the service\<close>

text \<open>A server that holds one document and answers a query with it if it passes the filter.\<close>

definition one_document :: "SearchDocument \<Rightarrow> unit Store" where
  "one_document d = \<lparr>st_wire = \<lparr>
     wi_perform = (\<lambda>ctx rq w.
       (Inr \<lparr>rs_status = 200, rs_body =
          (case rq_body rq of
             Some body \<Rightarrow> if list_all (filter_holds d) (query_filters body) then ''hit'' else ''none''
           | None \<Rightarrow> ''none'')\<rparr>, w)),
     wi_marshal = (\<lambda>_. Inr ''''), wi_unmarshal = (\<lambda>_. Inr d),
     wi_decode = (\<lambda>body. Inr \<lparr>rw_Took = 1, rw_Total = 1,
       rw_Hits = (if body = ''hit'' then [\<lparr>rh_Source = '''', rh_Score = 0, rh_Highlight = []\<rparr>] else []),
       rw_Aggregations = []\<rparr>),
     wi_observe = None\<rparr>, st_index = ''search''\<rparr>"

lemma one_document_honours: "honours_filters (one_document d)"
  by (auto simp: honours_filters_def one_document_def split: option.splits if_splits)

lemma one_document_Search:
  "Search (one_document d) ctx r visibility w =
     (Inr \<lparr>sp_Hits = (if admitted r visibility d then [\<lparr>sh_Document = d, sh_Score = 0, sh_Highlights = []\<rparr>] else []),
        sp_Total = 1, sp_Page = sr_Page r, sp_PageSize = sr_PageSize r, sp_Facets = [],
        sp_TookMilliseconds = 1\<rparr>, w)"
  by (simp add: Search_def doJSON_def one_document_def success_def observe_def filterClauses_hold)

abbreviation store_service :: "'w Store \<Rightarrow> 'w ApplicationAccess \<Rightarrow> 'w Service" where
  "store_service e check \<equiv> \<lparr>sv_engine = store_engine e, sv_applications = check\<rparr>"

definition only_a :: "'w ApplicationAccess" where
  "only_a ctx tenantID ids w = (Inr (\<lambda>a. Some \<lparr>dc_Granted = (a = ''a'')\<rparr>), w)"

definition example_document :: "SearchDocument" where
  "example_document = empty_document\<lparr>sd_Id := ''t:s:d:1'', sd_TenantId := ''t'', sd_SourceService := ''s'',
     sd_DocumentType := ''d'', sd_SourceId := ''1'', sd_ApplicationId := ''a'',
     sd_VisibilityTokens := [''user:u''], sd_SourceVersion := 1\<rparr>"

lemma admitted_normalizePage [simp]: "admitted (normalizePage r) = admitted r"
  by (intro ext) (simp add: admitted_def)

lemma Service_Search_isolated:
  assumes "honours_filters e"
    and "Service_Search (store_service e check) ctx (Some r) visibility w = (Inr response, w')"
    and "hit \<in> set (sp_Hits response)"
  shows "sd_TenantId (sh_Document hit) = sr_TenantId r
    \<and> (\<exists>t \<in> set (sd_VisibilityTokens (sh_Document hit)).
         t = tenantToken (sr_TenantId r) \<or> t \<in> TrimSpace ` set visibility)
    \<and> (sr_ApplicationIds r = [] \<or> sd_ApplicationId (sh_Document hit) \<in> TrimSpace ` set (sr_ApplicationIds r))
    \<and> mayUse (store_service e check) ctx (sr_TenantId r) (sr_ApplicationIds r) w"
proof (rule authorizeApplications_cases [of "store_service e check" ctx "sr_TenantId r" "sr_ApplicationIds r" w])
  fix w1
  assume ok: "authorizeApplications (store_service e check) ctx (sr_TenantId r) (sr_ApplicationIds r) w
      = (Inr (uniq (map TrimSpace (sr_ApplicationIds r))), w1)"
    and may: "mayUse (store_service e check) ctx (sr_TenantId r) (sr_ApplicationIds r) w"
  let ?q = "normalizePage (r\<lparr>sr_ApplicationIds := uniq (map TrimSpace (sr_ApplicationIds r))\<rparr>)"
  have "Search e ctx ?q (normalizeVisibility (sr_TenantId r) visibility) w1 = (Inr response, w')"
    using assms(2) ok by (auto simp: Service_Search_def store_engine_def split: if_splits)
  from Search_hits_admitted [OF assms(1) this assms(3)] may show ?thesis
    by (auto simp: admitted_def list_ex_iff set_normalizeVisibility)
next
  fix err w1
  assume "authorizeApplications (store_service e check) ctx (sr_TenantId r) (sr_ApplicationIds r) w = (Inl err, w1)"
  then show ?thesis using assms(2) by (auto simp: Service_Search_def split: if_splits)
qed

text \<open>C4: Tenant, visibility and application isolation of search, from the handler's arguments to the
  hits. Every document a search returns belongs to the requested tenant, carries the tenant-wide
  token of that tenant or a token the caller holds, and, when applications were requested, belongs to
  one of them, all of which the verifier granted. A search that names no application is not restricted
  by application: Search_without_applications shows that it answers documents whose application
  was never asked about.\<close>

theorem Search_isolation:
  assumes "honours_filters e"
    and "Service_Search (store_service e check) ctx (Some r) visibility w = (Inr response, w')"
    and "hit \<in> set (sp_Hits response)"
  shows "sd_TenantId (sh_Document hit) = sr_TenantId r
    \<and> (\<exists>t \<in> set (sd_VisibilityTokens (sh_Document hit)).
         t = tenantToken (sr_TenantId r) \<or> t \<in> TrimSpace ` set visibility)
    \<and> (sr_ApplicationIds r = [] \<or> sd_ApplicationId (sh_Document hit) \<in> TrimSpace ` set (sr_ApplicationIds r))
    \<and> mayUse (store_service e check) ctx (sr_TenantId r) (sr_ApplicationIds r) w"
  using assms by (rule Service_Search_isolated)

theorem Search_isolation_witness:
  "\<exists>response. Service_Search (store_service (one_document example_document) only_a) background
      (Some (empty_request\<lparr>sr_TenantId := ''t'', sr_ApplicationIds := [''a '']\<rparr>)) ['' user:u''] () = (Inr response, ())
    \<and> sp_Hits response \<noteq> []
    \<and> (\<exists>t \<in> set (sd_VisibilityTokens (sh_Document (hd (sp_Hits response)))).
         t = tenantToken ''t'' \<or> t \<in> TrimSpace ` {'' user:u''})"
proof -
  let ?r = "empty_request\<lparr>sr_TenantId := ''t'', sr_ApplicationIds := [''a '']\<rparr>"
  let ?resp = "\<lparr>sp_Hits = [\<lparr>sh_Document = example_document, sh_Score = 0, sh_Highlights = []\<rparr>],
        sp_Total = 1, sp_Page = 1, sp_PageSize = 20, sp_Facets = [], sp_TookMilliseconds = 1\<rparr>"
  have run: "Service_Search (store_service (one_document example_document) only_a) background (Some ?r) ['' user:u''] ()
      = (Inr ?resp, ())"
    by (simp add: Service_Search_def authorizeApplications_def only_a_def granted_def maxApplications_def
        store_engine_def one_document_Search admitted_def example_document_def empty_document_def empty_request_def
        normalizePage_eval set_normalizeVisibility list_ex_iff trim_eval)
  have "\<exists>t \<in> set (sd_VisibilityTokens (sh_Document (hd (sp_Hits ?resp)))).
         t = tenantToken ''t'' \<or> t \<in> TrimSpace ` {'' user:u''}"
    using Search_isolation [OF one_document_honours run, of "hd (sp_Hits ?resp)"] by simp
  with run show ?thesis by (intro exI [of _ ?resp]) simp
qed

lemma Service_Get_isolated:
  assumes "honours_filters e"
    and "Service_Get (store_service e check) ctx tenantID ident visibility w = (Inr d, w')"
  shows "sd_Id d = ident \<and> sd_TenantId d = tenantID
    \<and> (\<exists>t \<in> set (sd_VisibilityTokens d). t = tenantToken tenantID \<or> t \<in> TrimSpace ` set visibility)
    \<and> (sd_ApplicationId d = [] \<or> (\<exists>w1. mayUse (store_service e check) ctx tenantID [sd_ApplicationId d] w1))"
proof -
  let ?r = "empty_request\<lparr>sr_TenantId := tenantID, sr_Filters := [(''id'', Some [ident])], sr_Page := 1, sr_PageSize := 1\<rparr>"
  obtain w1 where get: "Get e ctx tenantID ident (normalizeVisibility tenantID visibility) w = (Inr d, w1)"
    and app: "sd_ApplicationId d = [] \<or> mayUse (store_service e check) ctx tenantID [sd_ApplicationId d] w1"
    using assms(2) authorizeApplications_iff [of "store_service e check" ctx tenantID]
    by (fastforce simp: Service_Get_def store_engine_def split: if_splits sum.splits prod.splits)
  obtain response hit where "Search e ctx ?r (normalizeVisibility tenantID visibility) w = (Inr response, w1)"
    and "hit \<in> set (sp_Hits response)" and "d = sh_Document hit"
    using get by (auto simp: Get_def split: sum.splits prod.splits list.splits)
  from Search_hits_admitted [OF assms(1) this(1,2)] this(3) app show ?thesis
    by (auto simp: admitted_def list_ex_iff set_normalizeVisibility allowedFilter_def doc_values_def)
qed

text \<open>C10: Get through the service. The document returned has the requested identifier and tenant, is
  visible to the caller, and its application, when it has one, was granted.\<close>

theorem Get_isolation:
  assumes "honours_filters e"
    and "Service_Get (store_service e check) ctx tenantID ident visibility w = (Inr d, w')"
  shows "sd_Id d = ident \<and> sd_TenantId d = tenantID
    \<and> (\<exists>t \<in> set (sd_VisibilityTokens d). t = tenantToken tenantID \<or> t \<in> TrimSpace ` set visibility)
    \<and> (sd_ApplicationId d = [] \<or> (\<exists>w1. mayUse (store_service e check) ctx tenantID [sd_ApplicationId d] w1))"
  using assms by (rule Service_Get_isolated)

theorem Get_isolation_witness:
  "Service_Get (store_service (one_document example_document) only_a) background ''t'' ''t:s:d:1'' [''user:u''] ()
     = (Inr example_document, ())
   \<and> (\<exists>t \<in> set (sd_VisibilityTokens example_document). t = tenantToken ''t'' \<or> t \<in> TrimSpace ` {''user:u''})"
proof -
  have run: "Service_Get (store_service (one_document example_document) only_a) background ''t'' ''t:s:d:1'' [''user:u''] ()
     = (Inr example_document, ())"
    by (simp add: Service_Get_def authorizeApplications_def only_a_def granted_def maxApplications_def
        store_engine_def Get_def one_document_Search admitted_def example_document_def empty_document_def
        empty_request_def set_normalizeVisibility list_ex_iff allowedFilter_def doc_values_def trim_eval)
  with Get_isolation [OF one_document_honours run] show ?thesis by simp
qed

text \<open>Grants bind what is asked for, not what is found. A search that names no application is not
  restricted to granted applications: there are a store and a verifier such that a document whose
  application is refused to the caller, and which Get therefore withholds, is returned whole by Search.\<close>

theorem Search_without_applications:
  "\<exists>d visibility. fst (Service_Get (store_service (one_document d) only_a) background (sd_TenantId d) (sd_Id d) visibility ())
      = Inl (suffixed (Sentinel SearchForbidden) (''application '' @ sd_ApplicationId d))
   \<and> map sh_Document (sp_Hits (projr (fst (Service_Search (store_service (one_document d) only_a) background
        (Some (empty_request\<lparr>sr_TenantId := sd_TenantId d\<rparr>)) visibility ())))) = [d]"
proof -
  let ?d = "example_document\<lparr>sd_ApplicationId := ''b''\<rparr>"
  have "fst (Service_Get (store_service (one_document ?d) only_a) background (sd_TenantId ?d) (sd_Id ?d) [''user:u''] ())
      = Inl (suffixed (Sentinel SearchForbidden) (''application '' @ sd_ApplicationId ?d))"
    by (simp add: Service_Get_def authorizeApplications_def only_a_def granted_def maxApplications_def
        store_engine_def Get_def one_document_Search admitted_def example_document_def empty_document_def
        empty_request_def set_normalizeVisibility list_ex_iff allowedFilter_def doc_values_def trim_eval)
  moreover have "map sh_Document (sp_Hits (projr (fst (Service_Search (store_service (one_document ?d) only_a) background
        (Some (empty_request\<lparr>sr_TenantId := sd_TenantId ?d\<rparr>)) [''user:u''] ())))) = [?d]"
    by (simp add: Service_Search_def authorizeApplications_def maxApplications_def
        store_engine_def one_document_Search admitted_def example_document_def empty_document_def empty_request_def
        normalizePage_eval set_normalizeVisibility list_ex_iff trim_eval)
  ultimately show ?thesis by (intro exI [of _ ?d] exI [of _ "[''user:u'']"] conjI)
qed

section \<open>Pages\<close>

lemma pageOffset_exact:
  assumes "sr_Page r \<noteq> 0" and "(uint (sr_Page r) - 1) * uint (sr_PageSize r) < 2 ^ 32"
  shows "pageOffset r = (uint (sr_Page r) - 1) * uint (sr_PageSize r)"
proof -
  have "1 \<le> sr_Page r" using assms(1) one_le_word [of "sr_Page r"] by blast
  then have "uint (sr_Page r - 1) = uint (sr_Page r) - 1"
    using uint_sub_lem [of 1 "sr_Page r"] by (simp add: word_le_def)
  then have "uint ((sr_Page r - 1) * sr_PageSize r) = ((uint (sr_Page r) - 1) * uint (sr_PageSize r)) mod 2 ^ 32"
    by (simp add: uint_word_ariths)
  also have "\<dots> = (uint (sr_Page r) - 1) * uint (sr_PageSize r)"
    using assms(2) \<open>uint (sr_Page r - 1) = uint (sr_Page r) - 1\<close> [symmetric] by (intro mod_pos_pos_trivial) simp_all
  finally show ?thesis by (simp add: pageOffset_def)
qed

text \<open>C39: Pages up to number 42,949,673. The window a page asks OpenSearch for starts exactly after the
  windows of the earlier pages, for every page size.\<close>

theorem page_window:
  assumes "sr_Page r \<le> 42949673"
  shows "pageOffset (normalizePage r) = (uint (sr_Page (normalizePage r)) - 1) * uint (sr_PageSize (normalizePage r))"
proof (rule pageOffset_exact)
  show "sr_Page (normalizePage r) \<noteq> 0" by (simp add: normalizePage_eval)
  have "uint (sr_Page (normalizePage r)) \<le> 42949673"
    using assms by (auto simp: normalizePage_eval word_le_def)
  moreover have "sr_PageSize (normalizePage r) \<le> 100"
    by (auto simp: normalizePage_eval min_def)
  then have "uint (sr_PageSize (normalizePage r)) \<le> 100" by (simp add: word_le_def)
  moreover have "0 \<le> uint (sr_PageSize (normalizePage r))" by simp
  ultimately have "(uint (sr_Page (normalizePage r)) - 1) * uint (sr_PageSize (normalizePage r)) \<le> 42949672 * 100"
    by (intro mult_mono) simp_all
  then show "(uint (sr_Page (normalizePage r)) - 1) * uint (sr_PageSize (normalizePage r)) < 2 ^ 32" by simp
qed

theorem page_window_witness:
  "pageOffset (normalizePage (empty_request\<lparr>sr_Page := 42949673, sr_PageSize := 100\<rparr>)) = 4294967200"
  using page_window [of "empty_request\<lparr>sr_Page := 42949673, sr_PageSize := 100\<rparr>"]
  by (simp add: normalizePage_eval)

text \<open>The next page wraps. The offset is computed in 32 bits, so page 42,949,674 of size 100 asks
  OpenSearch for the hits from offset 4, near the top of the results, instead of past their end.\<close>

theorem page_window_wraps:
  "pageOffset (normalizePage (empty_request\<lparr>sr_Page := 42949674, sr_PageSize := 100\<rparr>)) = 4
   \<and> jfield ''from'' (buildSearchQuery (normalizePage (empty_request\<lparr>sr_Page := 42949674, sr_PageSize := 100\<rparr>)) visibility)
     = Some (JInt 4)"
proof -
  have "pageOffset (normalizePage (empty_request\<lparr>sr_Page := 42949674, sr_PageSize := 100\<rparr>)) = 4"
    by (simp add: pageOffset_def normalizePage_eval)
  then show ?thesis by (simp add: buildSearchQuery_def Let_def)
qed

end
