(* ===== verification/GrpcServer.thy ===== *)
theory GrpcServer
  imports RequestContext Auth SearchAuth IndexWrites IndexQueries
begin

text \<open>
  \<^verbatim>\<open>internal/transport/grpc/server.go\<close>: the five handlers of the search service, the mapping of errors to
  status codes, and the chain of interceptors in front of them. The platform library's authorization
  and idempotency interceptors, the response headers, the metrics counters, randomness and the clock
  are fields of a record; the log lines are left out.
\<close>

section \<open>Handlers\<close>

record 'w searchServer =
  ss_service :: "'w Service"
  ss_access :: "'w BindingsClient option option"  \<comment> \<open>the resolver pointer, and the client in it\<close>

record GetDocumentRequest =
  gd_TenantId :: string
  gd_Id :: string

text \<open>The requests and answers of the five methods.\<close>

datatype Rpc = RpcSearch | RpcSuggest | RpcGetDocument | RpcBatchUpsertDocuments | RpcBatchDeleteDocuments

datatype GrpcRequest =
    SearchRq "SearchRequest option"
  | SuggestRq "SuggestRequest option"
  | GetRq "GetDocumentRequest option"
  | UpsertRq "SearchDocument option list"
  | DeleteRq "DocumentKey option list"

datatype GrpcResponse =
    SearchRs SearchResponse
  | SuggestRs SuggestResponse
  | DocumentRs SearchDocument
  | AcceptedRs uint32

primrec rpc_of :: "GrpcRequest \<Rightarrow> Rpc" where
  "rpc_of (SearchRq _) = RpcSearch"
| "rpc_of (SuggestRq _) = RpcSuggest"
| "rpc_of (GetRq _) = RpcGetDocument"
| "rpc_of (UpsertRq _) = RpcBatchUpsertDocuments"
| "rpc_of (DeleteRq _) = RpcBatchDeleteDocuments"

text \<open>The generated getters return zero values for a nil message.\<close>

definition getter :: "('m \<Rightarrow> string) \<Rightarrow> 'm option \<Rightarrow> string" where
  "getter f m = (case m of None \<Rightarrow> [] | Some x \<Rightarrow> f x)"

fun searchError :: "err option \<Rightarrow> err option" where
  "searchError None = None"
| "searchError (Some e) = Some
     (if errors_is e SearchInvalidArgument then StatusError CInvalidArgument (err_text e)
      else if errors_is e SearchNotFound then StatusError CNotFound ''document not found''
      else if errors_is e SearchForbidden then StatusError CPermissionDenied ''application access denied''
      else if errors_is e SearchUnavailable then StatusError CUnavailable ''search unavailable''
      else StatusError CInternal ''internal server error'')"

definition requireIndexer :: "Ctx \<Rightarrow> err option" where
  "requireIndexer ctx =
     (case cx_principal ctx of
        None \<Rightarrow> Some (StatusError CUnauthenticated ''authenticated service principal is required'')
      | Some identity \<Rightarrow>
          if pr_Type identity \<noteq> TypeServiceAccount \<and> pr_Type identity \<noteq> TypeSystem
          then Some (StatusError CPermissionDenied ''service principal is required for indexing'')
          else None)"

definition callerVisibility ::
    "Ctx \<Rightarrow> string \<Rightarrow> 'w BindingsClient option option \<Rightarrow> ('w, err, string list) call" where
  "callerVisibility ctx tenantID access w =
     (case access of
        Some resolver \<Rightarrow>
          (case VisibilityTokens resolver ctx tenantID w of
             (Inl e, w') \<Rightarrow>
               (Inl (if errors_is e AccessForbidden then StatusError CPermissionDenied ''tenant access denied''
                     else StatusError CUnavailable ''authorization unavailable''), w')
           | (Inr values, w') \<Rightarrow> (Inr values, w'))
      | None \<Rightarrow>
          (case cx_principal ctx of
             None \<Rightarrow> (Inr [], w)
           | Some identity \<Rightarrow>
               if pr_ID identity = [] then (Inr [], w)
               else if pr_TenantID identity \<noteq> [] \<and> pr_TenantID identity \<noteq> tenantID
               then (Inl (StatusError CPermissionDenied ''tenant access denied''), w)
               else (Inr ([''user:'' @ pr_ID identity]
                 @ (if pr_MembershipID identity \<noteq> [] then [''membership:'' @ pr_MembershipID identity] else [])), w)))"

definition grpcSearch ::
    "'w searchServer \<Rightarrow> Ctx \<Rightarrow> SearchRequest option \<Rightarrow> ('w, err, GrpcResponse) call" where
  "grpcSearch s ctx request w =
     (case callerVisibility ctx (getter sr_TenantId request) (ss_access s) w of
        (Inl e, w') \<Rightarrow> (Inl e, w')
      | (Inr visibility, w') \<Rightarrow>
          (case Service_Search (ss_service s) ctx request visibility w' of
             (Inl e, w'') \<Rightarrow> (Inl (the (searchError (Some e))), w'')
           | (Inr result, w'') \<Rightarrow> (Inr (SearchRs result), w'')))"

definition grpcSuggest ::
    "'w searchServer \<Rightarrow> Ctx \<Rightarrow> SuggestRequest option \<Rightarrow> ('w, err, GrpcResponse) call" where
  "grpcSuggest s ctx request w =
     (case callerVisibility ctx (getter sg_TenantId request) (ss_access s) w of
        (Inl e, w') \<Rightarrow> (Inl e, w')
      | (Inr visibility, w') \<Rightarrow>
          (case Service_Suggest (ss_service s) ctx request visibility w' of
             (Inl e, w'') \<Rightarrow> (Inl (the (searchError (Some e))), w'')
           | (Inr result, w'') \<Rightarrow> (Inr (SuggestRs result), w'')))"

definition grpcGetDocument ::
    "'w searchServer \<Rightarrow> Ctx \<Rightarrow> GetDocumentRequest option \<Rightarrow> ('w, err, GrpcResponse) call" where
  "grpcGetDocument s ctx request w =
     (case callerVisibility ctx (getter gd_TenantId request) (ss_access s) w of
        (Inl e, w') \<Rightarrow> (Inl e, w')
      | (Inr visibility, w') \<Rightarrow>
          (case Service_Get (ss_service s) ctx (getter gd_TenantId request) (getter gd_Id request) visibility w' of
             (Inl e, w'') \<Rightarrow> (Inl (the (searchError (Some e))), w'')
           | (Inr document, w'') \<Rightarrow> (Inr (DocumentRs document), w'')))"

definition grpcBatchUpsertDocuments ::
    "'w searchServer \<Rightarrow> Ctx \<Rightarrow> SearchDocument option list \<Rightarrow> ('w, err, GrpcResponse) call" where
  "grpcBatchUpsertDocuments s ctx documents w =
     (case requireIndexer ctx of
        Some e \<Rightarrow> (Inl e, w)
      | None \<Rightarrow>
          (case Service_BatchUpsert (ss_service s) ctx documents w of
             (Some e, w') \<Rightarrow> (Inl (the (searchError (Some e))), w')
           | (None, w') \<Rightarrow> (Inr (AcceptedRs (of_nat (length documents))), w')))"

definition grpcBatchDeleteDocuments ::
    "'w searchServer \<Rightarrow> Ctx \<Rightarrow> DocumentKey option list \<Rightarrow> ('w, err, GrpcResponse) call" where
  "grpcBatchDeleteDocuments s ctx documents w =
     (case requireIndexer ctx of
        Some e \<Rightarrow> (Inl e, w)
      | None \<Rightarrow>
          (case Service_BatchDelete (ss_service s) ctx documents w of
             (Some e, w') \<Rightarrow> (Inl (the (searchError (Some e))), w')
           | (None, w') \<Rightarrow> (Inr (AcceptedRs (of_nat (length documents))), w')))"

primrec handle :: "'w searchServer \<Rightarrow> GrpcRequest \<Rightarrow> Ctx \<Rightarrow> ('w, err, GrpcResponse) call" where
  "handle s (SearchRq r) ctx = grpcSearch s ctx r"
| "handle s (SuggestRq r) ctx = grpcSuggest s ctx r"
| "handle s (GetRq r) ctx = grpcGetDocument s ctx r"
| "handle s (UpsertRq ds) ctx = grpcBatchUpsertDocuments s ctx ds"
| "handle s (DeleteRq ks) ctx = grpcBatchDeleteDocuments s ctx ks"

section \<open>Interceptors\<close>

text \<open>
  A call ends in a reply or in a panic that unwinds through the interceptors. For a unary call the
  reply is an error or a response, for a stream the error with which the handler returns.
\<close>

datatype 'a reply = Replied 'a | Panicked string

type_synonym ('w, 'a) handler = "Ctx \<Rightarrow> 'w \<Rightarrow> 'a reply \<times> 'w"
type_synonym ('w, 'a) interceptor = "('w, 'a) handler \<Rightarrow> ('w, 'a) handler"
type_synonym unary = "err + GrpcResponse"

datatype Scope = ScopePrincipal | ScopePlatform

record Requirement =
  rm_Resource :: string
  rm_Action :: string
  rm_Scope :: Scope

record 'w Platform =
  pf_method :: "Rpc \<Rightarrow> string"  \<comment> \<open>the generated \<^verbatim>\<open>SearchService_*_FullMethodName\<close> constants\<close>
  pf_random :: "('w, err, nat \<Rightarrow> 8 word) call"
  pf_clock :: "'w \<Rightarrow> int64 \<times> 'w"
  pf_set_header :: "string \<Rightarrow> ('w, err) call_err"
  pf_valid_key :: "string \<Rightarrow> bool"
  pf_authorize :: "(string \<Rightarrow> Requirement option) \<Rightarrow> string \<Rightarrow> GrpcRequest \<Rightarrow> ('w, unary) interceptor"
  pf_idempotent :: "string list \<Rightarrow> string \<Rightarrow> GrpcRequest \<Rightarrow> ('w, unary) interceptor"
  pf_metric :: "(string \<Rightarrow> code \<Rightarrow> 'w \<Rightarrow> 'w) option"  \<comment> \<open>\<^const>\<open>None\<close> when metrics are disabled\<close>

definition searchGRPCRequirement :: "(Rpc \<Rightarrow> string) \<Rightarrow> bool \<Rightarrow> string \<Rightarrow> Requirement option" where
  "searchGRPCRequirement names enabled verb =
     (if \<not> enabled then None
      else map_of
        [(names RpcSearch, \<lparr>rm_Resource = ''search.document'', rm_Action = ''search'', rm_Scope = ScopePrincipal\<rparr>),
         (names RpcSuggest, \<lparr>rm_Resource = ''search.document'', rm_Action = ''suggest'', rm_Scope = ScopePrincipal\<rparr>),
         (names RpcGetDocument, \<lparr>rm_Resource = ''search.document'', rm_Action = ''read'', rm_Scope = ScopePrincipal\<rparr>),
         (names RpcBatchUpsertDocuments, \<lparr>rm_Resource = ''search.index'', rm_Action = ''upsert'', rm_Scope = ScopePlatform\<rparr>),
         (names RpcBatchDeleteDocuments, \<lparr>rm_Resource = ''search.index'', rm_Action = ''delete'', rm_Scope = ScopePlatform\<rparr>)]
        verb)"

definition environmentInterceptor :: "string \<Rightarrow> ('w, 'a) interceptor" where
  "environmentInterceptor profile handler ctx = handler (WithEnvironment profile ctx)"

text \<open>The identifier of a call: the caller's, if it is valid, or a generated one.\<close>

definition chooseRequestID :: "'w Platform \<Rightarrow> Ctx \<Rightarrow> 'w \<Rightarrow> string \<times> 'w" where
  "chooseRequestID pf ctx w =
     (let given = (case cx_incoming ctx ''x-request-id'' of
                     [] \<Rightarrow> []
                   | v # _ \<Rightarrow> if ValidRequestID v then v else [])
      in if given = [] then GenerateRequestID (pf_random pf) (pf_clock pf) w else (given, w))"

definition requestIDInterceptor :: "'w Platform \<Rightarrow> ('w, unary) interceptor" where
  "requestIDInterceptor pf handler ctx w =
     (case chooseRequestID pf ctx w of (i, w1) \<Rightarrow> handler (WithRequestID i ctx) (snd (pf_set_header pf i w1)))"

definition requestIDStreamInterceptor :: "'w Platform \<Rightarrow> ('w, err option) interceptor" where
  "requestIDStreamInterceptor pf handler ctx w =
     (case chooseRequestID pf ctx w of (i, w1) \<Rightarrow>
        (case pf_set_header pf i w1 of
           (Some _, w2) \<Rightarrow> (Replied (Some (StatusError CInternal ''set request metadata'')), w2)
         | (None, w2) \<Rightarrow> handler (WithRequestID i ctx) w2))"

definition idempotencyInterceptor :: "'w Platform \<Rightarrow> (err \<Rightarrow> 'a) \<Rightarrow> ('w, 'a) interceptor" where
  "idempotencyInterceptor pf failure handler ctx w =
     (case cx_incoming ctx ''idempotency-key'' of
        [] \<Rightarrow> handler ctx w
      | k # _ \<Rightarrow>
          if \<not> pf_valid_key pf k
          then (Replied (failure (StatusError CInvalidArgument ''invalid idempotency-key'')), w)
          else handler (WithIdempotencyKey k ctx) w)"

definition recoveryInterceptor :: "(err \<Rightarrow> 'a) \<Rightarrow> ('w, 'a) interceptor" where
  "recoveryInterceptor failure handler ctx w =
     (case handler ctx w of
        (Panicked _, w') \<Rightarrow> (Replied (failure (StatusError CInternal ''internal server error'')), w')
      | (Replied r, w') \<Rightarrow> (Replied r, w'))"

definition authInterceptor ::
    "'w AuthService \<Rightarrow> Auth \<Rightarrow> string \<Rightarrow> (err \<Rightarrow> 'a) \<Rightarrow> ('w, 'a) interceptor" where
  "authInterceptor service cfg verb failure handler ctx w =
     (case authenticateGRPC service cfg ctx verb w of
        (Inl e, w') \<Rightarrow> (Replied (failure e), w')
      | (Inr authCtx, w') \<Rightarrow> handler authCtx w')"

definition metricsInterceptor :: "'w Platform \<Rightarrow> string \<Rightarrow> ('a \<Rightarrow> err option) \<Rightarrow> ('w, 'a) interceptor" where
  "metricsInterceptor pf verb error_of handler ctx w =
     (case handler ctx w of
        (Panicked m, w') \<Rightarrow> (Panicked m, w')
      | (Replied r, w') \<Rightarrow>
          (Replied r, case pf_metric pf of None \<Rightarrow> w' | Some count \<Rightarrow> count verb (status_code (error_of r)) w'))"

section \<open>The chains\<close>

definition unary_error :: "unary \<Rightarrow> err option" where
  "unary_error r = (case r of Inl e \<Rightarrow> Some e | Inr _ \<Rightarrow> None)"

definition outerChain :: "'w Platform \<Rightarrow> Config \<Rightarrow> ('w, unary) interceptor" where
  "outerChain pf cfg = environmentInterceptor (rt_ActiveProfile (cfg_Runtime cfg)) \<circ> requestIDInterceptor pf
     \<circ> idempotencyInterceptor pf Inl \<circ> recoveryInterceptor Inl"

definition innerChain :: "'w Platform \<Rightarrow> Config \<Rightarrow> GrpcRequest \<Rightarrow> ('w, unary) interceptor" where
  "innerChain pf cfg rq = (let verb = pf_method pf (rpc_of rq) in
     pf_authorize pf (searchGRPCRequirement (pf_method pf) (authz_Enabled (cfg_Authorization cfg))) verb rq
     \<circ> pf_idempotent pf (idem_GRPCMethods (cfg_Idempotency cfg)) verb rq
     \<circ> metricsInterceptor pf verb unary_error)"

definition serveUnary ::
    "'w Platform \<Rightarrow> Config \<Rightarrow> 'w AuthService \<Rightarrow> 'w searchServer \<Rightarrow> GrpcRequest \<Rightarrow> ('w, unary) handler" where
  "serveUnary pf cfg service s rq =
     outerChain pf cfg
       (authInterceptor service (cfg_Auth cfg) (pf_method pf (rpc_of rq)) Inl
         (innerChain pf cfg rq (\<lambda>ctx w. case handle s rq ctx w of (r, w') \<Rightarrow> (Replied r, w'))))"

text \<open>The same for streams, where the reply is the error the handler returns.\<close>

definition environmentStreamInterceptor :: "string \<Rightarrow> ('w, err option) interceptor" where
  "environmentStreamInterceptor = environmentInterceptor"

definition idempotencyStreamInterceptor :: "'w Platform \<Rightarrow> ('w, err option) interceptor" where
  "idempotencyStreamInterceptor pf = idempotencyInterceptor pf Some"

definition recoveryStreamInterceptor :: "('w, err option) interceptor" where
  "recoveryStreamInterceptor = recoveryInterceptor Some"

definition authStreamInterceptor ::
    "'w AuthService \<Rightarrow> Auth \<Rightarrow> string \<Rightarrow> ('w, err option) interceptor" where
  "authStreamInterceptor service cfg verb = authInterceptor service cfg verb Some"

definition metricsStreamInterceptor :: "'w Platform \<Rightarrow> string \<Rightarrow> ('w, err option) interceptor" where
  "metricsStreamInterceptor pf verb = metricsInterceptor pf verb id"

text \<open>The chain in front of a stream of the method \<^verbatim>\<open>verb\<close>, whose handler comes from a library (the
  health watch, reflection).\<close>

definition serveStream ::
    "'w Platform \<Rightarrow> Config \<Rightarrow> 'w AuthService \<Rightarrow> string \<Rightarrow> ('w, err option) interceptor" where
  "serveStream pf cfg service verb =
     environmentStreamInterceptor (rt_ActiveProfile (cfg_Runtime cfg)) \<circ> requestIDStreamInterceptor pf
     \<circ> idempotencyStreamInterceptor pf \<circ> recoveryStreamInterceptor
     \<circ> authStreamInterceptor service (cfg_Auth cfg) verb \<circ> metricsStreamInterceptor pf verb"

section \<open>Interceptors that only pass calls on\<close>

text \<open>
  What an interceptor may do to a part \<^verbatim>\<open>view\<close> of the world: leave it alone, or hand the call on, with the
  caller's identity and metadata as they were, and leave what the rest of the chain made of it.
\<close>

locale passing =
  fixes icpt :: "('w, 'a) interceptor" and view :: "'w \<Rightarrow> 'v"
  assumes passes: "view (snd (icpt h ctx w)) = view w
    \<or> (\<exists>ctx1 w1. cx_principal ctx1 = cx_principal ctx \<and> cx_incoming ctx1 = cx_incoming ctx \<and> view w1 = view w
         \<and> view (snd (icpt h ctx w)) = view (snd (h ctx1 w1)))"
begin

lemma reached:
  assumes "view (snd (icpt h ctx w)) \<noteq> view w"
  obtains ctx1 w1 where "cx_principal ctx1 = cx_principal ctx" and "cx_incoming ctx1 = cx_incoming ctx"
    and "view w1 = view w" and "view (snd (h ctx1 w1)) \<noteq> view w1"
proof -
  obtain ctx1 w1 where "cx_principal ctx1 = cx_principal ctx" "cx_incoming ctx1 = cx_incoming ctx"
      "view w1 = view w" "view (snd (icpt h ctx w)) = view (snd (h ctx1 w1))"
    using passes [of h ctx w] assms by blast
  with that assms show thesis by metis
qed

end

lemma passing_comp:
  assumes "passing f view" and "passing g view"
  shows "passing (f \<circ> g) view"
proof
  fix h ctx w
  show "view (snd ((f \<circ> g) h ctx w)) = view w
    \<or> (\<exists>ctx1 w1. cx_principal ctx1 = cx_principal ctx \<and> cx_incoming ctx1 = cx_incoming ctx \<and> view w1 = view w
         \<and> view (snd ((f \<circ> g) h ctx w)) = view (snd (h ctx1 w1)))"
    using passing.passes [OF assms(1), of "g h" ctx w] passing.passes [OF assms(2), of h] by (metis comp_apply)
qed

lemma context_fields [simp]:
  "cx_principal (WithEnvironment profile ctx) = cx_principal ctx"
  "cx_incoming (WithEnvironment profile ctx) = cx_incoming ctx"
  "cx_principal (WithRequestID i ctx) = cx_principal ctx" "cx_incoming (WithRequestID i ctx) = cx_incoming ctx"
  "cx_principal (WithIdempotencyKey k ctx) = cx_principal ctx" "cx_incoming (WithIdempotencyKey k ctx) = cx_incoming ctx"
  by (simp_all add: WithEnvironment_def WithRequestID_def WithIdempotencyKey_def)

lemma passingI:
  assumes "\<And>h ctx w. (\<And>ctx1 w1. cx_principal ctx1 = cx_principal ctx \<Longrightarrow> cx_incoming ctx1 = cx_incoming ctx \<Longrightarrow>
      view w1 = view w \<Longrightarrow> view (snd (icpt h ctx w)) \<noteq> view (snd (h ctx1 w1))) \<Longrightarrow>
    view (snd (icpt h ctx w)) = view w"
  shows "passing icpt view"
  by unfold_locales (use assms in blast)

lemma environment_passing:
  fixes view :: "'w \<Rightarrow> 'v"
  shows "passing (environmentInterceptor profile :: ('w, 'a) interceptor) view"
proof (rule passingI)
  fix h :: "('w, 'a) handler" and ctx :: Ctx and w :: 'w
  assume "\<And>ctx1 w1. cx_principal ctx1 = cx_principal ctx \<Longrightarrow> cx_incoming ctx1 = cx_incoming ctx \<Longrightarrow>
      view w1 = view w \<Longrightarrow> view (snd (environmentInterceptor profile h ctx w)) \<noteq> view (snd (h ctx1 w1))"
  from this [of "WithEnvironment profile ctx" w]
  show "view (snd (environmentInterceptor profile h ctx w)) = view w" by (simp add: environmentInterceptor_def)
qed

interpretation environment: passing "environmentInterceptor profile" view for profile view
  by (rule environment_passing)

lemma idempotency_passing:
  fixes view :: "'w \<Rightarrow> 'v"
  shows "passing (idempotencyInterceptor pf failure :: ('w, 'a) interceptor) view"
proof (rule passingI)
  fix h :: "('w, 'a) handler" and ctx :: Ctx and w :: 'w
  assume "\<And>ctx1 w1. cx_principal ctx1 = cx_principal ctx \<Longrightarrow> cx_incoming ctx1 = cx_incoming ctx \<Longrightarrow>
      view w1 = view w \<Longrightarrow> view (snd (idempotencyInterceptor pf failure h ctx w)) \<noteq> view (snd (h ctx1 w1))"
  from this [of ctx w] this [of "WithIdempotencyKey (hd (cx_incoming ctx ''idempotency-key'')) ctx" w]
  show "view (snd (idempotencyInterceptor pf failure h ctx w)) = view w"
    by (auto simp: idempotencyInterceptor_def split: list.splits if_splits)
qed

interpretation idempotency: passing "idempotencyInterceptor pf failure" view for pf failure view
  by (rule idempotency_passing)

lemma recovery_passing:
  fixes view :: "'w \<Rightarrow> 'v"
  shows "passing (recoveryInterceptor failure :: ('w, 'a) interceptor) view"
proof (rule passingI)
  fix h :: "('w, 'a) handler" and ctx :: Ctx and w :: 'w
  assume "\<And>ctx1 w1. cx_principal ctx1 = cx_principal ctx \<Longrightarrow> cx_incoming ctx1 = cx_incoming ctx \<Longrightarrow>
      view w1 = view w \<Longrightarrow> view (snd (recoveryInterceptor failure h ctx w)) \<noteq> view (snd (h ctx1 w1))"
  from this [of ctx w]
  show "view (snd (recoveryInterceptor failure h ctx w)) = view w"
    by (auto simp: recoveryInterceptor_def split: prod.splits reply.splits)
qed

interpretation recovery: passing "recoveryInterceptor failure" view for failure view
  by (rule recovery_passing)

section \<open>Who can change the index\<close>

definition keeps :: "('w \<Rightarrow> 'v) \<Rightarrow> ('w \<Rightarrow> 'b \<times> 'w) \<Rightarrow> bool" where
  "keeps view f \<longleftrightarrow> (\<forall>w. view (snd (f w)) = view w)"

lemma keepsI: "(\<And>w r w'. f w = (r, w') \<Longrightarrow> view w' = view w) \<Longrightarrow> keeps view f"
  by (metis keeps_def surjective_pairing)

lemma keepsD: "keeps view f \<Longrightarrow> f w = (r, w') \<Longrightarrow> view w' = view w"
  by (metis keeps_def snd_conv)

text \<open>
  The parts of the world around the index. Apart from the writes of the engine, nothing the server
  calls changes the index: randomness, clock, headers, counters, token verification, the
  authorization and application services and the search requests of OpenSearch; and the two library
  interceptors pass calls on.
\<close>

definition reads_keep :: "'w Store \<Rightarrow> ('w \<Rightarrow> 'v) \<Rightarrow> bool" where
  "reads_keep e view \<longleftrightarrow>
     (\<forall>ctx body. keeps view (wi_perform (st_wire e) ctx
        \<lparr>rq_method = POST, rq_path = index_path e @ ''/_search'', rq_body = Some body\<rparr>))
     \<and> (\<forall>status w. view (observe e status w) = view w)"

definition platform_keeps :: "'w Platform \<Rightarrow> ('w \<Rightarrow> 'v) \<Rightarrow> bool" where
  "platform_keeps pf view \<longleftrightarrow>
     keeps view (pf_random pf) \<and> keeps view (pf_clock pf) \<and> (\<forall>i. keeps view (pf_set_header pf i))
     \<and> (\<forall>requirement verb rq. passing (pf_authorize pf requirement verb rq) view)
     \<and> (\<forall>verbs verb rq. passing (pf_idempotent pf verbs verb rq) view)
     \<and> (\<forall>count verb c w. pf_metric pf = Some count \<longrightarrow> view (count verb c w) = view w)"

definition access_keeps :: "'w BindingsClient option option \<Rightarrow> ('w \<Rightarrow> 'v) \<Rightarrow> bool" where
  "access_keeps access view \<longleftrightarrow>
     (\<forall>client ctx rq. access = Some (Some client) \<longrightarrow> keeps view (client ctx rq))"

lemma GenerateRequestID_keeps:
  assumes "keeps view random" and "keeps view clock"
  shows "keeps view (GenerateRequestID random clock)"
proof (rule keepsI)
  fix w r w'
  assume run: "GenerateRequestID random clock w = (r, w')"
  obtain res w1 where rand: "random w = (res, w1)" by (cases "random w")
  obtain n w2 where tick: "clock w1 = (n, w2)" by (cases "clock w1")
  show "view w' = view w"
    using run rand tick keepsD [OF assms(1) rand] keepsD [OF assms(2) tick]
    by (cases res) (simp_all add: GenerateRequestID_def)
qed

lemma chooseRequestID_keeps: "platform_keeps pf view \<Longrightarrow> keeps view (chooseRequestID pf ctx)"
  using GenerateRequestID_keeps [of view "pf_random pf" "pf_clock pf"]
  by (simp add: keeps_def platform_keeps_def chooseRequestID_def Let_def)

lemma requestID_passing:
  fixes view :: "'w \<Rightarrow> 'v"
  assumes "platform_keeps pf view"
  shows "passing (requestIDInterceptor pf) view"
proof (rule passingI)
  fix h :: "('w, unary) handler" and ctx :: Ctx and w :: 'w
  obtain i w1 where choose: "chooseRequestID pf ctx w = (i, w1)" by (cases "chooseRequestID pf ctx w")
  then have "view w1 = view w" using chooseRequestID_keeps [OF assms] keepsD by metis
  moreover have "view (snd (pf_set_header pf i w1)) = view w1"
    using assms by (simp add: platform_keeps_def keeps_def)
  moreover assume "\<And>ctx1 w1. cx_principal ctx1 = cx_principal ctx \<Longrightarrow> cx_incoming ctx1 = cx_incoming ctx \<Longrightarrow>
      view w1 = view w \<Longrightarrow> view (snd (requestIDInterceptor pf h ctx w)) \<noteq> view (snd (h ctx1 w1))"
  from this [of "WithRequestID i ctx" "snd (pf_set_header pf i w1)"]
  have "view (snd (pf_set_header pf i w1)) \<noteq> view w" by (auto simp: requestIDInterceptor_def choose)
  ultimately show "view (snd (requestIDInterceptor pf h ctx w)) = view w" by simp
qed

lemma metrics_passing:
  fixes view :: "'w \<Rightarrow> 'v"
  assumes "platform_keeps pf view"
  shows "passing (metricsInterceptor pf verb error_of) view"
proof (rule passingI)
  fix h :: "('w, 'a) handler" and ctx :: Ctx and w :: 'w
  assume "\<And>ctx1 w1. cx_principal ctx1 = cx_principal ctx \<Longrightarrow> cx_incoming ctx1 = cx_incoming ctx \<Longrightarrow>
      view w1 = view w \<Longrightarrow> view (snd (metricsInterceptor pf verb error_of h ctx w)) \<noteq> view (snd (h ctx1 w1))"
  from this [of ctx w] assms
  show "view (snd (metricsInterceptor pf verb error_of h ctx w)) = view w"
    by (auto simp: metricsInterceptor_def platform_keeps_def split: prod.splits reply.splits option.splits)
qed

lemma chains_passing:
  assumes "platform_keeps pf view"
  shows "passing (outerChain pf cfg) view" and "passing (innerChain pf cfg rq) view"
  using assms unfolding outerChain_def innerChain_def Let_def
  by (auto simp: platform_keeps_def intro!: passing_comp environment_passing idempotency_passing recovery_passing
      requestID_passing [OF assms] metrics_passing [OF assms])

lemma Search_keeps:
  assumes "reads_keep e view"
  shows "keeps view (Search e ctx r visibility)"
proof (rule keepsI)
  fix w res w'
  assume run: "Search e ctx r visibility w = (res, w')"
  let ?path = "index_path e @ ''/_search''" and ?body = "buildSearchQuery r visibility"
  have keep: "view (snd (wi_perform (st_wire e) ctx \<lparr>rq_method = POST, rq_path = ?path, rq_body = Some ?body\<rparr> w)) = view w"
    using assms by (simp add: reads_keep_def keeps_def)
  have count: "view (observe e status w1) = view w1" for status w1
    using assms by (simp add: reads_keep_def)
  have last: "snd (doJSON e ctx POST ?path (Some ?body) (wi_decode (st_wire e)) w) = w'"
    using run by (auto simp: Search_def split: prod.splits sum.splits)
  show "view w' = view w"
    by (cases rule: doJSON_cases [of e ctx POST ?path "Some ?body" w "wi_decode (st_wire e)"])
      (use keep last in \<open>auto simp: count\<close>)
qed

lemma queries_keep:
  assumes "reads_keep e view"
  shows "keeps view (Get e ctx tenantID ident visibility)" and "keeps view (Suggest e ctx rq visibility)"
proof -
  show "keeps view (Get e ctx tenantID ident visibility)"
    by (rule keepsI) (auto simp: Get_def split: prod.splits sum.splits list.splits dest: keepsD [OF Search_keeps [OF assms]])
  show "keeps view (Suggest e ctx rq visibility)"
    by (rule keepsI) (auto simp: Suggest_def split: prod.splits sum.splits dest: keepsD [OF Search_keeps [OF assms]])
qed

lemma listPages_keeps:
  assumes "\<And>ctx rq. keeps view (client ctx rq)"
  shows "keeps view (listPages n client ctx tenantID m page seen tokens)"
proof (induction n arbitrary: page seen tokens)
  case 0
  then show ?case by (simp add: keeps_def)
next
  case (Suc n)
  show ?case
  proof (rule keepsI)
    fix w r w'
    assume run: "listPages (Suc n) client ctx tenantID m page seen tokens w = (r, w')"
    let ?rq = "\<lparr>lb_TenantId = tenantID, lb_SubjectId = m, lb_Page = page, lb_PageSize = pageSize\<rparr>"
    obtain res w1 where call: "client ctx ?rq w = (res, w1)" by (cases "client ctx ?rq w")
    have first: "view w1 = view w" using keepsD [OF assms call] .
    show "view w' = view w"
    proof (cases res)
      case (Inl e)
      then show ?thesis using run call first by simp
    next
      case (Inr response)
      then show ?thesis using run call first
        by (auto split: prod.splits if_splits dest: keepsD [OF Suc.IH])
    qed
  qed
qed

lemma callerVisibility_keeps:
  assumes "access_keeps access view"
  shows "keeps view (callerVisibility ctx tenantID access)"
proof -
  have tokens: "keeps view (VisibilityTokens r ctx tenantID)" if "access = Some r" for r
    using assms that listPages_keeps [of view]
    by (auto simp: access_keeps_def keeps_def VisibilityTokens_def Let_def simp del: listPages.simps split: option.splits)
  show ?thesis
    by (rule keepsI)
      (auto simp: callerVisibility_def split: option.splits prod.splits sum.splits if_splits dest!: keepsD [OF tokens])
qed

definition applications_keep :: "'w ApplicationAccess \<Rightarrow> ('w \<Rightarrow> 'v) \<Rightarrow> bool" where
  "applications_keep check view \<longleftrightarrow> (\<forall>ctx tenantID ids. keeps view (check ctx tenantID ids))"

lemma authorizeApplications_keeps:
  assumes "applications_keep check view"
  shows "keeps view (authorizeApplications (store_service e check) ctx tenantID ids)"
proof (rule keepsI)
  fix w r w'
  assume run: "authorizeApplications (store_service e check) ctx tenantID ids w = (r, w')"
  have "keeps view (check ctx t xs)" for t xs using assms by (simp add: applications_keep_def)
  then show "view w' = view w" using run
    by (auto simp: authorizeApplications_def split: if_splits sum.splits prod.splits option.splits dest: keepsD)
qed

lemma store_engine_fields [simp]:
  "eng_Search (store_engine e) = Search e" "eng_Suggest (store_engine e) = Suggest e" "eng_Get (store_engine e) = Get e"
  by (simp_all add: store_engine_def)

lemma handle_keeps:
  assumes "reads_keep e view" and "applications_keep check view" and "access_keeps (ss_access s) view"
    and "ss_service s = store_service e check"
    and "view (snd (handle s rq ctx w)) \<noteq> view w"
  shows "rpc_of rq \<in> {RpcBatchUpsertDocuments, RpcBatchDeleteDocuments} \<and> requireIndexer ctx = None"
proof -
  note keep = keepsD [OF callerVisibility_keeps [OF assms(3)]] keepsD [OF authorizeApplications_keeps [OF assms(2)]]
    keepsD [OF Search_keeps [OF assms(1)]] keepsD [OF queries_keep(1) [OF assms(1)]] keepsD [OF queries_keep(2) [OF assms(1)]]
  show ?thesis
  proof (cases rq)
    case (SearchRq r)
    have svc: "keeps view (Service_Search (store_service e check) ctx r v)" for v
      by (rule keepsI) (auto simp: Service_Search_def split: option.splits if_splits sum.splits prod.splits dest!: keep)
    have "keeps view (grpcSearch s ctx r)"
      by (rule keepsI) (auto simp: grpcSearch_def assms(4) split: sum.splits prod.splits dest!: keep keepsD [OF svc])
    then show ?thesis using assms(5) SearchRq by (simp add: keeps_def)
  next
    case (SuggestRq r)
    have svc: "keeps view (Service_Suggest (store_service e check) ctx r v)" for v
      by (rule keepsI) (auto simp: Service_Suggest_def split: option.splits if_splits sum.splits prod.splits dest!: keep)
    have "keeps view (grpcSuggest s ctx r)"
      by (rule keepsI) (auto simp: grpcSuggest_def assms(4) split: sum.splits prod.splits dest!: keep keepsD [OF svc])
    then show ?thesis using assms(5) SuggestRq by (simp add: keeps_def)
  next
    case (GetRq r)
    have svc: "keeps view (Service_Get (store_service e check) ctx t i v)" for t i v
      by (rule keepsI) (auto simp: Service_Get_def split: option.splits if_splits sum.splits prod.splits dest!: keep)
    have "keeps view (grpcGetDocument s ctx r)"
      by (rule keepsI) (auto simp: grpcGetDocument_def assms(4) split: sum.splits prod.splits dest!: keep keepsD [OF svc])
    then show ?thesis using assms(5) GetRq by (simp add: keeps_def)
  next
    case (UpsertRq ds)
    then show ?thesis using assms(5) by (auto simp: grpcBatchUpsertDocuments_def split: option.splits)
  next
    case (DeleteRq ks)
    then show ?thesis using assms(5) by (auto simp: grpcBatchDeleteDocuments_def split: option.splits)
  qed
qed

lemma auth_changes:
  assumes "\<And>ctx raw. keeps view (Verify service ctx raw)"
    and "view (snd (authInterceptor service cfg verb failure h ctx w)) \<noteq> view w"
  obtains ctx1 w1 where "authenticateGRPC service cfg ctx verb w = (Inr ctx1, w1)"
    and "view (snd (h ctx1 w1)) \<noteq> view w1"
proof -
  have same: "keeps view (authenticateGRPC service cfg ctx verb)"
    by (rule keepsI)
      (auto simp: authenticateGRPC_def Let_def simp del: EqualFold.simps split: if_splits prod.splits sum.splits
        dest: keepsD [OF assms(1)])
  obtain r w1 where run: "authenticateGRPC service cfg ctx verb w = (r, w1)"
    by (cases "authenticateGRPC service cfg ctx verb w")
  with same have "view w1 = view w" by (rule keepsD)
  with assms(2) run that show thesis by (cases r) (auto simp: authInterceptor_def)
qed

definition indexing_types :: "PrincipalType set" where
  "indexing_types = {TypeServiceAccount, TypeSystem}"

lemma requireIndexer_None:
  "requireIndexer ctx = None \<longleftrightarrow> (\<exists>identity. cx_principal ctx = Some identity \<and> pr_Type identity \<in> indexing_types)"
  by (auto simp: requireIndexer_def indexing_types_def split: option.split)

text \<open>C1: Only authenticated services change the index. Whatever call is made, if it changes the index then
  it was a batch upsert or a batch delete, and its caller sent the configured key on a PSK route or
  else a bearer token that the verifier accepted as a service account or the system. A route exempted
  from authentication by mistake does not open the index.\<close>

theorem index_changes_authenticated:
  assumes "platform_keeps pf view" and "\<And>ctx raw. keeps view (Verify service ctx raw)"
    and "reads_keep e view" and "applications_keep check view" and "access_keeps (ss_access s) view"
    and "ss_service s = store_service e check" and "cx_principal ctx = None"
    and "view (snd (serveUnary pf cfg service s rq ctx w)) \<noteq> view w"
  shows "rpc_of rq \<in> {RpcBatchUpsertDocuments, RpcBatchDeleteDocuments}
    \<and> (if psk_Enabled (auth_PSK (cfg_Auth cfg))
          \<and> MatchesAny (pf_method pf (rpc_of rq)) (psk_GRPCMethods (auth_PSK (cfg_Auth cfg)))
       then \<exists>a rest. cx_incoming ctx ''authorization'' = a # rest \<and> VerifyPSK a (psk_Key (auth_PSK (cfg_Auth cfg)))
       else \<exists>scheme raw rest identity ctx1 w1 w2. cx_incoming ctx ''authorization'' = (scheme @ CHR '' '' # raw) # rest
          \<and> EqualFold scheme ''Bearer'' \<and> Verify service ctx1 raw w1 = (Inr identity, w2)
          \<and> pr_Type identity \<in> indexing_types)"
proof -
  let ?verb = "pf_method pf (rpc_of rq)"
  let ?h = "\<lambda>ctx w. case handle s rq ctx w of (r, w') \<Rightarrow> (Replied r, w')"
  obtain ctx1 w1 where pass1: "cx_principal ctx1 = None" "cx_incoming ctx1 = cx_incoming ctx"
    and change1: "view (snd (authInterceptor service (cfg_Auth cfg) ?verb Inl (innerChain pf cfg rq ?h) ctx1 w1)) \<noteq> view w1"
    using passing.reached [OF chains_passing(1) [OF assms(1)] assms(8) [unfolded serveUnary_def]] assms(7) by metis
  obtain ctx2 w2 where auth: "authenticateGRPC service (cfg_Auth cfg) ctx1 ?verb w1 = (Inr ctx2, w2)"
    and change2: "view (snd (innerChain pf cfg rq ?h ctx2 w2)) \<noteq> view w2"
    using auth_changes [OF assms(2) change1] by blast
  obtain ctx3 w3 where pass3: "cx_principal ctx3 = cx_principal ctx2" and change3: "view (snd (?h ctx3 w3)) \<noteq> view w3"
    using passing.reached [OF chains_passing(2) [OF assms(1)] change2] by metis
  have "view (snd (handle s rq ctx3 w3)) \<noteq> view w3" using change3 by (simp split: prod.splits)
  from handle_keeps [OF assms(3-6) this]
  have rpc: "rpc_of rq \<in> {RpcBatchUpsertDocuments, RpcBatchDeleteDocuments}" and "requireIndexer ctx3 = None" by blast+
  then obtain identity where who: "cx_principal ctx2 = Some identity" "pr_Type identity \<in> indexing_types"
    unfolding requireIndexer_None pass3 by blast
  let ?psk = "psk_Enabled (auth_PSK (cfg_Auth cfg)) \<and> MatchesAny ?verb (psk_GRPCMethods (auth_PSK (cfg_Auth cfg)))"
  note outcome = authenticateGRPC_outcome [where service = service and cfg = "cfg_Auth cfg" and ctx = ctx1
      and verb = ?verb and w = w1, unfolded auth prod.case sum.case]
  show ?thesis
  proof (cases ?psk)
    case True
    with outcome rpc show ?thesis unfolding pass1(2) by (simp only: simp_thms if_True)
  next
    case False
    moreover from False outcome who(1) pass1(1) have "\<not> MatchesAny ?verb (auth_SkipGRPCMethods (cfg_Auth cfg))"
      by (simp split: if_splits)
    ultimately obtain scheme raw rest identity' where "cx_incoming ctx ''authorization'' = (scheme @ CHR '' '' # raw) # rest"
        "EqualFold scheme ''Bearer''" "Verify service ctx1 raw w1 = (Inr identity', w2)" "ctx2 = withPrincipal identity' ctx1"
      using outcome unfolding pass1(2) if_not_P [OF False] by (simp only: if_False) blast
    moreover from this(4) who have "pr_Type identity' \<in> indexing_types" by (simp add: withPrincipal_def)
    ultimately show ?thesis unfolding if_not_P [OF False] using rpc by blast
  qed
qed

text \<open>A platform without randomness, headers and metrics, whose library interceptors let every call through.\<close>

definition plain_platform :: "'w Platform" where
  "plain_platform = \<lparr>
     pf_method = (\<lambda>rpc. case rpc of RpcSearch \<Rightarrow> ''/s/Search'' | RpcSuggest \<Rightarrow> ''/s/Suggest''
       | RpcGetDocument \<Rightarrow> ''/s/GetDocument'' | RpcBatchUpsertDocuments \<Rightarrow> ''/s/Upsert''
       | RpcBatchDeleteDocuments \<Rightarrow> ''/s/Delete''),
     pf_random = (\<lambda>w. (Inr (\<lambda>_. 0), w)), pf_clock = (\<lambda>w. (0, w)), pf_set_header = (\<lambda>i w. (None, w)),
     pf_valid_key = (\<lambda>k. k \<noteq> []), pf_authorize = (\<lambda>requirement verb rq h. h),
     pf_idempotent = (\<lambda>verbs verb rq h. h), pf_metric = None\<rparr>"

definition psk_config :: Config where
  "psk_config = setDefaults\<lparr>cfg_Auth := (cfg_Auth setDefaults)\<lparr>auth_PSK :=
     \<lparr>psk_Enabled = True, psk_Key = ''k'', psk_HTTPPaths = [], psk_GRPCMethods = [''/s/Upsert'']\<rparr>\<rparr>\<rparr>"

definition psk_ctx :: Ctx where
  "psk_ctx = background\<lparr>cx_incoming := (\<lambda>name. if name = ''authorization'' then [''PSK k''] else [])\<rparr>"

definition quiet_auth :: "'w AuthService" where
  "quiet_auth = NewAuth (\<lambda>_ _ _ w. (Inl (Plain ''no parser''), w)) (\<lambda>_ _ _ _ _ w. (Inr [], w)) (\<lambda>w. (Inr ''id'', w))
     psk_config"

lemma passing_id: "passing (\<lambda>h. h) view"
  by unfold_locales blast

lemma plain_platform_keeps: "platform_keeps plain_platform view"
  by (simp add: platform_keeps_def plain_platform_def keeps_def passing_id)

lemma quiet_auth_keeps: "keeps view (Verify quiet_auth ctx raw)"
  by (simp add: keeps_def Verify_def Parse_def quiet_auth_def NewAuth_def split: prod.split sum.split)

lemma ref_reads_keep: "reads_keep (ref_store index marshal) (\<lambda>m. m)"
  by (simp add: reads_keep_def keeps_def ref_perform_def parse_document_path_def index_path_def Let_def)

definition indexed :: SearchDocument where
  "indexed = empty_document\<lparr>sd_TenantId := ''t'', sd_SourceService := ''s'', sd_DocumentType := ''d'',
     sd_SourceId := ''1'', sd_Title := ''x'', sd_SourceVersion := 1, sd_VisibilityTokens := [''user:u'']\<rparr>"

definition indexing_server :: "stored index_view searchServer" where
  "indexing_server = \<lparr>ss_service = store_service (ref_store ''i'' (\<lambda>d. Inr (sd_Title d))) allowAllApplications_Check,
     ss_access = None\<rparr>"

lemma indexed_upsert:
  "Service_BatchUpsert (ss_service indexing_server) ctx [Some indexed] m
     = (None, latest ''t:s:d:1'' 1 (Some ''x'') m)"
proof -
  have prepared: "prepareDocuments [Some indexed] = Inr [withCanonicalID indexed]"
    by (simp add: indexed_def completeDocument_def validateVisibility_def validToken_def subjectPrefixes_def
        empty_document_def Let_def trim_eval)
  have "eng_Upsert (sv_engine (ss_service indexing_server)) ctx [withCanonicalID indexed] m
      = applyChange (ref_store ''i'' (\<lambda>d. Inr (sd_Title d))) ctx (Upserted (withCanonicalID indexed)) m"
    by (simp add: indexing_server_def store_engine_def del: Upsert.simps)
  also have "\<dots> = (None, latest ''t:s:d:1'' 1 (Some ''x'') m)"
    unfolding ref_applyChange
    by (simp add: absorb_def ref_store_def indexed_def withCanonicalID_def CanonicalID_append empty_document_def)
  finally show ?thesis
    by (simp add: Service_BatchUpsert_def batchSizeOk_def maxBatchSize_def prepared del: prepareDocuments.simps)
qed

lemma indexing_auth:
  "authenticateGRPC quiet_auth (cfg_Auth psk_config) (ctx\<lparr>cx_incoming := cx_incoming psk_ctx\<rparr>) ''/s/Upsert'' w
     = (Inr (withPrincipal pskPrincipal (ctx\<lparr>cx_incoming := cx_incoming psk_ctx\<rparr>)), w)"
proof -
  have "MatchesAny ''/s/Upsert'' [''/s/Upsert'']" by (simp add: Match_plain plain_def)
  moreover have "VerifyPSK ''PSK k'' ''k''" by (simp add: VerifyPSK_def EqualFold_refl del: EqualFold.simps)
  ultimately show ?thesis
    by (simp add: authenticateGRPC_def psk_config_def psk_ctx_def del: MatchesAny.simps)
qed

lemma indexing_run:
  "snd (serveUnary plain_platform psk_config quiet_auth indexing_server (UpsertRq [Some indexed]) psk_ctx m)
     = latest ''t:s:d:1'' 1 (Some ''x'') m"
proof -
  let ?i = "EncodeToString (map (\<lambda>_. 0) [0..<16])"
  let ?ctx = "WithRequestID ?i (WithEnvironment (rt_ActiveProfile (cfg_Runtime psk_config)) psk_ctx)"
  have ctx: "?ctx = ?ctx\<lparr>cx_incoming := cx_incoming psk_ctx\<rparr>" by (simp add: WithRequestID_def WithEnvironment_def)
  have choose: "chooseRequestID plain_platform (WithEnvironment profile psk_ctx) w = (?i, w)" for profile and w :: "stored index_view"
    by (simp add: chooseRequestID_def GenerateRequestID_def plain_platform_def psk_ctx_def)
  have key: "cx_incoming ?ctx ''idempotency-key'' = []" by (simp add: psk_ctx_def)
  have auth: "authenticateGRPC quiet_auth (cfg_Auth psk_config) ?ctx ''/s/Upsert'' m = (Inr (withPrincipal pskPrincipal ?ctx), m)"
    using indexing_auth [of ?ctx m] ctx by simp
  have "requireIndexer (withPrincipal pskPrincipal ?ctx) = None"
    by (simp add: requireIndexer_def withPrincipal_def pskPrincipal_def)
  with choose key auth show ?thesis
    by (simp add: serveUnary_def outerChain_def innerChain_def environmentInterceptor_def requestIDInterceptor_def
        idempotencyInterceptor_def recoveryInterceptor_def authInterceptor_def metricsInterceptor_def
        grpcBatchUpsertDocuments_def indexed_upsert plain_platform_def)
qed

theorem index_changes_authenticated_witness:
  "\<exists>a rest. cx_incoming psk_ctx ''authorization'' = a # rest \<and> VerifyPSK a ''k''"
proof -
  have principal: "cx_principal psk_ctx = None" by (simp add: psk_ctx_def background_def)
  have service: "ss_service indexing_server = store_service (ref_store ''i'' (\<lambda>d. Inr (sd_Title d))) allowAllApplications_Check"
    and access: "access_keeps (ss_access indexing_server) (\<lambda>m. m)"
    by (simp_all add: indexing_server_def access_keeps_def)
  have check: "applications_keep allowAllApplications_Check (\<lambda>m. m)"
    by (simp add: applications_keep_def keeps_def)
  have change: "snd (serveUnary plain_platform psk_config quiet_auth indexing_server (UpsertRq [Some indexed]) psk_ctx Map.empty)
      \<noteq> Map.empty"
    unfolding indexing_run by (simp add: latest_def admissible_def)
  have psk: "psk_Enabled (auth_PSK (cfg_Auth psk_config))
      \<and> MatchesAny (pf_method plain_platform (rpc_of (UpsertRq [Some indexed]))) (psk_GRPCMethods (auth_PSK (cfg_Auth psk_config)))"
    by (simp add: plain_platform_def psk_config_def Match_plain plain_def)
  have key: "psk_Key (auth_PSK (cfg_Auth psk_config)) = ''k''" by (simp add: psk_config_def)
  show ?thesis
    using index_changes_authenticated [where view = "\<lambda>m. m", OF plain_platform_keeps quiet_auth_keeps ref_reads_keep
        check access service principal change, THEN conjunct2]
    unfolding if_P [OF psk] key .
qed

section \<open>What a caller may read\<close>

text \<open>
  The tokens that stand for a caller itself in a tenant: its user, its membership, and the roles that the
  authorization service listed as actively bound to that membership. No other role is its own.
\<close>

definition own_token :: "'w BindingsClient option option \<Rightarrow> string \<Rightarrow> Principal \<Rightarrow> string \<Rightarrow> bool" where
  "own_token access tenantID identity v \<longleftrightarrow> v = ''user:'' @ pr_ID identity
     \<or> (pr_MembershipID identity \<noteq> [] \<and> v = ''membership:'' @ pr_MembershipID identity)
     \<or> (\<exists>r role. access = Some r \<and> listed_role r identity tenantID role \<and> v = ''role:'' @ role)"

definition acts_in :: "Principal \<Rightarrow> string \<Rightarrow> bool" where
  "acts_in identity tenantID \<longleftrightarrow> pr_TenantID identity = [] \<or> pr_TenantID identity = tenantID"

lemma callerVisibility_own:
  assumes "callerVisibility ctx tenantID access w = (Inr vs, w')" and "v \<in> set vs"
  shows "\<exists>identity. cx_principal ctx = Some identity \<and> acts_in identity tenantID \<and> own_token access tenantID identity v"
proof (cases "cx_principal ctx")
  case None
  then show ?thesis using assms
    by (auto simp: callerVisibility_def VisibilityTokens_def split: option.splits prod.splits sum.splits)
next
  case (Some identity)
  show ?thesis
  proof (cases access)
    case None
    then show ?thesis using assms Some
      by (auto simp: callerVisibility_def acts_in_def own_token_def split: if_splits)
  next
    case access: (Some r)
    then have tokens: "VisibilityTokens r ctx tenantID w = (Inr vs, w')"
      using assms(1) by (auto simp: callerVisibility_def split: sum.splits prod.splits)
    have "acts_in identity tenantID"
      using tokens Some by (auto simp: VisibilityTokens_def acts_in_def split: if_splits)
    moreover have "own_token access tenantID identity v"
      using VisibilityTokens_listed [OF tokens assms(2) Some] by (auto simp: own_token_def access)
    ultimately show ?thesis using Some by blast
  qed
qed

definition readable :: "'w BindingsClient option option \<Rightarrow> Ctx \<Rightarrow> string \<Rightarrow> SearchDocument \<Rightarrow> bool" where
  "readable access ctx tenantID d \<longleftrightarrow> sd_TenantId d = tenantID
     \<and> (\<exists>t \<in> set (sd_VisibilityTokens d). t = tenantToken tenantID
          \<or> (\<exists>identity v. cx_principal ctx = Some identity \<and> acts_in identity tenantID
               \<and> own_token access tenantID identity v \<and> t = TrimSpace v))"

lemma readableI:
  assumes "callerVisibility ctx tenantID access w = (Inr vs, w')" and "sd_TenantId d = tenantID"
    and "\<exists>t \<in> set (sd_VisibilityTokens d). t = tenantToken tenantID \<or> t \<in> TrimSpace ` set vs"
  shows "readable access ctx tenantID d"
  using assms(2,3) callerVisibility_own [OF assms(1)] unfolding readable_def by blast

primrec response_documents :: "GrpcResponse \<Rightarrow> SearchDocument list" where
  "response_documents (SearchRs response) = map sh_Document (sp_Hits response)"
| "response_documents (SuggestRs response) = []"
| "response_documents (DocumentRs d) = [d]"
| "response_documents (AcceptedRs n) = []"

primrec request_tenant :: "GrpcRequest \<Rightarrow> string" where
  "request_tenant (SearchRq r) = getter sr_TenantId r"
| "request_tenant (SuggestRq r) = getter sg_TenantId r"
| "request_tenant (GetRq r) = getter gd_TenantId r"
| "request_tenant (UpsertRq ds) = []"
| "request_tenant (DeleteRq ks) = []"

text \<open>C9: Reading over gRPC, from the caller's principal to the documents it receives. Every document in an
  answer belongs to the requested tenant and carries the tenant-wide token of that tenant or a token
  of the caller's own: its user, its membership, or a role that the authorization service listed as
  actively bound to that membership; and then the caller is not bound to another tenant.\<close>

theorem grpc_reads_isolated:
  assumes "honours_filters e" and "ss_service s = store_service e check"
    and "handle s rq ctx w = (Inr response, w')"
  shows "list_all (readable (ss_access s) ctx (request_tenant rq)) (response_documents response)"
proof (cases rq)
  case (SearchRq r)
  obtain vs w1 result where vis: "callerVisibility ctx (getter sr_TenantId r) (ss_access s) w = (Inr vs, w1)"
    and run: "Service_Search (store_service e check) ctx r vs w1 = (Inr result, w')" and "response = SearchRs result"
    using assms(2,3) by (auto simp: SearchRq grpcSearch_def split: sum.splits prod.splits)
  moreover from run obtain q where q: "r = Some q" by (cases r) (simp_all add: Service_Search_def)
  moreover have "readable (ss_access s) ctx (sr_TenantId q) (sh_Document hit)" if "hit \<in> set (sp_Hits result)" for hit
    using Service_Search_isolated [OF assms(1) run [unfolded q] that] vis unfolding q getter_def option.case
    by (intro readableI) auto
  ultimately show ?thesis by (simp add: SearchRq getter_def list_all_iff)
next
  case (GetRq r)
  obtain vs w1 d where vis: "callerVisibility ctx (getter gd_TenantId r) (ss_access s) w = (Inr vs, w1)"
    and run: "Service_Get (store_service e check) ctx (getter gd_TenantId r) (getter gd_Id r) vs w1 = (Inr d, w')"
    and "response = DocumentRs d"
    using assms(2,3) by (auto simp: GetRq grpcGetDocument_def split: sum.splits prod.splits)
  moreover have "readable (ss_access s) ctx (getter gd_TenantId r) d"
    using Service_Get_isolated [OF assms(1) run] by (intro readableI [OF vis]) auto
  ultimately show ?thesis by (simp add: GetRq)
next
  case (SuggestRq r)
  then have "\<exists>x. response = SuggestRs x" using assms(3) by (auto simp: grpcSuggest_def split: sum.splits prod.splits)
  then show ?thesis by auto
next
  case (UpsertRq ds)
  then have "\<exists>x. response = AcceptedRs x" using assms(3) by (auto simp: grpcBatchUpsertDocuments_def split: option.splits prod.splits)
  then show ?thesis by auto
next
  case (DeleteRq ks)
  then have "\<exists>x. response = AcceptedRs x" using assms(3) by (auto simp: grpcBatchDeleteDocuments_def split: option.splits prod.splits)
  then show ?thesis by auto
qed

text \<open>A document for one role, and an authorization service that binds it and a revoked one to the caller.\<close>

definition role_document :: SearchDocument where
  "role_document = example_document\<lparr>sd_VisibilityTokens := [''role:r1'']\<rparr>"

definition reading_client :: "unit BindingsClient" where
  "reading_client = serving [\<lparr>bn_Status = ''active'', bn_RoleId = ''r1''\<rparr>, \<lparr>bn_Status = ''revoked'', bn_RoleId = ''r2''\<rparr>]"

definition reading_server :: "unit searchServer" where
  "reading_server = \<lparr>ss_service = store_service (one_document role_document) only_a, ss_access = Some (Some reading_client)\<rparr>"

lemma reading_tokens:
  assumes "cx_principal ctx = cx_principal example_ctx"
  shows "VisibilityTokens (Some reading_client) ctx ''t'' () = (Inr [''user:u'', ''membership:m'', ''role:r1''], ())"
proof -
  let ?page = "\<lparr>bp_Bindings = [\<lparr>bn_Status = ''active'', bn_RoleId = ''r1''\<rparr>, \<lparr>bn_Status = ''revoked'', bn_RoleId = ''r2''\<rparr>],
    bp_Total = Some 2\<rparr>"
  have pages: "listPages 100 reading_client ctx' ''t'' ''m'' 1 {} [''user:u'', ''membership:m''] ()
      = (Inr [''user:u'', ''membership:m'', ''role:r1''], ())" for ctx'
    by (rule listPages_last [where response = ?page and seen' = "{''r1''}"])
      (simp_all add: reading_client_def serving_def pageSize_def)
  show ?thesis using assms by (simp add: VisibilityTokens_def example_ctx_def pages del: listPages.simps)
qed

lemma reading_run:
  "\<exists>response. handle reading_server (SearchRq (Some (empty_request\<lparr>sr_TenantId := ''t''\<rparr>))) example_ctx ()
     = (Inr response, ()) \<and> response_documents response = [role_document]"
  by (simp add: grpcSearch_def callerVisibility_def reading_server_def reading_tokens getter_def
      Service_Search_def authorizeApplications_def maxApplications_def store_engine_def one_document_Search admitted_def
      role_document_def example_document_def empty_document_def empty_request_def normalizePage_eval set_normalizeVisibility
      list_ex_iff trim_eval Let_def)

theorem grpc_reads_isolated_witness:
  "\<exists>response. handle reading_server (SearchRq (Some (empty_request\<lparr>sr_TenantId := ''t''\<rparr>))) example_ctx ()
     = (Inr response, ()) \<and> response_documents response = [role_document]
     \<and> readable (Some (Some reading_client)) example_ctx ''t'' role_document"
proof -
  obtain response where run: "handle reading_server (SearchRq (Some (empty_request\<lparr>sr_TenantId := ''t''\<rparr>))) example_ctx ()
      = (Inr response, ())" and docs: "response_documents response = [role_document]"
    using reading_run by blast
  have "ss_service reading_server = store_service (one_document role_document) only_a" by (simp add: reading_server_def)
  from grpc_reads_isolated [OF one_document_honours this run] run docs show ?thesis by (simp add: getter_def reading_server_def)
qed

lemma recovery_replies: "\<exists>r. fst (recoveryInterceptor failure h ctx w) = Replied r"
  by (simp add: recoveryInterceptor_def split: prod.split reply.split)

lemma idempotency_replies: "\<exists>r. fst (idempotencyInterceptor pf failure (recoveryInterceptor failure' h) ctx w) = Replied r"
  by (simp add: idempotencyInterceptor_def recovery_replies split: list.split)

text \<open>C32: A panic never leaves the server: whatever the handler of a stream does, and whatever the library
  interceptors do in front of a handler of the search service, the chain ends in a reply.\<close>

theorem panics_contained:
  "(\<exists>r. fst (serveUnary pf cfg service s rq ctx w) = Replied r)
   \<and> (\<exists>r. fst (serveStream pf cfg service verb handler ctx w) = Replied r)"
  by (simp add: serveUnary_def outerChain_def serveStream_def environmentInterceptor_def requestIDInterceptor_def
      environmentStreamInterceptor_def requestIDStreamInterceptor_def idempotencyStreamInterceptor_def
      recoveryStreamInterceptor_def idempotency_replies split: prod.split option.split)

section \<open>What an error reveals\<close>

text \<open>The errors a caller may see: a status with one of these texts, or what was wrong with its request.\<close>

definition public_texts :: "(code \<times> string) list" where
  "public_texts =
     [(CUnauthenticated, ''authenticated service principal is required''),
      (CPermissionDenied, ''service principal is required for indexing''),
      (CPermissionDenied, ''tenant access denied''), (CPermissionDenied, ''application access denied''),
      (CUnavailable, ''authorization unavailable''), (CUnavailable, ''search unavailable''),
      (CNotFound, ''document not found''), (CInternal, ''internal server error'')]"

definition public_error :: "err \<Rightarrow> bool" where
  "public_error e \<longleftrightarrow> (\<exists>c m. e = StatusError c m \<and> (c, m) \<in> set public_texts)
     \<or> (\<exists>cause. errors_is cause SearchInvalidArgument \<and> e = StatusError CInvalidArgument (err_text cause))"

lemma searchError_public: "public_error (the (searchError (Some e)))"
proof (cases "errors_is e SearchInvalidArgument")
  case True
  then show ?thesis by (auto simp: public_error_def)
next
  case False
  then show ?thesis by (simp add: public_error_def public_texts_def)
qed

lemma public_fixed:
  "public_error (StatusError CUnauthenticated ''authenticated service principal is required'')"
  "public_error (StatusError CPermissionDenied ''service principal is required for indexing'')"
  "public_error (StatusError CPermissionDenied ''tenant access denied'')"
  "public_error (StatusError CUnavailable ''authorization unavailable'')"
  by (simp_all add: public_error_def public_texts_def)

lemma callerVisibility_public:
  assumes "callerVisibility ctx t access w = (Inl e, w')"
  shows "public_error e"
proof -
  have "e = StatusError CPermissionDenied ''tenant access denied'' \<or> e = StatusError CUnavailable ''authorization unavailable''"
    using assms by (auto simp: callerVisibility_def split: option.splits sum.splits prod.splits if_splits)
  then show ?thesis using public_fixed by blast
qed

lemma requireIndexer_public:
  assumes "requireIndexer ctx = Some e"
  shows "public_error e"
proof -
  have "e = StatusError CUnauthenticated ''authenticated service principal is required''
      \<or> e = StatusError CPermissionDenied ''service principal is required for indexing''"
    using assms by (auto simp: requireIndexer_def split: option.splits if_splits)
  then show ?thesis using public_fixed by blast
qed

lemma query_public:
  assumes "(case callerVisibility ctx t access w of
        (Inl e, w') \<Rightarrow> (Inl e, w')
      | (Inr visibility, w') \<Rightarrow>
          (case f visibility w' of
             (Inl e, w'') \<Rightarrow> (Inl (the (searchError (Some e))), w'')
           | (Inr x, w'') \<Rightarrow> (Inr (g x), w''))) = (Inl e, w2)"
  shows "public_error e"
proof -
  obtain r w1 where vis: "callerVisibility ctx t access w = (r, w1)" by (cases "callerVisibility ctx t access w")
  show ?thesis
  proof (cases r)
    case (Inl e1)
    then show ?thesis using assms vis callerVisibility_public [of ctx t access w e1 w1] by simp
  next
    case (Inr vs)
    obtain x w3 where run: "f vs w1 = (x, w3)" by (cases "f vs w1")
    show ?thesis
    proof (cases x)
      case (Inl e3)
      then have "e = the (searchError (Some e3))" using assms vis Inr run by (simp del: searchError.simps)
      then show ?thesis using searchError_public by blast
    qed (use assms vis Inr run in simp)
  qed
qed

lemma batch_public:
  assumes "(case requireIndexer ctx of
        Some e \<Rightarrow> (Inl e, w)
      | None \<Rightarrow>
          (case f w of
             (Some e, w') \<Rightarrow> (Inl (the (searchError (Some e))), w')
           | (None, w') \<Rightarrow> (Inr x, w'))) = (Inl e, w2)"
  shows "public_error e"
proof (cases "requireIndexer ctx")
  case None
  obtain r w1 where run: "f w = (r, w1)" by (cases "f w")
  show ?thesis
  proof (cases r)
    case (Some e1)
    then have "e = the (searchError (Some e1))" using assms None run by (simp del: searchError.simps)
    then show ?thesis using searchError_public by blast
  qed (use assms None run in simp)
next
  case (Some e1)
  then show ?thesis using assms requireIndexer_public [of ctx e1] by simp
qed

lemma public_handlers:
  "grpcSearch s ctx r w = (Inl e, w') \<Longrightarrow> public_error e"
  "grpcSuggest s ctx g w = (Inl e, w') \<Longrightarrow> public_error e"
  "grpcGetDocument s ctx d w = (Inl e, w') \<Longrightarrow> public_error e"
  "grpcBatchUpsertDocuments s ctx ds w = (Inl e, w') \<Longrightarrow> public_error e"
  "grpcBatchDeleteDocuments s ctx ks w = (Inl e, w') \<Longrightarrow> public_error e"
  unfolding grpcSearch_def grpcSuggest_def grpcGetDocument_def grpcBatchUpsertDocuments_def grpcBatchDeleteDocuments_def
  by (erule query_public batch_public)+

text \<open>Errors of the search service say no more than they should. Whatever goes wrong, in the caller's
  identity, the authorization and application services or OpenSearch, a handler answers with one of
  eight fixed statuses or tells the caller what is invalid about its request; no text of a backend's
  error is passed on otherwise.\<close>

theorem handle_errors_public:
  "case fst (handle s rq ctx w) of Inl e \<Rightarrow> public_error e | Inr _ \<Rightarrow> True"
proof (cases "fst (handle s rq ctx w)")
  case (Inl e)
  then obtain w' where run: "handle s rq ctx w = (Inl e, w')" by (cases "handle s rq ctx w") auto
  have "public_error e"
    by (cases rq) (use run public_handlers [of s ctx] in \<open>simp_all\<close>)
  then show ?thesis by (simp add: Inl)
qed simp

section \<open>Visibility that nobody has\<close>

lemma TrimSpace_hd:
  assumes "\<not> starts_with_space space2 space3 (a # s)" and "TrimSpace (a # s) \<noteq> []"
  shows "hd (TrimSpace (a # s)) = a"
proof -
  have "trim_left (a # s) = a # s" using assms(1) unfolding trim_left_def by (rule trim_with_id)
  then have "prefix (TrimSpace (a # s)) (a # s)" using trim_right_prefix [of "a # s"] by (simp add: TrimSpace_def)
  with assms(2) show ?thesis by (cases "TrimSpace (a # s)") auto
qed

lemma own_token_not_service:
  assumes "own_token access tenantID identity v"
  shows "\<not> HasPrefix (TrimSpace v) ''service-account:''"
proof
  assume pre: "HasPrefix (TrimSpace v) ''service-account:''"
  have ne: "TrimSpace v \<noteq> []" and hd: "hd (TrimSpace v) = CHR ''s''" using pre by (auto simp: prefix_def)
  obtain a b c s where v: "v = a # b # c # s" and a: "a \<in> {CHR ''u'', CHR ''m'', CHR ''r''}"
    using assms by (auto simp: own_token_def)
  have "\<not> starts_with_space space2 space3 v"
    using a by (auto simp: v ascii_space_def space2_def space3_def)
  then have "hd (TrimSpace v) = a" using ne unfolding v by (rule TrimSpace_hd)
  with hd a show False by auto
qed

text \<open>Documents for service accounts only. Indexing accepts the visibility token \<^verbatim>\<open>service-account:<id>\<close>, but
  no caller is ever given a token of that form, so a document with no other token can be read by
  nobody, the service account it names included.\<close>

theorem service_account_visibility_unreachable:
  "validToken broad (''service-account:'' @ [c])
   \<and> (case fst (callerVisibility ctx tenantID access w) of
        Inl _ \<Rightarrow> True
      | Inr vs \<Rightarrow> list_all (\<lambda>t. \<not> HasPrefix t ''service-account:'') (normalizeVisibility tenantID vs))"
proof
  show "validToken broad (''service-account:'' @ [c])"
    by (simp add: validToken_def subjectPrefixes_def)
  obtain r w' where run: "callerVisibility ctx tenantID access w = (r, w')" by (cases "callerVisibility ctx tenantID access w")
  show "case fst (callerVisibility ctx tenantID access w) of
        Inl _ \<Rightarrow> True
      | Inr vs \<Rightarrow> list_all (\<lambda>t. \<not> HasPrefix t ''service-account:'') (normalizeVisibility tenantID vs)"
  proof (cases r)
    case (Inr vs)
    have "\<not> HasPrefix (tenantToken tenantID) ''service-account:''" by (simp add: tenantToken_def)
    moreover have "\<not> HasPrefix (TrimSpace v) ''service-account:''" if "v \<in> set vs" for v
      using callerVisibility_own [OF run [unfolded Inr] that] own_token_not_service by blast
    ultimately show ?thesis by (auto simp: run Inr list_all_iff set_normalizeVisibility)
  qed (simp add: run)
qed

end
