(* ===== verification/HttpMiddleware.thy ===== *)
theory HttpMiddleware
  imports HttpTypes GrpcServer
begin

text \<open>
  \<^verbatim>\<open>internal/transport/http/middleware.go\<close> and \<^verbatim>\<open>internal/ratelimit\<close>. A middleware takes the rest of the
  chain (\<^verbatim>\<open>c.Next()\<close>) and decides whether to run it; not running it is the abort. The tracing middleware
  only observes and is left out. The platform's authorization check, the key
  predicate, media type parsing, randomness, the clock, the deadline and the metrics are fields of a
  record.
\<close>

section \<open>The libraries\<close>

text \<open>A line of the access log, without the trace identifiers and the duration.\<close>

record AccessLog =
  al_request_id :: string
  al_method :: string
  al_path :: string
  al_status :: int
  al_client_ip :: string

record 'w HttpLib =
  hl_random :: "('w, err, nat \<Rightarrow> 8 word) call"
  hl_clock :: "'w \<Rightarrow> int64 \<times> 'w"
  hl_valid_key :: "string \<Rightarrow> bool"
  hl_media_type :: "string \<Rightarrow> err + string"
  hl_expired :: "Ctx \<Rightarrow> 'w \<Rightarrow> bool"  \<comment> \<open>\<^verbatim>\<open>ctx.Err()\<close> is \<^verbatim>\<open>DeadlineExceeded\<close>\<close>
  hl_seconds :: "Duration \<Rightarrow> int"  \<comment> \<open>\<^verbatim>\<open>int(d.Seconds())\<close>, through float64\<close>
  hl_metric :: "(string \<Rightarrow> string \<Rightarrow> string \<Rightarrow> 'w \<Rightarrow> 'w) option"
  hl_log :: "AccessLog \<Rightarrow> 'w \<Rightarrow> 'w"
  hl_broken_pipe :: "string \<Rightarrow> bool"
  hl_enforce :: "Ctx \<Rightarrow> Requirement \<Rightarrow> ('w, err) call_err"
  hl_decision_unavailable :: sentinel  \<comment> \<open>\<^verbatim>\<open>authz.ErrDecisionUnavailable\<close>\<close>

text \<open>Code after \<^verbatim>\<open>c.Next()\<close>: a panic skips it.\<close>

definition after :: "(Gin \<Rightarrow> 'w \<Rightarrow> Gin \<times> 'w) \<Rightarrow> 'w HandlerFunc \<Rightarrow> 'w HandlerFunc" where
  "after f h c w =
     (case h c w of
        ((c', Some p), w') \<Rightarrow> ((c', Some p), w')
      | ((c', None), w') \<Rightarrow> (case f c' w' of (c'', w'') \<Rightarrow> ((c'', None), w'')))"

section \<open>The middlewares of every route\<close>

definition requestIDMiddleware :: "'w HttpLib \<Rightarrow> 'w Middleware" where
  "requestIDMiddleware l rest c w =
     (let given = gn_header c ''X-Request-ID'' in
      case (if \<not> ValidRequestID given then GenerateRequestID (hl_random l) (hl_clock l) w else (given, w)) of
        (i, w') \<Rightarrow> rest (WithCtx (WithRequestID i) (Header ''X-Request-ID'' i (SetKey ''request_id'' i c))) w')"

definition environmentMiddleware :: "string \<Rightarrow> 'w Middleware" where
  "environmentMiddleware profile rest c = rest (WithCtx (WithEnvironment profile) (SetKey ''environment'' profile c))"

definition idempotencyMiddleware :: "'w HttpLib \<Rightarrow> 'w Middleware" where
  "idempotencyMiddleware l rest c =
     (let key = gn_header c ''Idempotency-Key'' in
      if key = [] then rest c
      else if \<not> hl_valid_key l key then finish (FailResponse (appInvalid ''invalid Idempotency-Key'' None) c)
      else rest (WithCtx (WithIdempotencyKey key) (Header ''Idempotency-Key'' key c)))"

definition firstStatus :: "Gin \<Rightarrow> int" where
  "firstStatus c = (case gn_written c of [] \<Rightarrow> 200 | r # _ \<Rightarrow> written_status r)"

definition requestLogger :: "'w HttpLib \<Rightarrow> 'w Middleware" where
  "requestLogger l rest = after
     (\<lambda>c w. (c, hl_log l \<lparr>al_request_id = requestID c, al_method = gn_method c, al_path = gn_fullpath c,
        al_status = firstStatus c, al_client_ip = gn_clientip c\<rparr> w)) rest"

definition metricsMiddleware :: "'w HttpLib \<Rightarrow> 'w Middleware" where
  "metricsMiddleware l rest = after
     (\<lambda>c w. case hl_metric l of
        None \<Rightarrow> (c, w)
      | Some count \<Rightarrow>
          (c, count (gn_method c) (if gn_fullpath c = [] then ''unmatched'' else gn_fullpath c)
                (FormatInt (firstStatus c)) w)) rest"

definition recoveryMiddleware :: "'w HttpLib \<Rightarrow> 'w Middleware" where
  "recoveryMiddleware l rest c w =
     (case rest c w of
        ((c', Some p), w') \<Rightarrow>
          if hl_broken_pipe l p then ((c', None), w')
          else ((RespondJSON 500 CodeInternal ''internal server error'' NoBody c', None), w')
      | ((c', None), w') \<Rightarrow> ((c', None), w'))"

definition timeoutMiddleware :: "'w HttpLib \<Rightarrow> Duration \<Rightarrow> 'w Middleware" where
  "timeoutMiddleware l timeout rest c w =
     (case hl_clock l w of (now, w') \<Rightarrow>
        let ctx = WithTimeout (sint now) timeout (gn_ctx c) in
        after (\<lambda>c' w''. (if hl_expired l ctx w'' \<and> gn_written c' = [] then FailResponse appRequestTimeout c' else c', w''))
          rest (WithCtx (\<lambda>_. ctx) c) w')"

definition maxBodyMiddleware :: "int \<Rightarrow> 'w Middleware" where
  "maxBodyMiddleware limit rest c = rest (c\<lparr>gn_limit := Some limit\<rparr>)"

definition requireJSONMiddleware :: "'w HttpLib \<Rightarrow> 'w Middleware" where
  "requireJSONMiddleware l rest c =
     (if gn_method c = ''POST'' \<and> gn_length c \<noteq> 0 \<and> hl_media_type l (gn_header c ''Content-Type'') \<noteq> Inr ''application/json''
      then finish (RespondJSON 415 CodeInvalidArgument ''content type must be application/json'' NoBody c)
      else rest c)"

text \<open>\<^verbatim>\<open>default-src 'none'; frame-ancestors 'none'\<close>.\<close>

definition contentPolicy :: string where
  "contentPolicy = ''default-src '' @ [CHR 0x27] @ ''none'' @ [CHR 0x27] @ ''; frame-ancestors '' @ [CHR 0x27]
     @ ''none'' @ [CHR 0x27]"

definition securityHeadersMiddleware :: "'w Middleware" where
  "securityHeadersMiddleware rest c =
     (let c1 = Header ''Cache-Control'' ''no-store''
                 (Header ''Content-Security-Policy'' contentPolicy
                   (Header ''Referrer-Policy'' ''no-referrer''
                     (Header ''X-Frame-Options'' ''DENY'' (Header ''X-Content-Type-Options'' ''nosniff'' c))))
      in rest (if gn_tls c then Header ''Strict-Transport-Security'' ''max-age=31536000; includeSubDomains'' c1 else c1))"

definition corsHeaders :: "'w HttpLib \<Rightarrow> CORS \<Rightarrow> string \<Rightarrow> Gin \<Rightarrow> Gin" where
  "corsHeaders l cfg origin c =
     Header ''Access-Control-Max-Age'' (FormatInt (hl_seconds l (cors_MaxAge cfg)))
       (Header ''Access-Control-Expose-Headers'' (Join (cors_ExposedHeaders cfg) '', '')
         (Header ''Access-Control-Allow-Headers'' (Join (cors_AllowedHeaders cfg) '', '')
           (Header ''Access-Control-Allow-Methods'' ''POST, GET, OPTIONS''
             (Header ''Vary'' ''Origin'' (Header ''Access-Control-Allow-Origin'' origin c)))))"

definition corsMiddleware :: "'w HttpLib \<Rightarrow> CORS \<Rightarrow> 'w Middleware" where
  "corsMiddleware l cfg rest c =
     (if \<not> cors_Enabled cfg then rest c
      else let origin = gn_header c ''Origin'' in
        if origin = [] then rest c
        else if origin \<notin> set (cors_AllowedOrigins cfg)
        then finish (RespondJSON 403 CodeForbidden ''origin is not allowed'' NoBody c)
        else let c1 = corsHeaders l cfg origin c in
          if gn_method c = ''OPTIONS'' then finish (Write (StatusWritten 204) c1) else rest c1)"

section \<open>Rate limits\<close>

record LimitResult =
  lr_Allowed :: bool
  lr_Limit :: int
  lr_Remaining :: int
  lr_RetryAfter :: Duration

text \<open>The backend answers with the number of allowed events, the remaining ones and the wait.\<close>

record 'w Limiter =
  li_enabled :: bool
  li_failOpen :: bool
  li_backend :: "(string \<Rightarrow> RateLimitRule \<Rightarrow> ('w, err, int \<times> int \<times> Duration) call) option"

definition NewLimiter ::
    "(string \<Rightarrow> RateLimitRule \<Rightarrow> ('w, err, int \<times> int \<times> Duration) call) option \<Rightarrow> Config \<Rightarrow> 'w Limiter" where
  "NewLimiter client cfg =
     \<lparr>li_enabled = rl_Enabled (cfg_RateLimit cfg), li_failOpen = rl_FailOpen (cfg_RateLimit cfg), li_backend = client\<rparr>"

definition limiterAllow :: "'w Limiter \<Rightarrow> string \<Rightarrow> RateLimitRule \<Rightarrow> ('w, err, LimitResult) call" where
  "limiterAllow li key rule w =
     (if \<not> li_enabled li then (Inr \<lparr>lr_Allowed = True, lr_Limit = 0, lr_Remaining = 0, lr_RetryAfter = 0\<rparr>, w)
      else case li_backend li of
          None \<Rightarrow> (Inl (Plain ''redis rate limiter is unavailable''), w)
        | Some allow \<Rightarrow>
            (case allow key rule w of
               (Inl e, w') \<Rightarrow> (Inl (prefixed ''check redis rate limit'' e), w')
             | (Inr (allowed, remaining, retry), w') \<Rightarrow>
                 (Inr \<lparr>lr_Allowed = (allowed > 0), lr_Limit = rule_Burst rule, lr_Remaining = remaining,
                    lr_RetryAfter = retry\<rparr>, w')))"

text \<open>\<^verbatim>\<open>d.Round(m)\<close>: to the nearest multiple, halfway values away from zero, saturating at 64 bits.\<close>

definition Round :: "Duration \<Rightarrow> Duration \<Rightarrow> Duration" where
  "Round d m =
     (if d < 0
      then let r = - d mod m in if r + r < m then d + r else max (d - m + r) (- (2 ^ 63))
      else let r = d mod m in if r + r < m then d - r else min (d + m - r) (2 ^ 63 - 1))"

text \<open>\<^verbatim>\<open>max(1, int(retry.Round(time.Second)/time.Second))\<close>, where the quotient truncates.\<close>

definition retrySeconds :: "Duration \<Rightarrow> int" where
  "retrySeconds retry =
     (let d = Round retry second in max 1 (if d < 0 then - (- d div second) else d div second))"

definition rateLimitMiddleware ::
    "'w Limiter \<Rightarrow> RateLimitRule \<Rightarrow> string \<Rightarrow> (Gin \<Rightarrow> string) \<Rightarrow> 'w Middleware" where
  "rateLimitMiddleware li rule dimension keyFunc rest c w =
     (if \<not> li_enabled li then rest c w
      else let key = keyFunc c in
        if key = [] then rest c w
        else case limiterAllow li (''rate:'' @ dimension @ '':'' @ key) rule w of
            (Inl e, w') \<Rightarrow>
              if li_failOpen li then rest c w'
              else finish (FailResponse (appUnavailable ''rate limiter unavailable'' (Some e)) c) w'
          | (Inr result, w') \<Rightarrow>
              (let c1 = Header ''X-RateLimit-Remaining'' (FormatInt (lr_Remaining result))
                          (Header ''X-RateLimit-Limit'' (FormatInt (lr_Limit result)) c) in
               if \<not> lr_Allowed result
               then finish (FailResponse appTooManyRequests
                      (Header ''Retry-After'' (FormatInt (retrySeconds (lr_RetryAfter result))) c1)) w'
               else rest c1 w'))"

section \<open>Authentication and authorization\<close>

definition WithCallerCredential :: "string \<Rightarrow> Ctx \<Rightarrow> Ctx" where
  "WithCallerCredential credential ctx = ctx\<lparr>cx_credential := Some credential\<rparr>"

definition jwtMiddleware :: "'w AuthService \<Rightarrow> 'w Middleware" where
  "jwtMiddleware service rest c w =
     (let header = gn_header c ''Authorization'' in
      case Cut header (CHR '' '') of (scheme, raw, ok) \<Rightarrow>
        if \<not> ok \<or> \<not> EqualFold scheme ''Bearer'' \<or> raw = []
        then finish (FailResponse (appUnauthorized ''missing bearer token'') c) w
        else (case Verify service (gn_ctx c) raw w of
            (Inl _, w') \<Rightarrow> finish (FailResponse (appUnauthorized ''invalid or expired token'') c) w'
          | (Inr identity, w') \<Rightarrow>
              rest (WithCtx (WithCallerCredential header \<circ> withPrincipal identity) (SetKey ''subject'' (pr_ID identity) c)) w'))"

definition authenticationMiddleware :: "'w AuthService \<Rightarrow> Auth \<Rightarrow> 'w Middleware" where
  "authenticationMiddleware service cfg rest c w =
     (if psk_Enabled (auth_PSK cfg) \<and> MatchesAny (gn_fullpath c) (psk_HTTPPaths (auth_PSK cfg)) then
        (if \<not> VerifyPSK (gn_header c ''Authorization'') (psk_Key (auth_PSK cfg))
         then finish (FailResponse (appUnauthorized ''missing or invalid PSK'') c) w
         else rest (WithCtx (WithCallerCredential (gn_header c ''Authorization'') \<circ> withPrincipal pskPrincipal)
                (SetKey ''subject'' ''psk'' c)) w)
      else if MatchesAny (gn_fullpath c) (auth_SkipHTTPPaths cfg) then rest c w
      else jwtMiddleware service rest c w)"

definition searchHTTPRequirement :: "string \<Rightarrow> Requirement option" where
  "searchHTTPRequirement = map_of
     [(''/api/v1/search/query'', \<lparr>rm_Resource = ''search.document'', rm_Action = ''search'', rm_Scope = ScopePrincipal\<rparr>),
      (''/api/v1/search/suggest'', \<lparr>rm_Resource = ''search.document'', rm_Action = ''suggest'', rm_Scope = ScopePrincipal\<rparr>),
      (''/api/v1/search/get'', \<lparr>rm_Resource = ''search.document'', rm_Action = ''read'', rm_Scope = ScopePrincipal\<rparr>)]"

definition authorizationMiddleware :: "'w HttpLib \<Rightarrow> bool \<Rightarrow> 'w Middleware" where
  "authorizationMiddleware l enabled rest c w =
     (case searchHTTPRequirement (gn_fullpath c) of
        None \<Rightarrow> rest c w
      | Some requirement \<Rightarrow>
          if \<not> enabled then rest c w
          else (case hl_enforce l (gn_ctx c) requirement w of
              (None, w') \<Rightarrow> rest c w'
            | (Some e, w') \<Rightarrow>
                if errors_is e (hl_decision_unavailable l)
                then finish (FailResponse (appUnavailable ''authorization decision is unavailable'' (Some e)) c) w'
                else finish (FailResponse (appForbidden ''permission denied'') c) w'))"

definition pprofAuth :: "string \<Rightarrow> 'w Middleware" where
  "pprofAuth expected rest c =
     (case Cut (gn_header c ''Authorization'') (CHR '' '') of (scheme, token, ok) \<Rightarrow>
        if \<not> ok \<or> \<not> EqualFold scheme ''Bearer'' \<or> token \<noteq> expected
        then finish (Write (StatusWritten 401) c)
        else rest c)"

end
