(* ===== verification/HttpServer.thy ===== *)
theory HttpServer
  imports HttpMiddleware
begin

text \<open>
  \<^verbatim>\<open>internal/transport/http/search_handler.go\<close>, \<^verbatim>\<open>handler.go\<close> and \<^verbatim>\<open>server.go\<close>: the handlers, the transfer
  objects, and the routes with the middlewares in front of them. JSON decoding, the library's own
  pages (metrics, profiles, API documentation, gin's answer for an unmatched route) and the build
  information are parameters. The redirect with which the router itself answers a path that differs
  from a route by a trailing slash does not go through the chain and is left out.
\<close>

section \<open>Requests\<close>

record SearchBody =
  sb_TenantID :: string
  sb_Query :: string
  sb_DocumentTypes :: "string list"
  sb_ApplicationIDs :: "string list"
  sb_Filters :: "(string \<times> string list) list"
  sb_Sort :: string
  sb_Page :: uint32
  sb_PageSize :: uint32
  sb_FacetFields :: "string list"

record SuggestBodyRequest =
  gb_TenantID :: string
  gb_Prefix :: string
  gb_DocumentTypes :: "string list"
  gb_ApplicationIDs :: "string list"
  gb_Limit :: uint32

record GetBody =
  tb_TenantID :: string
  tb_ID :: string

text \<open>
  The JSON decoders. They read the body, cut off at the size limit; the flag says that the limit was
  exceeded and reading on is an error.
\<close>

record Decoding =
  dg_search :: "string \<times> bool \<Rightarrow> err + SearchBody"
  dg_suggest :: "string \<times> bool \<Rightarrow> err + SuggestBodyRequest"
  dg_get :: "string \<times> bool \<Rightarrow> err + GetBody"

definition limitedBody :: "Gin \<Rightarrow> string \<times> bool" where
  "limitedBody c =
     (case gn_limit c of
        None \<Rightarrow> (gn_body c, False)
      | Some n \<Rightarrow> if int (length (gn_body c)) > n then (take (nat n) (gn_body c), True) else (gn_body c, False))"

text \<open>\<^verbatim>\<open>ShouldBindJSON\<close>: decoding, then the \<^verbatim>\<open>binding:"required"\<close> tags of the struct.\<close>

definition bindRequired :: "('r \<Rightarrow> string list) \<Rightarrow> (string \<times> bool \<Rightarrow> err + 'r) \<Rightarrow> Gin \<Rightarrow> err + 'r" where
  "bindRequired required decode c =
     (case decode (limitedBody c) of
        Inl e \<Rightarrow> Inl e
      | Inr r \<Rightarrow> if [] \<in> set (required r) then Inl (Plain ''required field is missing'') else Inr r)"

definition sortOrder :: "string \<Rightarrow> SortOrder" where
  "sortOrder v =
     (if v = ''updated_at_desc'' then SortUpdatedAtDesc
      else if v = ''updated_at_asc'' then SortUpdatedAtAsc
      else SortRelevance)"

section \<open>Transfer objects\<close>

text \<open>\<^verbatim>\<open>timestamp.IsValid()\<close>: from year 1 to year 9999.\<close>

definition validTimestamp :: "Timestamp \<Rightarrow> bool" where
  "validTimestamp t \<longleftrightarrow> - 62135596800 \<le> sint (ts_Seconds t) \<and> sint (ts_Seconds t) \<le> 253402300799
     \<and> 0 \<le> sint (ts_Nanos t) \<and> sint (ts_Nanos t) < 1000000000"

definition dtoTimestamp :: "Timestamp option \<Rightarrow> Timestamp option" where
  "dtoTimestamp t = (case t of None \<Rightarrow> None | Some x \<Rightarrow> if validTimestamp x then Some x else None)"

definition searchDocumentDTO :: "SearchDocument \<Rightarrow> SearchDocumentDTO" where
  "searchDocumentDTO d = \<lparr>dd_ID = sd_Id d, dd_TenantID = sd_TenantId d, dd_SourceService = sd_SourceService d,
     dd_DocumentType = sd_DocumentType d, dd_SourceID = sd_SourceId d, dd_ApplicationID = sd_ApplicationId d,
     dd_Title = sd_Title d, dd_Summary = sd_Summary d, dd_Content = sd_Content d, dd_URL = sd_Url d,
     dd_Icon = sd_Icon d, dd_Keywords = sd_Keywords d, dd_Attributes = sd_Attributes d,
     dd_PermissionCode = sd_PermissionCode d, dd_SourceVersion = sd_SourceVersion d,
     dd_SourceCreatedAt = dtoTimestamp (sd_SourceCreatedAt d), dd_SourceUpdatedAt = dtoTimestamp (sd_SourceUpdatedAt d)\<rparr>"

definition searchPageDTO :: "SearchResponse \<Rightarrow> SearchPageDTO" where
  "searchPageDTO response = \<lparr>
     pd_Items = map (\<lambda>hit. \<lparr>ht_Document = searchDocumentDTO (sh_Document hit), ht_Score = sh_Score hit,
        ht_Highlights = map (\<lambda>h. \<lparr>hd_Field = hl_Field h, hd_Fragments = hl_Fragments h\<rparr>) (sh_Highlights hit)\<rparr>)
        (sp_Hits response),
     pd_Total = sp_Total response, pd_Page = sp_Page response, pd_PageSize = sp_PageSize response,
     pd_Facets = map (\<lambda>f. \<lparr>fd_Field = fc_Field f,
        fd_Buckets = map (\<lambda>b. \<lparr>bd_Value = fb_Value b, bd_Count = fb_Count b\<rparr>) (fc_Buckets f)\<rparr>) (sp_Facets response),
     pd_TookMilliseconds = sp_TookMilliseconds response\<rparr>"

definition suggestResponseDTO :: "SuggestResponse \<Rightarrow> SuggestResponseDTO" where
  "suggestResponseDTO response = \<lparr>qd_Items =
     map (\<lambda>s. \<lparr>ud_Text = sn_Text s, ud_DocumentType = sn_DocumentType s, ud_SourceID = sn_SourceId s,
       ud_URL = sn_Url s\<rparr>) (sq_Suggestions response)\<rparr>"

section \<open>Handlers\<close>

record 'w HttpHandler =
  ha_health :: "'w HealthService"
  ha_order :: "check list"  \<comment> \<open>the order in which the checks finish\<close>
  ha_search :: "'w Service"
  ha_access :: "'w BindingsClient option option"
  ha_version :: "'w \<Rightarrow> BuildInfo"
  ha_decoding :: Decoding

definition searchAppError :: "err \<Rightarrow> err" where
  "searchAppError e =
     (if errors_is e SearchInvalidArgument then appInvalid (err_text e) (Some e)
      else if errors_is e SearchNotFound then appNotFound ''search document not found''
      else if errors_is e SearchForbidden then appForbidden ''application access denied''
      else if errors_is e SearchUnavailable then appUnavailable ''search unavailable'' (Some e)
      else appInternal (Some e))"

definition httpVisibility ::
    "'w BindingsClient option option \<Rightarrow> Gin \<Rightarrow> string \<Rightarrow> ('w, err, string list) call" where
  "httpVisibility access c tenantID w =
     (case access of
        Some resolver \<Rightarrow>
          (case VisibilityTokens resolver (WithAuthorization (gn_ctx c) (gn_header c ''Authorization'')) tenantID w of
             (Inl e, w') \<Rightarrow>
               (Inl (if errors_is e AccessForbidden then appForbidden ''tenant access denied''
                     else appUnavailable ''authorization unavailable'' (Some e)), w')
           | (Inr values, w') \<Rightarrow> (Inr values, w'))
      | None \<Rightarrow>
          (case cx_principal (gn_ctx c) of
             None \<Rightarrow> (Inr [], w)
           | Some identity \<Rightarrow>
               if pr_TenantID identity \<noteq> [] \<and> pr_TenantID identity \<noteq> tenantID
               then (Inl (appForbidden ''tenant access denied''), w)
               else (Inr ([''user:'' @ pr_ID identity]
                 @ (if pr_MembershipID identity \<noteq> [] then [''membership:'' @ pr_MembershipID identity] else [])), w)))"

text \<open>The common shape of the three search handlers: bind, resolve the caller's visibility, ask the service.\<close>

definition answerQuery ::
    "'w HttpHandler \<Rightarrow> string \<Rightarrow> ('r \<Rightarrow> string) \<Rightarrow> err + 'r \<Rightarrow> ('r \<Rightarrow> string list \<Rightarrow> ('w, err, 'a) call) \<Rightarrow>
     ('a \<Rightarrow> Body) \<Rightarrow> 'w HandlerFunc" where
  "answerQuery h invalidText tenant bound ask body c w =
     (case bound of
        Inl e \<Rightarrow> finish (FailResponse (appInvalid invalidText (Some e)) c) w
      | Inr request \<Rightarrow>
          (case httpVisibility (ha_access h) c (tenant request) w of
             (Inl e, w') \<Rightarrow> finish (FailResponse e c) w'
           | (Inr visibility, w') \<Rightarrow>
               (case ask request visibility w' of
                  (Inl e, w'') \<Rightarrow> finish (FailResponse (searchAppError e) c) w''
                | (Inr response, w'') \<Rightarrow> finish (OKResponse (body response) c) w'')))"

definition searchRequest :: "SearchBody \<Rightarrow> SearchRequest" where
  "searchRequest r = \<lparr>sr_TenantId = sb_TenantID r, sr_Query = sb_Query r, sr_DocumentTypes = sb_DocumentTypes r,
     sr_ApplicationIds = sb_ApplicationIDs r, sr_Filters = map (\<lambda>(field, vs). (field, Some vs)) (sb_Filters r),
     sr_Sort = sortOrder (sb_Sort r), sr_Page = sb_Page r, sr_PageSize = sb_PageSize r, sr_FacetFields = sb_FacetFields r\<rparr>"

definition suggestRequest :: "SuggestBodyRequest \<Rightarrow> SuggestRequest" where
  "suggestRequest r = \<lparr>sg_TenantId = gb_TenantID r, sg_Prefix = gb_Prefix r, sg_DocumentTypes = gb_DocumentTypes r,
     sg_ApplicationIds = gb_ApplicationIDs r, sg_Limit = gb_Limit r\<rparr>"

definition httpSearch :: "'w HttpHandler \<Rightarrow> 'w HandlerFunc" where
  "httpSearch h c = answerQuery h ''invalid search request'' sb_TenantID
     (bindRequired (\<lambda>r. [sb_TenantID r]) (dg_search (ha_decoding h)) c)
     (\<lambda>r. Service_Search (ha_search h) (gn_ctx c) (Some (searchRequest r))) (PageBody \<circ> searchPageDTO) c"

definition httpSuggest :: "'w HttpHandler \<Rightarrow> 'w HandlerFunc" where
  "httpSuggest h c = answerQuery h ''invalid suggestion request'' gb_TenantID
     (bindRequired (\<lambda>r. [gb_TenantID r, gb_Prefix r]) (dg_suggest (ha_decoding h)) c)
     (\<lambda>r. Service_Suggest (ha_search h) (gn_ctx c) (Some (suggestRequest r))) (SuggestBody \<circ> suggestResponseDTO) c"

definition httpGetDocument :: "'w HttpHandler \<Rightarrow> 'w HandlerFunc" where
  "httpGetDocument h c = answerQuery h ''invalid document request'' tb_TenantID
     (bindRequired (\<lambda>r. [tb_TenantID r, tb_ID r]) (dg_get (ha_decoding h)) c)
     (\<lambda>r. Service_Get (ha_search h) (gn_ctx c) (tb_TenantID r) (tb_ID r)) (DocumentBody \<circ> searchDocumentDTO) c"

definition httpLive :: "'w HandlerFunc" where
  "httpLive c = finish (OKResponse (StatusBody Live) c)"

definition httpReady :: "'w HttpHandler \<Rightarrow> 'w HandlerFunc" where
  "httpReady h c w =
     (case Ready (ha_health h) (ha_order h) (gn_ctx c) w of ((status, ready), w') \<Rightarrow>
        if \<not> ready
        then finish (RespondJSON 503 CodeDependencyUnavailable ''service is not ready'' (StatusBody status) c) w'
        else finish (OKResponse (StatusBody status) c) w')"

definition httpMe :: "'w HandlerFunc" where
  "httpMe c = finish (OKResponse (SubjectBody (gn_keys c ''subject'')) c)"

definition httpVersion :: "'w HttpHandler \<Rightarrow> 'w HandlerFunc" where
  "httpVersion h c w = finish (OKResponse (VersionBody (ha_version h w)) c) w"

section \<open>Routes\<close>

definition subjectKey :: "Gin \<Rightarrow> string" where
  "subjectKey c = (case gn_keys c ''subject'' of None \<Rightarrow> [] | Some s \<Rightarrow> s)"

definition apiChain :: "'w HttpLib \<Rightarrow> 'w Limiter \<Rightarrow> Config \<Rightarrow> 'w AuthService \<Rightarrow> 'w Middleware" where
  "apiChain l li cfg service =
     rateLimitMiddleware li (rl_IP (cfg_RateLimit cfg)) ''ip'' gn_clientip
     \<circ> rateLimitMiddleware li (rl_API (cfg_RateLimit cfg)) ''api'' gn_fullpath
     \<circ> authenticationMiddleware service (cfg_Auth cfg)
     \<circ> authorizationMiddleware l (authz_Enabled (cfg_Authorization cfg))
     \<circ> rateLimitMiddleware li (rl_User (cfg_RateLimit cfg)) ''user'' subjectKey"

definition globalChain :: "'w HttpLib \<Rightarrow> Config \<Rightarrow> 'w Middleware" where
  "globalChain l cfg =
     requestIDMiddleware l \<circ> idempotencyMiddleware l \<circ> environmentMiddleware (rt_ActiveProfile (cfg_Runtime cfg))
     \<circ> requestLogger l \<circ> recoveryMiddleware l \<circ> metricsMiddleware l \<circ> securityHeadersMiddleware
     \<circ> corsMiddleware l (http_CORS (cfg_HTTP cfg)) \<circ> maxBodyMiddleware (http_MaxBodyBytes (cfg_HTTP cfg))
     \<circ> timeoutMiddleware l (http_RequestTimeout (cfg_HTTP cfg)) \<circ> requireJSONMiddleware l"

text \<open>The pages that libraries answer, by route.\<close>

type_synonym 'w LibraryPages = "string \<Rightarrow> 'w HandlerFunc"

definition pprofRoutes :: "(string \<times> string) list" where
  "pprofRoutes = [(''GET'', ''/debug/pprof/''), (''GET'', ''/debug/pprof/cmdline''), (''GET'', ''/debug/pprof/profile''),
     (''POST'', ''/debug/pprof/symbol''), (''GET'', ''/debug/pprof/symbol''), (''GET'', ''/debug/pprof/trace'')]
     @ map (\<lambda>profile. (''GET'', ''/debug/pprof/'' @ profile))
         [''allocs'', ''block'', ''goroutine'', ''heap'', ''mutex'', ''threadcreate'']"

definition fixedRoutes ::
    "Config \<Rightarrow> 'w AuthService \<Rightarrow> 'w HttpHandler \<Rightarrow> 'w LibraryPages \<Rightarrow> ((string \<times> string) \<times> 'w HandlerFunc) list" where
  "fixedRoutes cfg service h pages =
     concat (map (\<lambda>verb. [((verb, ''/live''), httpLive), ((verb, ''/ready''), httpReady h)]) [''GET'', ''POST''])
     @ (if obs_MetricsEnabled (cfg_Observability cfg) then [((''GET'', ''/metrics''), pages ''/metrics'')] else [])
     @ (if obs_PprofEnabled (cfg_Observability cfg)
        then map (\<lambda>(verb, path). ((verb, path), pprofAuth (obs_PprofToken (cfg_Observability cfg)) (pages path))) pprofRoutes
        else [])
     @ (if swagger_Enabled (cfg_Swagger cfg)
        then [((''GET'', ''/swagger/*any''),
           if swagger_RequireAuth (cfg_Swagger cfg) then jwtMiddleware service (pages ''/swagger/*any'')
           else pages ''/swagger/*any'')]
        else [])"

definition apiRoutes :: "'w HttpHandler \<Rightarrow> (string \<times> 'w HandlerFunc) list" where
  "apiRoutes h =
     [(''/api/v1/version'', httpVersion h), (''/api/v1/me'', httpMe), (''/api/v1/search/query'', httpSearch h),
      (''/api/v1/search/suggest'', httpSuggest h), (''/api/v1/search/get'', httpGetDocument h)]"

definition routes ::
    "'w HttpLib \<Rightarrow> 'w Limiter \<Rightarrow> Config \<Rightarrow> 'w AuthService \<Rightarrow> 'w HttpHandler \<Rightarrow> 'w LibraryPages \<Rightarrow>
     ((string \<times> string) \<times> 'w HandlerFunc) list" where
  "routes l li cfg service h pages =
     fixedRoutes cfg service h pages
     @ map (\<lambda>(path, handler). ((''POST'', path), apiChain l li cfg service handler)) (apiRoutes h)"

definition serveHTTP ::
    "'w HttpLib \<Rightarrow> 'w Limiter \<Rightarrow> Config \<Rightarrow> 'w AuthService \<Rightarrow> 'w HttpHandler \<Rightarrow> 'w LibraryPages \<Rightarrow> 'w HandlerFunc" where
  "serveHTTP l li cfg service h pages c =
     globalChain l cfg
       (case map_of (routes l li cfg service h pages) (gn_method c, gn_fullpath c) of
          Some handler \<Rightarrow> handler
        | None \<Rightarrow> pages []) c"

end
