(* ===== verification/HttpGuards.thy ===== *)
theory HttpGuards
  imports HttpServer IndexQueries
begin

text \<open>
  What the HTTP layer guarantees: no handler of the API runs before the guards in front of it passed,
  every request is answered exactly once, what the answers to a caller may contain, and the numbers
  of the rate limits.
\<close>

section \<open>Guards\<close>

text \<open>
  A middleware conducts what follows: its outcome depends on the rest of the chain only through a run
  of the rest on a context that \<^verbatim>\<open>passes\<close> relates to its own.
\<close>

locale conduit =
  fixes m :: "'w Middleware" and passes :: "Gin \<Rightarrow> Gin \<Rightarrow> bool"
  assumes conducts: "m h c w \<noteq> m h' c w \<Longrightarrow> \<exists>c1 w1. passes c c1 \<and> h c1 w1 \<noteq> h' c1 w1"

lemma conduit_comp:
  assumes "conduit m p" and "conduit n p" and "\<And>a b c. p a b \<Longrightarrow> p b c \<Longrightarrow> p a c"
  shows "conduit (m \<circ> n) p"
proof
  fix h h' :: "'a HandlerFunc" and c w
  assume "(m \<circ> n) h c w \<noteq> (m \<circ> n) h' c w"
  then obtain c1 w1 where one: "p c c1" "n h c1 w1 \<noteq> n h' c1 w1"
    using conduit.conducts [OF assms(1), of "n h" c w "n h'"] by auto
  then obtain c2 w2 where "p c1 c2" "h c2 w2 \<noteq> h' c2 w2"
    using conduit.conducts [OF assms(2), of h c1 w1 h'] by blast
  with one(1) assms(3) show "\<exists>c1 w1. p c c1 \<and> h c1 w1 \<noteq> h' c1 w1" by blast
qed

text \<open>
  A middleware guards what follows: either its outcome does not depend on the rest of the chain, which
  is then not run, or it hands the request on, once, as \<^verbatim>\<open>allows\<close> says it may, and adds nothing
  afterwards.
\<close>

locale guard =
  fixes m :: "'w Middleware" and allows :: "Gin \<Rightarrow> 'w \<Rightarrow> Gin \<Rightarrow> 'w \<Rightarrow> bool"
  assumes guarded: "(\<exists>r. \<forall>h. m h c w = r) \<or> (\<exists>c' w'. allows c w c' w' \<and> (\<forall>h. m h c w = h c' w'))"
begin

lemma fail_closed:
  assumes "m h c w \<noteq> m h' c w"
  obtains c' w' where "allows c w c' w'" and "\<And>h. m h c w = h c' w'"
  using guarded [of c w] assms that by metis

end

sublocale guard \<subseteq> conduit m "\<lambda>c c'. \<exists>w w'. allows c w c' w'"
proof
  fix h h' c w
  assume "m h c w \<noteq> m h' c w"
  then obtain c' w' where "allows c w c' w'" and run: "\<And>h. m h c w = h c' w'" using fail_closed by blast
  moreover have "h c' w' \<noteq> h' c' w'" using \<open>m h c w \<noteq> m h' c w\<close> run by simp
  ultimately show "\<exists>c1 w1. (\<exists>w w'. allows c w c1 w') \<and> h c1 w1 \<noteq> h' c1 w1" by blast
qed

definition and_then :: "(Gin \<Rightarrow> 'w \<Rightarrow> Gin \<Rightarrow> 'w \<Rightarrow> bool) \<Rightarrow> (Gin \<Rightarrow> 'w \<Rightarrow> Gin \<Rightarrow> 'w \<Rightarrow> bool) \<Rightarrow> Gin \<Rightarrow> 'w \<Rightarrow> Gin \<Rightarrow> 'w \<Rightarrow> bool" where
  "and_then p q c w c' w' \<longleftrightarrow> (\<exists>c1 w1. p c w c1 w1 \<and> q c1 w1 c' w')"

lemma and_thenE:
  assumes "and_then p q c w c' w'"
  obtains c1 w1 where "p c w c1 w1" and "q c1 w1 c' w'"
  using assms unfolding and_then_def by blast

lemma guard_comp:
  assumes "guard m p" and "guard n q"
  shows "guard (m \<circ> n) (and_then p q)"
proof
  fix c :: Gin and w :: 'a
  show "(\<exists>r. \<forall>h. (m \<circ> n) h c w = r) \<or> (\<exists>c' w'. and_then p q c w c' w' \<and> (\<forall>h. (m \<circ> n) h c w = h c' w'))"
  proof (cases "\<exists>r. \<forall>h. m h c w = r")
    case False
    then obtain c1 w1 where one: "p c w c1 w1" "\<And>h. m h c w = h c1 w1"
      using guard.guarded [OF assms(1), of c w] by blast
    from guard.guarded [OF assms(2), of c1 w1] show ?thesis
      unfolding and_then_def comp_apply one(2) using one(1) by blast
  qed auto
qed

text \<open>What later guards and the handler look at: the route, the headers and the context.\<close>

definition same_caller :: "Gin \<Rightarrow> Gin \<Rightarrow> bool" where
  "same_caller c c' \<longleftrightarrow> gn_fullpath c' = gn_fullpath c \<and> gn_header c' = gn_header c \<and> gn_ctx c' = gn_ctx c"

definition limited :: "Gin \<Rightarrow> 'w \<Rightarrow> Gin \<Rightarrow> 'w \<Rightarrow> bool" where
  "limited c w c' w' \<longleftrightarrow> same_caller c c'"

text \<open>How a request may get past authentication.\<close>

definition psk_route :: "Auth \<Rightarrow> Gin \<Rightarrow> bool" where
  "psk_route cfg c \<longleftrightarrow> psk_Enabled (auth_PSK cfg) \<and> MatchesAny (gn_fullpath c) (psk_HTTPPaths (auth_PSK cfg))"

definition bearer :: "'w AuthService \<Rightarrow> Gin \<Rightarrow> 'w \<Rightarrow> Gin \<Rightarrow> 'w \<Rightarrow> bool" where
  "bearer service c w c' w' \<longleftrightarrow>
     (\<exists>scheme raw identity. gn_header c ''Authorization'' = scheme @ CHR '' '' # raw \<and> raw \<noteq> []
        \<and> EqualFold scheme ''Bearer'' \<and> Verify service (gn_ctx c) raw w = (Inr identity, w')
        \<and> gn_fullpath c' = gn_fullpath c \<and> gn_header c' = gn_header c
        \<and> gn_ctx c' = WithCallerCredential (gn_header c ''Authorization'') (withPrincipal identity (gn_ctx c)))"

definition authenticated :: "'w AuthService \<Rightarrow> Auth \<Rightarrow> Gin \<Rightarrow> 'w \<Rightarrow> Gin \<Rightarrow> 'w \<Rightarrow> bool" where
  "authenticated service cfg c w c' w' \<longleftrightarrow>
     (if psk_route cfg c
      then VerifyPSK (gn_header c ''Authorization'') (psk_Key (auth_PSK cfg))
        \<and> gn_fullpath c' = gn_fullpath c \<and> gn_header c' = gn_header c
        \<and> gn_ctx c' = WithCallerCredential (gn_header c ''Authorization'') (withPrincipal pskPrincipal (gn_ctx c)) \<and> w' = w
      else if MatchesAny (gn_fullpath c) (auth_SkipHTTPPaths cfg) then c' = c \<and> w' = w
      else bearer service c w c' w')"

definition authorized :: "'w HttpLib \<Rightarrow> bool \<Rightarrow> Gin \<Rightarrow> 'w \<Rightarrow> Gin \<Rightarrow> 'w \<Rightarrow> bool" where
  "authorized l enabled c w c' w' \<longleftrightarrow> c' = c
     \<and> (case searchHTTPRequirement (gn_fullpath c) of
          None \<Rightarrow> w' = w
        | Some requirement \<Rightarrow> if enabled then hl_enforce l (gn_ctx c) requirement w = (None, w') else w' = w)"

lemma rateLimit_guard: "guard (rateLimitMiddleware li rule dimension key) limited"
proof
  fix c :: Gin and w :: 'a
  have same: "same_caller c c" "same_caller c (Header k v (Header k' v' c))" for k v k' v'
    by (simp_all add: same_caller_def)
  show "(\<exists>r. \<forall>h. rateLimitMiddleware li rule dimension key h c w = r)
    \<or> (\<exists>c' w'. limited c w c' w' \<and> (\<forall>h. rateLimitMiddleware li rule dimension key h c w = h c' w'))"
  proof (cases "li_enabled li \<and> key c \<noteq> []")
    case False
    then have "\<forall>h. rateLimitMiddleware li rule dimension key h c w = h c w" by (auto simp: rateLimitMiddleware_def Let_def)
    then show ?thesis using same(1) unfolding limited_def by blast
  next
    case on: True
    let ?key = "''rate:'' @ dimension @ '':'' @ key c"
    obtain res w' where allow: "limiterAllow li ?key rule w = (res, w')" by (cases "limiterAllow li ?key rule w")
    show ?thesis
    proof (cases res)
      case (Inl e)
      have "rateLimitMiddleware li rule dimension key h c w = (if li_failOpen li then h c w'
          else finish (FailResponse (appUnavailable ''rate limiter unavailable'' (Some e)) c) w')" for h
        using on allow Inl by (simp add: rateLimitMiddleware_def Let_def)
      then show ?thesis using same(1) unfolding limited_def by (cases "li_failOpen li") auto
    next
      case (Inr r)
      let ?c = "Header ''X-RateLimit-Remaining'' (FormatInt (lr_Remaining r)) (Header ''X-RateLimit-Limit'' (FormatInt (lr_Limit r)) c)"
      have "rateLimitMiddleware li rule dimension key h c w = (if lr_Allowed r then h ?c w'
          else finish (FailResponse appTooManyRequests (Header ''Retry-After'' (FormatInt (retrySeconds (lr_RetryAfter r))) ?c)) w')" for h
        using on allow Inr by (simp add: rateLimitMiddleware_def Let_def)
      moreover have "limited c w ?c w'" unfolding limited_def by (rule same(2))
      ultimately show ?thesis by (cases "lr_Allowed r") auto
    qed
  qed
qed

interpretation rate: guard "rateLimitMiddleware li rule dimension key" limited for li rule dimension key
  by (rule rateLimit_guard)

lemma jwt_guard: "guard (jwtMiddleware service) (bearer service)"
proof
  fix c :: Gin and w :: 'a
  obtain scheme raw ok where cut: "Cut (gn_header c ''Authorization'') (CHR '' '') = (scheme, raw, ok)" by (rule prod_cases3)
  show "(\<exists>r. \<forall>h. jwtMiddleware service h c w = r) \<or> (\<exists>c' w'. bearer service c w c' w' \<and> (\<forall>h. jwtMiddleware service h c w = h c' w'))"
  proof (cases "ok \<and> EqualFold scheme ''Bearer'' \<and> raw \<noteq> []")
    case False
    then show ?thesis using cut by (auto simp: jwtMiddleware_def Let_def simp del: EqualFold.simps)
  next
    case True
    then have header: "gn_header c ''Authorization'' = scheme @ CHR '' '' # raw"
      using Cut_foundD [of "gn_header c ''Authorization''" "CHR '' ''" scheme raw] cut by simp
    obtain r w' where verify: "Verify service (gn_ctx c) raw w = (r, w')" by (cases "Verify service (gn_ctx c) raw w")
    show ?thesis
    proof (cases r)
      case (Inl e)
      then show ?thesis using cut True verify by (auto simp: jwtMiddleware_def Let_def simp del: EqualFold.simps)
    next
      case (Inr identity)
      let ?c = "WithCtx (WithCallerCredential (gn_header c ''Authorization'') \<circ> withPrincipal identity)
          (SetKey ''subject'' (pr_ID identity) c)"
      have "jwtMiddleware service h c w = h ?c w'" for h
        using cut True verify Inr by (simp add: jwtMiddleware_def Let_def del: EqualFold.simps)
      moreover have "bearer service c w ?c w'"
        unfolding bearer_def using header True verify Inr
        by (intro exI [of _ scheme] exI [of _ raw] exI [of _ identity]) (simp del: EqualFold.simps)
      ultimately show ?thesis by blast
    qed
  qed
qed

interpretation jwt: guard "jwtMiddleware service" "bearer service" for service
  by (rule jwt_guard)

lemma authentication_guard: "guard (authenticationMiddleware service cfg) (authenticated service cfg)"
proof
  fix c :: Gin and w :: 'a
  let ?goal = "(\<exists>r. \<forall>h. authenticationMiddleware service cfg h c w = r)
    \<or> (\<exists>c' w'. authenticated service cfg c w c' w' \<and> (\<forall>h. authenticationMiddleware service cfg h c w = h c' w'))"
  show ?goal
  proof (cases "psk_route cfg c")
    case psk: True
    show ?thesis
    proof (cases "VerifyPSK (gn_header c ''Authorization'') (psk_Key (auth_PSK cfg))")
      case True
      let ?c = "WithCtx (WithCallerCredential (gn_header c ''Authorization'') \<circ> withPrincipal pskPrincipal)
          (SetKey ''subject'' ''psk'' c)"
      have "authenticationMiddleware service cfg h c w = h ?c w" for h
        using psk True by (simp add: authenticationMiddleware_def psk_route_def)
      moreover have "authenticated service cfg c w ?c w" using psk True by (simp add: authenticated_def)
      ultimately show ?thesis by blast
    next
      case False
      then have "authenticationMiddleware service cfg h c w
          = finish (FailResponse (appUnauthorized ''missing or invalid PSK'') c) w" for h
        using psk by (simp add: authenticationMiddleware_def psk_route_def)
      then show ?thesis by blast
    qed
  next
    case psk: False
    then have auth: "authenticationMiddleware service cfg h c w
        = (if MatchesAny (gn_fullpath c) (auth_SkipHTTPPaths cfg) then h c w else jwtMiddleware service h c w)" for h
      unfolding authenticationMiddleware_def using psk [unfolded psk_route_def] by (simp only: if_False)
    show ?thesis
    proof (cases "MatchesAny (gn_fullpath c) (auth_SkipHTTPPaths cfg)")
      case True
      then have "authenticated service cfg c w c w" using psk by (simp add: authenticated_def)
      then show ?thesis unfolding auth using True by auto
    next
      case False
      then have "authenticated service cfg c w c' w' \<longleftrightarrow> bearer service c w c' w'" for c' w'
        using psk by (simp add: authenticated_def)
      then show ?thesis unfolding auth using False jwt.guarded [of service c w] by simp
    qed
  qed
qed

interpretation authentication: guard "authenticationMiddleware service cfg" "authenticated service cfg" for service cfg
  by (rule authentication_guard)

lemma authorization_guard: "guard (authorizationMiddleware l enabled) (authorized l enabled)"
proof
  fix c :: Gin and w :: 'a
  show "(\<exists>r. \<forall>h. authorizationMiddleware l enabled h c w = r)
    \<or> (\<exists>c' w'. authorized l enabled c w c' w' \<and> (\<forall>h. authorizationMiddleware l enabled h c w = h c' w'))"
  proof (cases "searchHTTPRequirement (gn_fullpath c)")
    case None
    then show ?thesis by (simp add: authorizationMiddleware_def authorized_def)
  next
    case (Some requirement)
    obtain e w' where "hl_enforce l (gn_ctx c) requirement w = (e, w')" by (cases "hl_enforce l (gn_ctx c) requirement w")
    then show ?thesis using Some
      by (cases enabled; cases e) (auto simp: authorizationMiddleware_def authorized_def)
  qed
qed

interpretation authorization: guard "authorizationMiddleware l enabled" "authorized l enabled" for l enabled
  by (rule authorization_guard)

section \<open>The chain of every route\<close>

text \<open>What the chain of every route leaves as it was.\<close>

definition same_request :: "Gin \<Rightarrow> Gin \<Rightarrow> bool" where
  "same_request c c' \<longleftrightarrow> gn_method c' = gn_method c \<and> gn_fullpath c' = gn_fullpath c \<and> gn_header c' = gn_header c
     \<and> gn_body c' = gn_body c \<and> cx_principal (gn_ctx c') = cx_principal (gn_ctx c)"

lemma same_request_refl [simp]: "same_request c c"
  by (simp add: same_request_def)

lemma same_request_trans: "same_request a b \<Longrightarrow> same_request b c \<Longrightarrow> same_request a c"
  by (simp add: same_request_def)

lemma body_fields [simp]:
  "gn_body (Header k v c) = gn_body c" "gn_body (SetKey k v c) = gn_body c" "gn_body (WithCtx f c) = gn_body c"
  by (simp_all add: Header_def SetKey_def WithCtx_def)

lemma conduitI:
  assumes "\<And>h h' c w. (\<And>c1 w1. same_request c c1 \<Longrightarrow> h c1 w1 = h' c1 w1) \<Longrightarrow> m h c w = m h' c w"
  shows "conduit m same_request"
  by unfold_locales (use assms in blast)

lemma after_conduit: "conduit (after f) same_request"
  by (rule conduitI) (simp add: after_def)

lemma requestID_conduit: "conduit (requestIDMiddleware l) same_request"
  by (rule conduitI) (simp add: requestIDMiddleware_def Let_def same_request_def split: prod.split)

lemma environment_conduit: "conduit (environmentMiddleware profile) same_request"
  by (rule conduitI) (simp add: environmentMiddleware_def same_request_def)

lemma idempotency_conduit: "conduit (idempotencyMiddleware l) same_request"
  by (rule conduitI) (simp add: idempotencyMiddleware_def same_request_def Let_def)

lemma recovery_conduit: "conduit (recoveryMiddleware l) same_request"
  by (rule conduitI) (simp add: recoveryMiddleware_def)

lemma metrics_conduit: "conduit (metricsMiddleware l) same_request"
  unfolding metricsMiddleware_def [abs_def] by (rule after_conduit)

lemma logger_conduit: "conduit (requestLogger l) same_request"
  unfolding requestLogger_def [abs_def] by (rule after_conduit)

lemma timeout_conduit: "conduit (timeoutMiddleware l timeout) same_request"
  by (rule conduitI) (simp add: timeoutMiddleware_def after_def same_request_def WithTimeout_def Let_def split: prod.split)

lemma security_conduit: "conduit securityHeadersMiddleware same_request"
  by (rule conduitI) (simp add: securityHeadersMiddleware_def same_request_def Let_def)

lemma cors_conduit: "conduit (corsMiddleware l cfg) same_request"
  by (rule conduitI) (simp add: corsMiddleware_def corsHeaders_def same_request_def Let_def)

lemma maxBody_conduit: "conduit (maxBodyMiddleware limit) same_request"
  by (rule conduitI) (simp add: maxBodyMiddleware_def same_request_def)

lemma requireJSON_conduit: "conduit (requireJSONMiddleware l) same_request"
  by (rule conduitI) (simp add: requireJSONMiddleware_def)

lemma conduit_chain: "conduit m same_request \<Longrightarrow> conduit n same_request \<Longrightarrow> conduit (m \<circ> n) same_request"
  by (erule (1) conduit_comp) (rule same_request_trans)

lemma globalChain_conduit: "conduit (globalChain l cfg) same_request"
  unfolding globalChain_def
  by (intro conduit_chain requestID_conduit environment_conduit idempotency_conduit recovery_conduit logger_conduit metrics_conduit
      timeout_conduit security_conduit cors_conduit maxBody_conduit requireJSON_conduit)

interpretation global: conduit "globalChain l cfg" same_request for l cfg
  by (rule globalChain_conduit)

section \<open>The chain of the API\<close>

definition guards_passed ::
    "'w HttpLib \<Rightarrow> Config \<Rightarrow> 'w AuthService \<Rightarrow> Gin \<Rightarrow> Gin \<Rightarrow> bool" where
  "guards_passed l cfg service c c' \<longleftrightarrow>
     (\<exists>ca wa cb wb wd. same_caller c ca \<and> authenticated service (cfg_Auth cfg) ca wa cb wb
        \<and> gn_ctx c' = gn_ctx cb
        \<and> (case searchHTTPRequirement (gn_fullpath c) of
             None \<Rightarrow> True
           | Some requirement \<Rightarrow>
               if authz_Enabled (cfg_Authorization cfg)
               then hl_enforce l (gn_ctx c') requirement wb = (None, wd) else True))"

lemma authenticated_fullpath: "authenticated service cfg c w c' w' \<Longrightarrow> gn_fullpath c' = gn_fullpath c"
  by (auto simp: authenticated_def bearer_def split: if_splits)

lemma apiChain_guard: "guard (apiChain l li cfg service) (\<lambda>c w c' w'. guards_passed l cfg service c c')"
proof
  fix c :: Gin and w :: 'a
  let ?m = "apiChain l li cfg service"
  have "guard ?m (and_then (and_then (and_then (and_then limited limited) (authenticated service (cfg_Auth cfg)))
      (authorized l (authz_Enabled (cfg_Authorization cfg)))) limited)"
    unfolding apiChain_def by (intro guard_comp rateLimit_guard authentication_guard authorization_guard)
  from guard.guarded [OF this, of c w]
  show "(\<exists>r. \<forall>h. ?m h c w = r) \<or> (\<exists>c' w'. guards_passed l cfg service c c' \<and> (\<forall>h. ?m h c w = h c' w'))"
  proof
    assume "\<exists>c' w'. and_then (and_then (and_then (and_then limited limited) (authenticated service (cfg_Auth cfg)))
      (authorized l (authz_Enabled (cfg_Authorization cfg)))) limited c w c' w' \<and> (\<forall>h. ?m h c w = h c' w')"
    then obtain c' w' where run: "\<And>h. ?m h c w = h c' w'"
      and chain: "and_then (and_then (and_then (and_then limited limited) (authenticated service (cfg_Auth cfg)))
      (authorized l (authz_Enabled (cfg_Authorization cfg)))) limited c w c' w'" by blast
    from chain obtain cd wd where s4: "and_then (and_then (and_then limited limited) (authenticated service (cfg_Auth cfg)))
        (authorized l (authz_Enabled (cfg_Authorization cfg))) c w cd wd" and last: "limited cd wd c' w'" by (rule and_thenE)
    from s4 obtain cb wb where s3: "and_then (and_then limited limited) (authenticated service (cfg_Auth cfg)) c w cb wb"
      and perm: "authorized l (authz_Enabled (cfg_Authorization cfg)) cb wb cd wd" by (rule and_thenE)
    from s3 obtain ca wa where s2: "and_then limited limited c w ca wa"
      and auth: "authenticated service (cfg_Auth cfg) ca wa cb wb" by (rule and_thenE)
    from s2 obtain c1 w1 where "limited c w c1 w1" "limited c1 w1 ca wa" by (rule and_thenE)
    note this auth perm last
    then have rest: "same_caller c c1" "same_caller c1 ca" "authenticated service (cfg_Auth cfg) ca wa cb wb"
        "authorized l (authz_Enabled (cfg_Authorization cfg)) cb wb cd wd" "same_caller cd c'"
      by (simp_all add: limited_def)
    have cd: "cd = cb" and ctx: "gn_ctx c' = gn_ctx cb" and path: "gn_fullpath cb = gn_fullpath c"
      using rest(1,2,4,5) authenticated_fullpath [OF rest(3)] by (simp_all add: authorized_def same_caller_def)
    have "same_caller c ca" using rest(1,2) by (simp add: same_caller_def)
    moreover have "case searchHTTPRequirement (gn_fullpath c) of None \<Rightarrow> True
        | Some requirement \<Rightarrow> if authz_Enabled (cfg_Authorization cfg)
            then hl_enforce l (gn_ctx c') requirement wb = (None, wd) else True"
      using rest(4) unfolding ctx authorized_def path by (auto split: option.splits if_splits)
    ultimately have "guards_passed l cfg service c c'" using rest(3) ctx unfolding guards_passed_def by blast
    with run show ?thesis by blast
  qed blast
qed

interpretation api: guard "apiChain l li cfg service" "\<lambda>c w c' w'. guards_passed l cfg service c c'" for l li cfg service
  by (rule apiChain_guard)

section \<open>No search without authentication and permission\<close>

definition search_paths :: "string set" where
  "search_paths = {''/api/v1/search/query'', ''/api/v1/search/suggest'', ''/api/v1/search/get''}"

lemma handlers_same [simp]:
  "httpReady (h\<lparr>ha_search := s\<rparr>) = httpReady h" "httpVersion (h\<lparr>ha_search := s\<rparr>) = httpVersion h"
  by (simp_all add: httpReady_def [abs_def] httpVersion_def [abs_def])

lemma api_lookup:
  "map_of (map (\<lambda>(path, handler). ((''POST'', path), m handler)) ps) (verb, path)
     = (if verb = ''POST'' then map_option m (map_of ps path) else None)"
  by (induction ps) auto

lemma fixedRoutes_same: "fixedRoutes cfg service (h\<lparr>ha_search := s\<rparr>) pages = fixedRoutes cfg service h pages"
  by (simp only: fixedRoutes_def handlers_same)

lemma apiRoutes_same:
  assumes "path \<notin> search_paths"
  shows "map_of (apiRoutes (h\<lparr>ha_search := s\<rparr>)) path = map_of (apiRoutes h) path"
  using assms by (simp add: apiRoutes_def search_paths_def)

lemma apiRoutes_search:
  assumes "path \<in> search_paths"
  obtains f where "\<And>s. map_of (apiRoutes (h\<lparr>ha_search := s\<rparr>)) path = Some (f s)"
proof -
  have "\<exists>f. \<forall>s. map_of (apiRoutes (h\<lparr>ha_search := s\<rparr>)) path = Some (f s)"
    using assms unfolding search_paths_def apiRoutes_def by auto
  with that show thesis by blast
qed

lemma routes_search:
  assumes "map_of (routes l li cfg service (h\<lparr>ha_search := s1\<rparr>) pages) (verb, path)
    \<noteq> map_of (routes l li cfg service (h\<lparr>ha_search := s2\<rparr>) pages) (verb, path)"
  obtains f where "verb = ''POST''" and "path \<in> search_paths"
    and "\<And>s. map_of (routes l li cfg service (h\<lparr>ha_search := s\<rparr>) pages) (verb, path) = Some (apiChain l li cfg service (f s))"
proof -
  let ?api = "\<lambda>s. if verb = ''POST'' then map_option (apiChain l li cfg service) (map_of (apiRoutes (h\<lparr>ha_search := s\<rparr>)) path) else None"
  let ?fixed = "map_of (fixedRoutes cfg service h pages) (verb, path)"
  have lookup: "map_of (routes l li cfg service (h\<lparr>ha_search := s\<rparr>) pages) (verb, path)
      = (case ?fixed of Some r \<Rightarrow> Some r | None \<Rightarrow> ?api s)" for s
    unfolding routes_def fixedRoutes_same map_of_append map_add_def api_lookup
    by (simp split: option.split)
  have none: "?fixed = None" using assms unfolding lookup by (cases ?fixed) simp_all
  have at: "map_of (routes l li cfg service (h\<lparr>ha_search := s\<rparr>) pages) (verb, path) = ?api s" for s
    unfolding lookup none by simp
  have post: "verb = ''POST''" using assms unfolding at by (cases "verb = ''POST''") simp_all
  moreover have path: "path \<in> search_paths"
  proof (rule ccontr)
    assume "path \<notin> search_paths"
    note same = apiRoutes_same [OF this]
    show False using assms unfolding at same by (rule notE) (rule refl)
  qed
  moreover obtain f where "\<And>s. map_of (apiRoutes (h\<lparr>ha_search := s\<rparr>)) path = Some (f s)"
    using apiRoutes_search [OF path] by blast
  ultimately show thesis using that [of f] unfolding at by simp
qed

text \<open>C3: No search over HTTP without authentication and permission. If what a request leads to, answer or
  effect, depends on the search service at all, then it is a POST to one of the three search routes,
  its caller was authenticated by the key of a PSK route, by an accepted bearer token, or on a route
  exempted by configuration, and, with authorization enabled, the authorizer permitted the action of
  that route for the identity established. This covers every route, the unmatched ones included, and
  every middleware in front.\<close>

theorem http_search_requires_permission:
  assumes "serveHTTP l li cfg service (h\<lparr>ha_search := s1\<rparr>) pages c w
    \<noteq> serveHTTP l li cfg service (h\<lparr>ha_search := s2\<rparr>) pages c w"
  shows "gn_method c = ''POST'' \<and> gn_fullpath c \<in> search_paths
    \<and> (\<exists>c1 c2. same_request c c1 \<and> guards_passed l cfg service c1 c2)"
proof -
  let ?r = "\<lambda>s. map_of (routes l li cfg service (h\<lparr>ha_search := s\<rparr>) pages) (gn_method c, gn_fullpath c)"
  let ?handler = "\<lambda>s. case ?r s of Some f \<Rightarrow> f | None \<Rightarrow> pages []"
  from assms obtain c1 w1 where same: "same_request c c1" and diff: "?handler s1 c1 w1 \<noteq> ?handler s2 c1 w1"
    unfolding serveHTTP_def by (rule global.conducts [THEN exE]) blast
  then have "?r s1 \<noteq> ?r s2" by auto
  then obtain f where post: "gn_method c = ''POST''" "gn_fullpath c \<in> search_paths"
    and at: "\<And>s. ?r s = Some (apiChain l li cfg service (f s))"
  proof (rule routes_search)
    fix f
    assume "gn_method c = ''POST''" and "gn_fullpath c \<in> search_paths" and "\<And>s. ?r s = Some (apiChain l li cfg service (f s))"
    then show thesis by (rule that)
  qed
  from diff have "apiChain l li cfg service (f s1) c1 w1 \<noteq> apiChain l li cfg service (f s2) c1 w1"
    unfolding at option.case .
  then obtain c2 where "guards_passed l cfg service c1 c2" by (rule api.fail_closed)
  with same post show ?thesis by blast
qed

end
