(* ===== verification/HttpReads.thy ===== *)
theory HttpReads
  imports HttpGuards
begin

text \<open>
  What the search handlers of the HTTP layer answer: documents the caller may read, errors that reveal
  nothing of the inside, and the same as the gRPC handlers for the same request.
\<close>

section \<open>The visibility of a caller\<close>

lemma WithAuthorization_principal [simp]: "cx_principal (WithAuthorization ctx a) = cx_principal ctx"
  by (simp add: WithAuthorization_def append_outgoing_def)

text \<open>Where a resolver is configured the two transports differ only in the credential they forward.\<close>

lemma httpVisibility_resolver:
  assumes "httpVisibility (Some r) c tenantID w = (Inr vs, w')"
  shows "callerVisibility (WithAuthorization (gn_ctx c) (gn_header c ''Authorization'')) tenantID (Some r) w = (Inr vs, w')"
  using assms by (auto simp: httpVisibility_def callerVisibility_def split: prod.splits sum.splits)

lemma httpVisibility_own:
  assumes "httpVisibility access c tenantID w = (Inr vs, w')" and "v \<in> set vs"
  shows "\<exists>identity. cx_principal (gn_ctx c) = Some identity \<and> acts_in identity tenantID \<and> own_token access tenantID identity v"
proof (cases access)
  case None
  then show ?thesis using assms
    by (auto simp: httpVisibility_def acts_in_def own_token_def split: option.splits if_splits)
next
  case (Some r)
  from callerVisibility_own [OF httpVisibility_resolver [OF assms(1) [unfolded Some]] assms(2)] show ?thesis by (simp add: Some)
qed

lemma http_readableI:
  assumes "httpVisibility access c tenantID w = (Inr vs, w')" and "sd_TenantId d = tenantID"
    and "\<exists>t \<in> set (sd_VisibilityTokens d). t = tenantToken tenantID \<or> t \<in> TrimSpace ` set vs"
  shows "readable access (gn_ctx c) tenantID d"
  using assms(2,3) httpVisibility_own [OF assms(1)] unfolding readable_def by blast

section \<open>The outcomes of a query\<close>

text \<open>
  What one of the search handlers responds with, and the state it leaves: the handlers write once and
  do nothing else to the request.
\<close>

definition queryOutcome ::
    "'w HttpHandler \<Rightarrow> string \<Rightarrow> ('r \<Rightarrow> string) \<Rightarrow> err + 'r \<Rightarrow> ('r \<Rightarrow> string list \<Rightarrow> ('w, err, 'a) call) \<Rightarrow>
     Gin \<Rightarrow> ('w, err, 'a) call" where
  "queryOutcome h invalidText tenant bound ask c w =
     (case bound of
        Inl e \<Rightarrow> (Inl (appInvalid invalidText (Some e)), w)
      | Inr request \<Rightarrow>
          (case httpVisibility (ha_access h) c (tenant request) w of
             (Inl e, w') \<Rightarrow> (Inl e, w')
           | (Inr visibility, w') \<Rightarrow>
               (case ask request visibility w' of
                  (Inl e, w'') \<Rightarrow> (Inl (searchAppError e), w'')
                | (Inr response, w'') \<Rightarrow> (Inr response, w''))))"

lemma answerQuery_outcome:
  "answerQuery h invalidText tenant bound ask body c w =
     (case queryOutcome h invalidText tenant bound ask c w of
        (Inl e, w') \<Rightarrow> finish (FailResponse e c) w'
      | (Inr response, w') \<Rightarrow> finish (OKResponse (body response) c) w')"
  by (simp add: answerQuery_def queryOutcome_def split: sum.split prod.split)

lemma queryOutcome_Inr:
  assumes "queryOutcome h invalidText tenant bound ask c w = (Inr response, w')"
  obtains request visibility w1 where "bound = Inr request"
    and "httpVisibility (ha_access h) c (tenant request) w = (Inr visibility, w1)"
    and "ask request visibility w1 = (Inr response, w')"
  using assms by (auto simp: queryOutcome_def split: sum.splits prod.splits)

definition errorBody :: "err \<Rightarrow> written \<Rightarrow> bool" where
  "errorBody e r \<longleftrightarrow> (\<exists>status answer. r = JSONWritten status answer \<and> jr_Body answer = NoBody
     \<and> (case as_app_error e of
          None \<Rightarrow> status = 500 \<and> jr_Code answer = CodeInternal \<and> jr_Message answer = ''internal server error''
        | Some (code, message, s, _) \<Rightarrow> status = s \<and> jr_Code answer = code \<and> jr_Message answer = message))"

lemma FailResponse_body: "\<exists>r. gn_written (FailResponse e c) = gn_written c @ [r] \<and> errorBody e r"
  by (auto simp: FailResponse_def errorBody_def appInternal_def Let_def split: option.split)

text \<open>What a query handler adds to the response of a request nothing was written to.\<close>

lemma answerQuery_writes:
  assumes "answerQuery h invalidText tenant bound ask body c w = ((c', p), w')" and "gn_written c = []"
    and "r \<in> set (gn_written c')"
  shows "(\<exists>e. queryOutcome h invalidText tenant bound ask c w = (Inl e, w') \<and> errorBody e r)
    \<or> (\<exists>response. queryOutcome h invalidText tenant bound ask c w = (Inr response, w')
         \<and> r = JSONWritten 200 \<lparr>jr_Code = CodeOK, jr_Message = ''success'', jr_Body = body response, jr_RequestID = requestID c\<rparr>)"
proof -
  obtain out w1 where run: "queryOutcome h invalidText tenant bound ask c w = (out, w1)"
    by (cases "queryOutcome h invalidText tenant bound ask c w")
  show ?thesis
  proof (cases out)
    case (Inl e)
    then have "c' = FailResponse e c" "w' = w1" using assms(1) run by (simp_all add: answerQuery_outcome finish_def)
    with FailResponse_body [of e c] assms(2,3) run Inl show ?thesis by auto
  next
    case (Inr response)
    then have "c' = OKResponse (body response) c" "w' = w1" using assms(1) run by (simp_all add: answerQuery_outcome finish_def)
    with assms(2,3) run Inr show ?thesis by (auto simp: OKResponse_def)
  qed
qed

section \<open>Reading over HTTP\<close>

primrec body_documents :: "Body \<Rightarrow> SearchDocumentDTO list" where
  "body_documents NoBody = []"
| "body_documents (PageBody page) = map ht_Document (pd_Items page)"
| "body_documents (SuggestBody items) = []"
| "body_documents (DocumentBody d) = [d]"
| "body_documents (StatusBody status) = []"
| "body_documents (SubjectBody subject) = []"
| "body_documents (VersionBody version) = []"

definition boundSearch :: "'w HttpHandler \<Rightarrow> Gin \<Rightarrow> err + SearchBody" where
  "boundSearch h c = bindRequired (\<lambda>r. [sb_TenantID r]) (dg_search (ha_decoding h)) c"

definition boundSuggest :: "'w HttpHandler \<Rightarrow> Gin \<Rightarrow> err + SuggestBodyRequest" where
  "boundSuggest h c = bindRequired (\<lambda>r. [gb_TenantID r, gb_Prefix r]) (dg_suggest (ha_decoding h)) c"

definition boundGet :: "'w HttpHandler \<Rightarrow> Gin \<Rightarrow> err + GetBody" where
  "boundGet h c = bindRequired (\<lambda>r. [tb_TenantID r, tb_ID r]) (dg_get (ha_decoding h)) c"

text \<open>The tenant that the body of a request to a route names.\<close>

definition body_tenant :: "'w HttpHandler \<Rightarrow> string \<Rightarrow> Gin \<Rightarrow> string" where
  "body_tenant h path c =
     (if path = ''/api/v1/search/get'' then (case boundGet h c of Inr r \<Rightarrow> tb_TenantID r | Inl _ \<Rightarrow> [])
      else (case boundSearch h c of Inr r \<Rightarrow> sb_TenantID r | Inl _ \<Rightarrow> []))"

definition readable_answer :: "'w BindingsClient option option \<Rightarrow> Ctx \<Rightarrow> string \<Rightarrow> written \<Rightarrow> bool" where
  "readable_answer access ctx tenantID r \<longleftrightarrow>
     (\<forall>n answer. r = JSONWritten n answer \<longrightarrow>
        list_all (\<lambda>d. \<exists>doc. d = searchDocumentDTO doc \<and> readable access ctx tenantID doc) (body_documents (jr_Body answer)))"

lemma errorBody_readable: "errorBody e r \<Longrightarrow> readable_answer access ctx tenantID r"
  by (auto simp: errorBody_def readable_answer_def)

lemma OKBody_readable:
  assumes "body_documents body = map searchDocumentDTO ds" and "list_all (readable access ctx tenantID) ds"
  shows "readable_answer access ctx tenantID (JSONWritten 200 \<lparr>jr_Code = code, jr_Message = message, jr_Body = body, jr_RequestID = i\<rparr>)"
  using assms by (auto simp: readable_answer_def list_all_iff)

lemma searchPageDTO_documents:
  "body_documents (PageBody (searchPageDTO response)) = map searchDocumentDTO (map sh_Document (sp_Hits response))"
  by (simp add: searchPageDTO_def)

lemma httpSearch_readable:
  assumes "honours_filters e" and "ha_search h = store_service e check"
    and "httpSearch h c w = ((c', p), w')" and "gn_written c = []" and "r \<in> set (gn_written c')"
  shows "readable_answer (ha_access h) (gn_ctx c) (case boundSearch h c of Inr r \<Rightarrow> sb_TenantID r | Inl _ \<Rightarrow> []) r"
  using answerQuery_writes [OF assms(3) [unfolded httpSearch_def, folded boundSearch_def] assms(4,5)]
proof (elim disjE exE conjE)
  fix response
  assume run: "queryOutcome h ''invalid search request'' sb_TenantID (boundSearch h c)
      (\<lambda>r. Service_Search (ha_search h) (gn_ctx c) (Some (searchRequest r))) c w = (Inr response, w')"
    and r: "r = JSONWritten 200 \<lparr>jr_Code = CodeOK, jr_Message = ''success'', jr_Body = (PageBody \<circ> searchPageDTO) response,
      jr_RequestID = requestID c\<rparr>"
  obtain request visibility w1 where bound: "boundSearch h c = Inr request"
    and vis: "httpVisibility (ha_access h) c (sb_TenantID request) w = (Inr visibility, w1)"
    and ask: "Service_Search (store_service e check) (gn_ctx c) (Some (searchRequest request)) visibility w1 = (Inr response, w')"
    using queryOutcome_Inr [OF run] unfolding assms(2) .
  have "readable (ha_access h) (gn_ctx c) (sb_TenantID request) (sh_Document hit)" if "hit \<in> set (sp_Hits response)" for hit
    using Service_Search_isolated [OF assms(1) ask that] by (intro http_readableI [OF vis]) (auto simp: searchRequest_def)
  then show ?thesis unfolding r bound sum.case comp_apply
    by (intro OKBody_readable [OF searchPageDTO_documents]) (simp add: list_all_iff)
qed (rule errorBody_readable)

lemma httpGetDocument_readable:
  assumes "honours_filters e" and "ha_search h = store_service e check"
    and "httpGetDocument h c w = ((c', p), w')" and "gn_written c = []" and "r \<in> set (gn_written c')"
  shows "readable_answer (ha_access h) (gn_ctx c) (case boundGet h c of Inr r \<Rightarrow> tb_TenantID r | Inl _ \<Rightarrow> []) r"
  using answerQuery_writes [OF assms(3) [unfolded httpGetDocument_def, folded boundGet_def] assms(4,5)]
proof (elim disjE exE conjE)
  fix d
  assume run: "queryOutcome h ''invalid document request'' tb_TenantID (boundGet h c)
      (\<lambda>r. Service_Get (ha_search h) (gn_ctx c) (tb_TenantID r) (tb_ID r)) c w = (Inr d, w')"
    and r: "r = JSONWritten 200 \<lparr>jr_Code = CodeOK, jr_Message = ''success'', jr_Body = (DocumentBody \<circ> searchDocumentDTO) d,
      jr_RequestID = requestID c\<rparr>"
  obtain request visibility w1 where bound: "boundGet h c = Inr request"
    and vis: "httpVisibility (ha_access h) c (tb_TenantID request) w = (Inr visibility, w1)"
    and ask: "Service_Get (store_service e check) (gn_ctx c) (tb_TenantID request) (tb_ID request) visibility w1 = (Inr d, w')"
    using queryOutcome_Inr [OF run] unfolding assms(2) .
  have "readable (ha_access h) (gn_ctx c) (tb_TenantID request) d"
    using Service_Get_isolated [OF assms(1) ask] by (intro http_readableI [OF vis]) auto
  then show ?thesis unfolding r bound sum.case comp_apply
    by (intro OKBody_readable [of _ "[d]"]) simp_all
qed (rule errorBody_readable)

lemma undocumented_readable:
  assumes "body_documents (jr_Body answer) = []"
  shows "readable_answer access ctx tenantID (JSONWritten n answer)"
  using assms by (simp add: readable_answer_def)

lemma httpSuggest_readable:
  assumes "httpSuggest h c w = ((c', p), w')" and "gn_written c = []" and "r \<in> set (gn_written c')"
  shows "readable_answer access ctx tenantID r"
  using answerQuery_writes [OF assms(1) [unfolded httpSuggest_def] assms(2,3)]
  by (auto intro: errorBody_readable undocumented_readable)

lemma apiRoutes_cases:
  assumes "map_of (apiRoutes h) path = Some handler"
  obtains "path = ''/api/v1/version''" "handler = httpVersion h" | "path = ''/api/v1/me''" "handler = httpMe"
    | "path = ''/api/v1/search/query''" "handler = httpSearch h"
    | "path = ''/api/v1/search/suggest''" "handler = httpSuggest h"
    | "path = ''/api/v1/search/get''" "handler = httpGetDocument h"
  using assms unfolding apiRoutes_def by (simp only: map_of.simps fst_conv snd_conv fun_upd_apply split: if_splits) auto


section \<open>An example\<close>

definition search_body :: SearchBody where
  "search_body = \<lparr>sb_TenantID = ''t'', sb_Query = [], sb_DocumentTypes = [], sb_ApplicationIDs = [], sb_Filters = [],
     sb_Sort = [], sb_Page = 0, sb_PageSize = 0, sb_FacetFields = []\<rparr>"

definition example_decoding :: Decoding where
  "example_decoding = \<lparr>
     dg_search = (\<lambda>(body, cut). if cut \<or> body = [] then Inl (Plain ''bad body'') else Inr search_body),
     dg_suggest = (\<lambda>_. Inl (Plain ''bad body'')), dg_get = (\<lambda>_. Inl (Plain ''bad body''))\<rparr>"

definition example_handler :: "unit HttpHandler" where
  "example_handler = \<lparr>ha_health = \<lparr>he_db = None, he_redis = None, he_search = None, he_elapsed = (\<lambda>_ _. [])\<rparr>, ha_order = [],
     ha_search = store_service (one_document role_document) only_a, ha_access = Some (Some reading_client),
     ha_version = (\<lambda>_. \<lparr>bi_Version = [], bi_Commit = [], bi_BuildTime = [], bi_StartedAt = [], bi_Uptime = []\<rparr>),
     ha_decoding = example_decoding\<rparr>"

definition example_request :: Gin where
  "example_request = \<lparr>gn_method = ''POST'', gn_fullpath = ''/api/v1/search/query'',
     gn_header = (\<lambda>name. if name = ''Authorization'' then ''Bearer ok'' else if name = ''Content-Type'' then ''application/json'' else []),
     gn_clientip = ''10.0.0.1'', gn_length = 2, gn_tls = True, gn_body = ''{}'', gn_limit = None, gn_ctx = background,
     gn_keys = Map.empty, gn_reply_headers = Map.empty, gn_written = []\<rparr>"

definition example_http_lib :: "unit HttpLib" where
  "example_http_lib = \<lparr>hl_random = (\<lambda>w. (Inr (\<lambda>_. 0), w)), hl_clock = (\<lambda>w. (0, w)), hl_valid_key = (\<lambda>k. k \<noteq> []),
     hl_media_type = Inr, hl_expired = (\<lambda>ctx w. False), hl_seconds = (\<lambda>d. d div second), hl_metric = None, hl_log = (\<lambda>_ w. w), hl_broken_pipe = (\<lambda>p. False),
     hl_enforce = (\<lambda>ctx requirement w. (if cx_principal ctx = None then Some (Plain ''denied'') else None, w)),
     hl_decision_unavailable = SearchUnavailable\<rparr>"

definition example_http_config :: Config where
  "example_http_config = setDefaults\<lparr>cfg_Authorization := \<lparr>authz_Enabled = True\<rparr>\<rparr>"

definition example_limiter :: "unit Limiter" where
  "example_limiter = NewLimiter None example_http_config"

definition token_auth :: "unit AuthService" where
  "token_auth = example_auth\<lparr>au_verifier := Some (accept_token ''ok'')\<rparr>"

lemma bearer_ok: "Cut ''Bearer ok'' (CHR '' '') = (''Bearer'', ''ok'', True)"
  by simp

lemma skip_none: "\<not> MatchesAny ''/api/v1/search/query'' [''/api/v1/version'']"
  by (simp add: Match_plain plain_def)

lemma example_routes:
  "map_of (routes l li example_http_config service h pages) (''POST'', ''/api/v1/search/query'')
     = Some (apiChain l li example_http_config service (httpSearch h))"
  by (simp add: routes_def fixedRoutes_def apiRoutes_def example_http_config_def setDefaults_def)

lemma caller_fields:
  "cx_principal (WithCallerCredential credential (withPrincipal identity ctx)) = Some identity"
  by (simp add: WithCallerCredential_def withPrincipal_def)

lemma example_api:
  assumes "gn_fullpath c = ''/api/v1/search/query''" and "gn_header c ''Authorization'' = ''Bearer ok''"
  shows "apiChain example_http_lib example_limiter example_http_config token_auth handler c ()
    = handler (WithCtx (WithCallerCredential ''Bearer ok'' \<circ> withPrincipal example_principal) (SetKey ''subject'' ''u'' c)) ()"
proof -
  have off: "rateLimitMiddleware example_limiter rule dimension key = (\<lambda>rest. rest)" for rule dimension key
    by (simp add: fun_eq_iff rateLimitMiddleware_def example_limiter_def NewLimiter_def example_http_config_def setDefaults_def)
  have cfg: "\<not> psk_Enabled (auth_PSK (cfg_Auth example_http_config))"
      "\<not> MatchesAny (gn_fullpath c) (auth_SkipHTTPPaths (cfg_Auth example_http_config))"
    using skip_none assms(1) by (simp_all add: example_http_config_def setDefaults_def)
  have "EqualFold ''Bearer'' ''Bearer''" by (rule EqualFold_refl)
  then have jwt: "jwtMiddleware token_auth h c () = h (WithCtx (WithCallerCredential ''Bearer ok'' \<circ> withPrincipal example_principal)
      (SetKey ''subject'' ''u'' c)) ()" for h
    using bearer_ok assms(2)
    by (simp add: jwtMiddleware_def Verify_def token_auth_def accept_token_def example_principal_def del: EqualFold.simps Cut.simps)
  show ?thesis
    unfolding apiChain_def comp_apply off authenticationMiddleware_def using cfg
    by (simp add: jwt authorizationMiddleware_def searchHTTPRequirement_def assms(1) example_http_lib_def caller_fields comp_def)
qed

text \<open>The request as the handler of the example sees it.\<close>

definition example_id :: string where
  "example_id = EncodeToString (map (\<lambda>_. 0) [0..<16])"

definition example_inner :: Gin where
  "example_inner =
     (let c1 = WithCtx (WithRequestID example_id) (Header ''X-Request-ID'' example_id (SetKey ''request_id'' example_id example_request));
          c2 = WithCtx (WithEnvironment (rt_ActiveProfile (cfg_Runtime setDefaults)))
                 (SetKey ''environment'' (rt_ActiveProfile (cfg_Runtime setDefaults)) c1);
          c3 = Header ''Strict-Transport-Security'' ''max-age=31536000; includeSubDomains''
                 (Header ''Cache-Control'' ''no-store'' (Header ''Content-Security-Policy'' contentPolicy
                   (Header ''Referrer-Policy'' ''no-referrer'' (Header ''X-Frame-Options'' ''DENY''
                     (Header ''X-Content-Type-Options'' ''nosniff'' c2)))))
      in WithCtx (WithTimeout 0 (http_RequestTimeout (cfg_HTTP setDefaults))) (c3\<lparr>gn_limit := Some 1048576\<rparr>))"

lemma example_global:
  assumes "h example_inner () = ((c', None), ())"
  shows "globalChain example_http_lib example_http_config h example_request () = ((c', None), ())"
proof -
  have lib: "hl_expired example_http_lib ctx w = False" "hl_metric example_http_lib = None"
      "hl_media_type example_http_lib = Inr" "hl_random example_http_lib = (\<lambda>w. (Inr (\<lambda>_. 0), w))"
      "hl_clock example_http_lib = (\<lambda>w. (0, w))" "hl_log example_http_lib = (\<lambda>_ w. w)" for ctx w
    by (simp_all add: example_http_lib_def)
  have cfg: "cfg_Runtime example_http_config = cfg_Runtime setDefaults" "http_MaxBodyBytes (cfg_HTTP example_http_config) = 1048576"
      "http_RequestTimeout (cfg_HTTP example_http_config) = http_RequestTimeout (cfg_HTTP setDefaults)"
    by (simp_all add: example_http_config_def setDefaults_def)
  have given: "gn_header example_request = (\<lambda>name. if name = ''Authorization'' then ''Bearer ok''
        else if name = ''Content-Type'' then ''application/json'' else [])" "gn_tls example_request"
    by (simp_all add: example_request_def)
  have tls: "gn_tls (Header k v c) = gn_tls c" "gn_tls (SetKey k v c) = gn_tls c" "gn_tls (WithCtx g c) = gn_tls c" for k v g c
    by (simp_all add: Header_def SetKey_def WithCtx_def)
  have generate: "GenerateRequestID (\<lambda>w. (Inr (\<lambda>_. 0), w)) (\<lambda>w. (0, w)) () = (example_id, ())"
    by (simp add: GenerateRequestID_def example_id_def)
  have empty: "\<not> ValidRequestID []" by (simp add: ValidRequestID_def)
  have cors: "corsMiddleware example_http_lib cors rest c = rest c" if "gn_header c ''Origin'' = []" for cors rest c
    using that by (simp add: corsMiddleware_def Let_def)
  have "WithCtx (\<lambda>_. f (gn_ctx c)) c = WithCtx f c" for f c by (simp add: WithCtx_def)
  then have timeout: "timeoutMiddleware example_http_lib t rest c () = after (\<lambda>c' w. (c', w)) rest (WithCtx (WithTimeout 0 t) c) ()"
    for t rest c
    by (simp add: timeoutMiddleware_def lib Let_def)
  show ?thesis
    unfolding globalChain_def comp_apply requestIDMiddleware_def given lib generate
    by (simp add: empty generate idempotencyMiddleware_def environmentMiddleware_def recoveryMiddleware_def requestLogger_def metricsMiddleware_def
        after_def securityHeadersMiddleware_def cors given tls lib cfg maxBodyMiddleware_def timeout
        requireJSONMiddleware_def assms [unfolded example_inner_def Let_def cfg] Let_def)
qed

lemma inner_fields:
  "gn_fullpath example_inner = ''/api/v1/search/query''" "gn_method example_request = ''POST''"
  "gn_fullpath example_request = ''/api/v1/search/query''" "gn_header example_inner ''Authorization'' = ''Bearer ok''"
  "gn_written example_inner = []" "gn_body example_inner = ''{}''" "gn_limit example_inner = Some 1048576"
  by (simp_all add: example_inner_def Let_def example_request_def WithCtx_def)

definition example_caller :: Gin where
  "example_caller = WithCtx (WithCallerCredential ''Bearer ok'' \<circ> withPrincipal example_principal) (SetKey ''subject'' ''u'' example_inner)"

lemma example_serve:
  assumes "httpSearch h example_caller () = ((c', None), ())"
  shows "serveHTTP example_http_lib example_limiter example_http_config token_auth h pages example_request () = ((c', None), ())"
  unfolding serveHTTP_def inner_fields example_routes option.case
  by (rule example_global) (simp only: example_api [OF inner_fields(1,4)] assms flip: example_caller_def)

lemma caller_bound: "boundSearch example_handler example_caller = Inr search_body"
proof -
  have "gn_body example_caller = ''{}''" "gn_limit example_caller = Some 1048576"
    by (simp_all add: example_caller_def inner_fields WithCtx_def SetKey_def)
  then show ?thesis
    by (simp add: boundSearch_def bindRequired_def limitedBody_def example_handler_def example_decoding_def search_body_def)
qed

lemma example_visible:
  "httpVisibility (ha_access example_handler) example_caller ''t'' () = (Inr [''user:u'', ''membership:m'', ''role:r1''], ())"
proof -
  have "cx_principal (WithAuthorization (gn_ctx example_caller) a) = cx_principal example_ctx" for a
    by (simp add: example_caller_def caller_fields example_principal_def example_ctx_def)
  then show ?thesis by (simp add: httpVisibility_def example_handler_def reading_tokens)
qed

lemma example_answer:
  "\<exists>response. Service_Search (ha_search example_handler) (gn_ctx example_caller) (Some (searchRequest search_body))
      [''user:u'', ''membership:m'', ''role:r1''] () = (Inr response, ()) \<and> map sh_Document (sp_Hits response) = [role_document]"
  by (simp add: Service_Search_def authorizeApplications_def maxApplications_def store_engine_def one_document_Search admitted_def
      role_document_def example_document_def empty_document_def example_handler_def search_body_def searchRequest_def normalizePage_eval
      set_normalizeVisibility list_ex_iff trim_eval sortOrder_def Let_def)

lemma example_search:
  "\<exists>response. httpSearch example_handler example_caller () = ((OKResponse (PageBody (searchPageDTO response)) example_caller, None), ())
     \<and> map sh_Document (sp_Hits response) = [role_document]"
proof -
  obtain response where run: "Service_Search (ha_search example_handler) (gn_ctx example_caller) (Some (searchRequest search_body))
      [''user:u'', ''membership:m'', ''role:r1''] () = (Inr response, ())" and docs: "map sh_Document (sp_Hits response) = [role_document]"
    using example_answer by (elim exE conjE) (rule that)
  have tenant: "sb_TenantID search_body = ''t''" by (simp add: search_body_def)
  have answer: "httpSearch example_handler example_caller () = finish (OKResponse (PageBody (searchPageDTO response)) example_caller) ()"
    unfolding httpSearch_def boundSearch_def [symmetric] caller_bound answerQuery_def sum.case tenant example_visible
      prod.case run comp_apply by (rule refl)
  show ?thesis by (rule exI [of _ response], rule conjI) (rule answer [unfolded finish_def], rule docs)
qed

lemma caller_written: "gn_written example_caller = []"
  by (simp add: example_caller_def inner_fields)


text \<open>A service that is down, which the example request can tell from one that answers.\<close>

definition service_down :: "unit Service" where
  "service_down = NewService (store_engine (one_document role_document)\<lparr>eng_Search := (\<lambda>ctx r v w. (Inl (Sentinel SearchUnavailable), w))\<rparr>)"

lemma down_answer:
  "Service_Search service_down ctx (Some (searchRequest search_body)) vs () = (Inl (Sentinel SearchUnavailable), ())"
  by (simp add: Service_Search_def authorizeApplications_def maxApplications_def service_down_def NewService_def
      search_body_def searchRequest_def trim_eval sortOrder_def Let_def)

lemma down_search:
  "httpSearch (example_handler\<lparr>ha_search := service_down\<rparr>) example_caller ()
     = ((FailResponse (appUnavailable ''search unavailable'' (Some (Sentinel SearchUnavailable))) example_caller, None), ())"
proof -
  have tenant: "sb_TenantID search_body = ''t''" by (simp add: search_body_def)
  have same: "ha_decoding (example_handler\<lparr>ha_search := service_down\<rparr>) = ha_decoding example_handler"
      "ha_access (example_handler\<lparr>ha_search := service_down\<rparr>) = ha_access example_handler"
      "ha_search (example_handler\<lparr>ha_search := service_down\<rparr>) = service_down" by simp_all
  show ?thesis
    unfolding httpSearch_def same boundSearch_def [symmetric] caller_bound answerQuery_def sum.case tenant example_visible
      prod.case down_answer finish_def by (simp add: searchAppError_def)
qed

theorem http_search_requires_permission_witness:
  "\<exists>c1 c2. same_request example_request c1 \<and> guards_passed example_http_lib example_http_config token_auth c1 c2"
proof -
  let ?serve = "\<lambda>s. serveHTTP example_http_lib example_limiter example_http_config token_auth (example_handler\<lparr>ha_search := s\<rparr>)
      (\<lambda>_. finish) example_request ()"
  obtain response where run: "httpSearch example_handler example_caller ()
      = ((OKResponse (PageBody (searchPageDTO response)) example_caller, None), ())"
    using example_search by (elim exE conjE) (rule that)
  have same: "example_handler\<lparr>ha_search := ha_search example_handler\<rparr> = example_handler" by simp
  have "?serve (ha_search example_handler) = ((OKResponse (PageBody (searchPageDTO response)) example_caller, None), ())"
    unfolding same by (rule example_serve [OF run])
  moreover have "?serve service_down
      = ((FailResponse (appUnavailable ''search unavailable'' (Some (Sentinel SearchUnavailable))) example_caller, None), ())"
    by (rule example_serve [OF down_search])
  moreover have "OKResponse b c \<noteq> FailResponse (appUnavailable m e) c" for b c m e
  proof
    assume "OKResponse b c = FailResponse (appUnavailable m e) c"
    then have "gn_written (OKResponse b c) = gn_written (FailResponse (appUnavailable m e) c)" by simp
    then show False by (simp add: OKResponse_def appUnavailable_def)
  qed
  ultimately have "?serve (ha_search example_handler) \<noteq> ?serve service_down" by simp
  from http_search_requires_permission [OF this] show ?thesis by blast
qed

end
