(* ===== verification/HttpAnswers.thy ===== *)
theory HttpAnswers
  imports HttpReads
begin

text \<open>
  The search handlers of the two transports compared: for one request of one caller both ask the
  search service for the same and give the same answer, in their own forms.
\<close>

section \<open>Statuses\<close>

text \<open>The HTTP status and the application code that stand for a gRPC code.\<close>

definition httpStatus :: "code \<Rightarrow> int \<times> int" where
  "httpStatus k =
     (case k of
        CInvalidArgument \<Rightarrow> (400, CodeInvalidArgument)
      | CNotFound \<Rightarrow> (404, CodeNotFound)
      | CPermissionDenied \<Rightarrow> (403, CodeForbidden)
      | CUnauthenticated \<Rightarrow> (401, CodeUnauthorized)
      | CUnavailable \<Rightarrow> (503, CodeDependencyUnavailable)
      | _ \<Rightarrow> (500, CodeInternal))"

definition same_status :: "err \<Rightarrow> err \<Rightarrow> bool" where
  "same_status e e' \<longleftrightarrow> (\<exists>k m m' status code cause. e = StatusError k m \<and> e' = AppError code m' status cause
     \<and> httpStatus k = (status, code))"

lemma searchError_status: "same_status (the (searchError (Some e))) (searchAppError e)"
  by (simp add: same_status_def searchAppError_def httpStatus_def app_errors)

text \<open>
  The context of a gRPC call that makes the same request as an HTTP request does: the caller's credential is
  incoming metadata instead of a header, and the middleware has not noted it for the authorization library.
  An HTTP request has no gRPC metadata of either kind.
\<close>

definition same_call :: "Gin \<Rightarrow> Ctx \<Rightarrow> bool" where
  "same_call c ctx \<longleftrightarrow>
     ctx = (gn_ctx c)\<lparr>cx_incoming := cx_incoming ctx, cx_credential := cx_credential ctx\<rparr>
     \<and> cx_incoming ctx ''authorization'' = (if gn_header c ''Authorization'' = [] then [] else [gn_header c ''Authorization''])
     \<and> cx_incoming (gn_ctx c) ''authorization'' = [] \<and> outgoing_values (gn_ctx c) ''authorization'' = []"

text \<open>
  What is relied on of the clients behind the service: gRPC transmits outgoing metadata and never incoming
  metadata, and the noted credential is for the authorization library, so none of them looks at either.
\<close>

definition ignores_transport :: "(Ctx \<Rightarrow> 'a) \<Rightarrow> bool" where
  "ignores_transport f \<longleftrightarrow> (\<forall>ctx incoming credential. f (ctx\<lparr>cx_incoming := incoming, cx_credential := credential\<rparr>) = f ctx)"

definition clients_ignore_transport :: "'w BindingsClient option option \<Rightarrow> 'w Service \<Rightarrow> bool" where
  "clients_ignore_transport access s \<longleftrightarrow>
     (\<forall>client. access = Some (Some client) \<longrightarrow> ignores_transport client)
     \<and> ignores_transport (sv_applications s) \<and> ignores_transport (eng_Search (sv_engine s))
     \<and> ignores_transport (eng_Suggest (sv_engine s)) \<and> ignores_transport (eng_Get (sv_engine s))"

lemma ignoresD: "ignores_transport f \<Longrightarrow> ctx' = ctx\<lparr>cx_incoming := incoming, cx_credential := credential\<rparr> \<Longrightarrow> f ctx' = f ctx"
  by (simp add: ignores_transport_def)

text \<open>The service answers both alike.\<close>

lemma service_ignores:
  assumes "clients_ignore_transport access s" and "ctx' = ctx\<lparr>cx_incoming := incoming, cx_credential := credential\<rparr>"
  shows "Service_Search s ctx' = Service_Search s ctx" "Service_Suggest s ctx' = Service_Suggest s ctx"
    "Service_Get s ctx' = Service_Get s ctx"
proof -
  have same: "sv_applications s ctx' = sv_applications s ctx" "eng_Search (sv_engine s) ctx' = eng_Search (sv_engine s) ctx"
      "eng_Suggest (sv_engine s) ctx' = eng_Suggest (sv_engine s) ctx" "eng_Get (sv_engine s) ctx' = eng_Get (sv_engine s) ctx"
    using assms(1) unfolding clients_ignore_transport_def by (blast intro: ignoresD [OF _ assms(2)])+
  have grants: "authorizeApplications s ctx' = authorizeApplications s ctx"
    unfolding authorizeApplications_def [abs_def] same ..
  show "Service_Search s ctx' = Service_Search s ctx" "Service_Suggest s ctx' = Service_Suggest s ctx"
    "Service_Get s ctx' = Service_Get s ctx"
    unfolding Service_Search_def [abs_def] Service_Suggest_def [abs_def] Service_Get_def [abs_def] grants same by (rule refl)+
qed

text \<open>The resolver makes the same calls: both transports put the credential on the outgoing call, each once.\<close>

lemma forwarded_alike:
  assumes "same_call c ctx"
  shows "\<exists>incoming credential. forwardIncomingAuthorization ctx
     = (forwardIncomingAuthorization (WithAuthorization (gn_ctx c) (gn_header c ''Authorization'')))
         \<lparr>cx_incoming := incoming, cx_credential := credential\<rparr>"
proof -
  obtain incoming credential where ctx: "ctx = (gn_ctx c)\<lparr>cx_incoming := incoming, cx_credential := credential\<rparr>"
    using assms unfolding same_call_def by blast
  show ?thesis
    using assms unfolding same_call_def ctx
    by (intro exI [of _ incoming] exI [of _ credential])
      (simp add: forwardIncomingAuthorization_def WithAuthorization_def outgoing_values_def append_outgoing_def)
qed

lemma resolver_alike:
  assumes "clients_ignore_transport (Some r) s" and "same_call c ctx"
  shows "VisibilityTokens r ctx = VisibilityTokens r (WithAuthorization (gn_ctx c) (gn_header c ''Authorization''))"
proof (intro ext)
  fix tenantID w
  let ?ctx = "WithAuthorization (gn_ctx c) (gn_header c ''Authorization'')"
  have principal: "cx_principal ctx = cx_principal ?ctx"
  proof -
    have "cx_principal ctx = cx_principal ((gn_ctx c)\<lparr>cx_incoming := cx_incoming ctx, cx_credential := cx_credential ctx\<rparr>)"
      using assms(2) unfolding same_call_def by metis
    then show ?thesis by simp
  qed
  show "VisibilityTokens r ctx tenantID w = VisibilityTokens r ?ctx tenantID w"
  proof (cases r)
    case (Some client)
    obtain incoming credential where "forwardIncomingAuthorization ctx
        = (forwardIncomingAuthorization ?ctx)\<lparr>cx_incoming := incoming, cx_credential := credential\<rparr>"
      using forwarded_alike [OF assms(2)] by (elim exE)
    moreover have "ignores_transport client" using assms(1) Some by (simp add: clients_ignore_transport_def)
    ultimately have same: "client (forwardIncomingAuthorization ctx) = client (forwardIncomingAuthorization ?ctx)"
      by (blast intro: ignoresD)
    have "listPages n client (forwardIncomingAuthorization ctx) t m page seen tokens v
        = listPages n client (forwardIncomingAuthorization ?ctx) t m page seen tokens v" for n t m page seen tokens v
    proof (induction n arbitrary: page seen tokens v)
      case (Suc n)
      show ?case by (simp only: listPages.simps(2) same Suc.IH)
    qed simp
    then show ?thesis by (simp add: VisibilityTokens_def principal Some Let_def del: listPages.simps split: option.split)
  qed (simp add: VisibilityTokens_def principal split: option.split)
qed

text \<open>
  Without a resolver the gRPC server skips a principal that has no identifier before it looks at the tenant; the
  HTTP server does not.
\<close>

definition identified :: "Ctx \<Rightarrow> bool" where
  "identified ctx \<longleftrightarrow> (\<forall>identity. cx_principal ctx = Some identity \<longrightarrow> pr_ID identity \<noteq> [])"

lemma visibility_agree:
  assumes "clients_ignore_transport access s" and "same_call c ctx" and "access = None \<longrightarrow> identified ctx"
  shows "(\<exists>vs w'. callerVisibility ctx t access w = (Inr vs, w') \<and> httpVisibility access c t w = (Inr vs, w'))
    \<or> (\<exists>e e' w'. callerVisibility ctx t access w = (Inl e, w') \<and> httpVisibility access c t w = (Inl e', w')
         \<and> same_status e e')"
proof (cases access)
  case None
  obtain incoming credential where "ctx = (gn_ctx c)\<lparr>cx_incoming := incoming, cx_credential := credential\<rparr>"
    using assms(2) unfolding same_call_def by blast
  then have "cx_principal ctx = cx_principal (gn_ctx c)" by simp
  then show ?thesis using assms(3) None
    by (cases "cx_principal (gn_ctx c)")
      (auto simp: callerVisibility_def httpVisibility_def identified_def same_status_def httpStatus_def appForbidden_def)
next
  case (Some r)
  note same = resolver_alike [OF assms(1) [unfolded Some] assms(2)]
  obtain out w' where run: "VisibilityTokens r (WithAuthorization (gn_ctx c) (gn_header c ''Authorization'')) t w = (out, w')"
    by (cases "VisibilityTokens r (WithAuthorization (gn_ctx c) (gn_header c ''Authorization'')) t w")
  show ?thesis
    by (cases out) (auto simp: Some same run callerVisibility_def httpVisibility_def same_status_def httpStatus_def app_errors)
qed

section \<open>Answers\<close>

fun responseBody :: "GrpcResponse \<Rightarrow> Body" where
  "responseBody (SearchRs response) = PageBody (searchPageDTO response)"
| "responseBody (SuggestRs response) = SuggestBody (suggestResponseDTO response)"
| "responseBody (DocumentRs d) = DocumentBody (searchDocumentDTO d)"
| "responseBody (AcceptedRs n) = NoBody"

text \<open>An HTTP answer that says what a gRPC answer says.\<close>

definition says :: "err + GrpcResponse \<Rightarrow> written \<Rightarrow> bool" where
  "says reply r \<longleftrightarrow>
     (case reply of
        Inr response \<Rightarrow> \<exists>i. r = JSONWritten 200 \<lparr>jr_Code = CodeOK, jr_Message = ''success'', jr_Body = responseBody response, jr_RequestID = i\<rparr>
      | Inl e \<Rightarrow> \<exists>k m m' status code i. e = StatusError k m \<and> httpStatus k = (status, code)
          \<and> r = JSONWritten status \<lparr>jr_Code = code, jr_Message = m', jr_Body = NoBody, jr_RequestID = i\<rparr>)"

definition agrees :: "(err + GrpcResponse) \<times> 'w \<Rightarrow> (Gin \<times> string option) \<times> 'w \<Rightarrow> bool" where
  "agrees g r \<longleftrightarrow> snd r = snd g \<and> snd (fst r) = None \<and> (\<exists>x. gn_written (fst (fst r)) = [x] \<and> says (fst g) x)"

lemma agrees_error: "same_status e e' \<Longrightarrow> gn_written c = [] \<Longrightarrow> agrees (Inl e, w) (finish (FailResponse e' c) w)"
  by (auto simp: same_status_def agrees_def finish_def says_def)

lemma agrees_ok: "gn_written c = [] \<Longrightarrow> body = responseBody response \<Longrightarrow> agrees (Inr response, w) (finish (OKResponse body c) w)"
  by (auto simp: agrees_def finish_def says_def OKResponse_def)

lemma query_agree:
  assumes "clients_ignore_transport (ha_access h) s" and "same_call c ctx" and "ha_access h = None \<longrightarrow> identified ctx"
    and "gn_written c = []" and "\<And>x. responseBody (k x) = body x"
  shows "agrees
     (case callerVisibility ctx (tenant request) (ha_access h) w of
        (Inl e, w') \<Rightarrow> (Inl e, w')
      | (Inr visibility, w') \<Rightarrow>
          (case ask request visibility w' of
             (Inl e, w'') \<Rightarrow> (Inl (the (searchError (Some e))), w'')
           | (Inr result, w'') \<Rightarrow> (Inr (k result), w'')))
     (answerQuery h invalidText tenant (Inr request) ask body c w)"
  using visibility_agree [where access = "ha_access h" and t = "tenant request" and w = w, OF assms(1-3)]
proof (elim disjE exE conjE)
  fix e e' w'
  assume "callerVisibility ctx (tenant request) (ha_access h) w = (Inl e, w')"
    and "httpVisibility (ha_access h) c (tenant request) w = (Inl e', w')" and "same_status e e'"
  then show ?thesis using assms(4) by (simp add: answerQuery_def agrees_error)
next
  fix vs w'
  assume vis: "callerVisibility ctx (tenant request) (ha_access h) w = (Inr vs, w')"
    "httpVisibility (ha_access h) c (tenant request) w = (Inr vs, w')"
  obtain out w2 where run: "ask request vs w' = (out, w2)" by (cases "ask request vs w'")
  show ?thesis
    using vis run assms(4,5) searchError_status
    by (cases out) (simp_all add: answerQuery_def agrees_error agrees_ok del: searchError.simps)
qed

lemma request_tenants:
  "sr_TenantId (searchRequest r) = sb_TenantID r" "sg_TenantId (suggestRequest r') = gb_TenantID r'"
  by (simp_all add: searchRequest_def suggestRequest_def)

lemma server_fields:
  "ss_service \<lparr>ss_service = x, ss_access = y\<rparr> = x" "ss_access \<lparr>ss_service = x, ss_access = y\<rparr> = y"
  by simp_all

text \<open>C13: The two transports agree. A search, suggestion or document request over HTTP that its handler could
  decode, and the same request over gRPC with the same credential, its value in a header there and in the
  metadata here, consult the authorization service and the search service alike and are answered with the
  same result, or with the status that corresponds to the same refusal; the state left behind is the same.
  One case is left out, because the transports differ in it: a server without a resolver and a caller
  whose principal has no identifier.\<close>

theorem http_grpc_agree:
  assumes "clients_ignore_transport (ha_access h) (ha_search h)" and "same_call c ctx"
    and "ha_access h = None \<longrightarrow> identified ctx" and "gn_written c = []"
    and "s = \<lparr>ss_service = ha_search h, ss_access = ha_access h\<rparr>"
  shows "(\<forall>r. boundSearch h c = Inr r \<longrightarrow>
        agrees (handle s (SearchRq (Some (searchRequest r))) ctx w) (httpSearch h c w))
    \<and> (\<forall>r. boundSuggest h c = Inr r \<longrightarrow>
        agrees (handle s (SuggestRq (Some (suggestRequest r))) ctx w) (httpSuggest h c w))
    \<and> (\<forall>r. boundGet h c = Inr r \<longrightarrow>
        agrees (handle s (GetRq (Some \<lparr>gd_TenantId = tb_TenantID r, gd_Id = tb_ID r\<rparr>)) ctx w) (httpGetDocument h c w))"
proof -
  obtain incoming credential where ctx: "ctx = (gn_ctx c)\<lparr>cx_incoming := incoming, cx_credential := credential\<rparr>"
    using assms(2) unfolding same_call_def by blast
  note alike = service_ignores [OF assms(1) ctx] and agree = query_agree [OF assms(1-4)]
  show ?thesis
  proof (intro conjI allI impI)
    fix r
    assume bound: "boundSearch h c = Inr r"
    show "agrees (handle s (SearchRq (Some (searchRequest r))) ctx w) (httpSearch h c w)"
      unfolding httpSearch_def boundSearch_def [symmetric] bound assms(5)
      using agree [where k = SearchRs and body = "PageBody \<circ> searchPageDTO" and tenant = sb_TenantID
          and request = r and w = w and ask = "\<lambda>r. Service_Search (ha_search h) (gn_ctx c) (Some (searchRequest r))" and invalidText = "''invalid search request''"]
      unfolding handle.simps grpcSearch_def getter_def option.case request_tenants server_fields alike by simp
  next
    fix r
    assume bound: "boundSuggest h c = Inr r"
    show "agrees (handle s (SuggestRq (Some (suggestRequest r))) ctx w) (httpSuggest h c w)"
      unfolding httpSuggest_def boundSuggest_def [symmetric] bound assms(5)
      using agree [where k = SuggestRs and body = "SuggestBody \<circ> suggestResponseDTO" and tenant = gb_TenantID
          and request = r and w = w and ask = "\<lambda>r. Service_Suggest (ha_search h) (gn_ctx c) (Some (suggestRequest r))" and invalidText = "''invalid suggestion request''"]
      unfolding handle.simps grpcSuggest_def getter_def option.case request_tenants server_fields alike by simp
  next
    fix r
    assume bound: "boundGet h c = Inr r"
    show "agrees (handle s (GetRq (Some \<lparr>gd_TenantId = tb_TenantID r, gd_Id = tb_ID r\<rparr>)) ctx w) (httpGetDocument h c w)"
      unfolding httpGetDocument_def boundGet_def [symmetric] bound assms(5)
      using agree [where k = DocumentRs and body = "DocumentBody \<circ> searchDocumentDTO" and tenant = tb_TenantID
          and request = r and w = w and ask = "\<lambda>r. Service_Get (ha_search h) (gn_ctx c) (tb_TenantID r) (tb_ID r)"
          and invalidText = "''invalid document request''"]
      unfolding handle.simps grpcGetDocument_def getter_def option.case GetDocumentRequest.simps server_fields alike by simp
  qed
qed

definition example_call :: Ctx where
  "example_call = (gn_ctx example_caller)
     \<lparr>cx_incoming := (\<lambda>name. if name = ''authorization'' then [''Bearer ok''] else []), cx_credential := None\<rparr>"

lemma example_same_call: "same_call example_caller example_call"
proof -
  have "gn_header example_caller ''Authorization'' = ''Bearer ok''"
    by (simp add: example_caller_def inner_fields WithCtx_def SetKey_def)
  moreover have "cx_incoming (gn_ctx example_caller) = (\<lambda>_. [])" "cx_outgoing (gn_ctx example_caller) = []"
    by (simp_all add: example_caller_def example_inner_def example_request_def WithCtx_def SetKey_def Header_def
        WithCallerCredential_def withPrincipal_def WithTimeout_def WithEnvironment_def WithRequestID_def background_def Let_def)
  ultimately show ?thesis by (simp add: same_call_def example_call_def outgoing_values_def)
qed

lemma one_document_ignores:
  "ignores_transport (eng_Search (store_engine (one_document d)))" "ignores_transport (eng_Suggest (store_engine (one_document d)))"
  "ignores_transport (eng_Get (store_engine (one_document d)))"
proof -
  have json: "doJSON (one_document d) ctx = doJSON (one_document d) ctx'" for ctx ctx'
    by (intro ext) (simp add: doJSON_def one_document_def)
  have search: "Search (one_document d) ctx = Search (one_document d) ctx'" for ctx ctx'
    unfolding Search_def [abs_def] json [of ctx ctx'] ..
  have "Suggest (one_document d) ctx = Suggest (one_document d) ctx'" "Get (one_document d) ctx = Get (one_document d) ctx'" for ctx ctx'
    unfolding Suggest_def [abs_def] Get_def [abs_def] search [of ctx ctx'] by (rule refl)+
  with search show "ignores_transport (eng_Search (store_engine (one_document d)))"
    "ignores_transport (eng_Suggest (store_engine (one_document d)))" "ignores_transport (eng_Get (store_engine (one_document d)))"
    unfolding ignores_transport_def store_engine_def Engine.simps by blast+
qed

lemma example_ignores: "clients_ignore_transport (ha_access example_handler) (ha_search example_handler)"
proof -
  have "ignores_transport (reading_client :: unit BindingsClient)" "ignores_transport (only_a :: unit ApplicationAccess)"
    by (simp_all add: ignores_transport_def only_a_def reading_client_def serving_def fun_eq_iff)
  then show ?thesis unfolding clients_ignore_transport_def using one_document_ignores by (simp add: example_handler_def)
qed

theorem http_grpc_agree_witness:
  "agrees (handle \<lparr>ss_service = ha_search example_handler, ss_access = ha_access example_handler\<rparr>
      (SearchRq (Some (searchRequest search_body))) example_call ()) (httpSearch example_handler example_caller ())"
proof -
  have "ha_access example_handler \<noteq> None" by (simp add: example_handler_def)
  then have "ha_access example_handler = None \<longrightarrow> identified example_call" by blast
  from http_grpc_agree [OF example_ignores example_same_call this caller_written refl, THEN conjunct1] caller_bound
  show ?thesis by blast
qed

section \<open>Callers of another tenant\<close>

text \<open>A caller that is bound to another tenant than the one given.\<close>

definition foreign_caller :: "Ctx \<Rightarrow> string \<Rightarrow> bool" where
  "foreign_caller ctx tenantID \<longleftrightarrow>
     (case cx_principal ctx of None \<Rightarrow> False | Some identity \<Rightarrow> pr_TenantID identity \<noteq> [] \<and> pr_TenantID identity \<noteq> tenantID)"

lemma foreign_tokens:
  assumes "foreign_caller ctx t"
  shows "VisibilityTokens r ctx t w = (Inl ErrForbidden, w)"
proof -
  obtain identity where "cx_principal ctx = Some identity" "pr_TenantID identity \<noteq> []" "pr_TenantID identity \<noteq> t"
    using assms by (cases "cx_principal ctx") (simp_all add: foreign_caller_def)
  then show ?thesis by (simp add: VisibilityTokens_def)
qed

lemma foreign_grpc:
  assumes "foreign_caller ctx t"
  shows "callerVisibility ctx t access w =
    (if access = None \<and> \<not> identified ctx then (Inr [], w) else (Inl (StatusError CPermissionDenied ''tenant access denied''), w))"
proof -
  obtain identity where caller: "cx_principal ctx = Some identity" "pr_TenantID identity \<noteq> []" "pr_TenantID identity \<noteq> t"
    using assms by (cases "cx_principal ctx") (simp_all add: foreign_caller_def)
  have "errors_is ErrForbidden AccessForbidden" by (simp add: ErrForbidden_def)
  then show ?thesis
    by (cases access) (simp_all add: callerVisibility_def foreign_tokens [OF assms] caller identified_def)
qed

lemma foreign_http:
  assumes "foreign_caller (gn_ctx c) t"
  shows "httpVisibility access c t w = (Inl (appForbidden ''tenant access denied''), w)"
proof -
  obtain identity where caller: "cx_principal (gn_ctx c) = Some identity" "pr_TenantID identity \<noteq> []" "pr_TenantID identity \<noteq> t"
    using assms by (cases "cx_principal (gn_ctx c)") (simp_all add: foreign_caller_def)
  have "foreign_caller (WithAuthorization (gn_ctx c) a) t" for a
    using assms by (simp add: foreign_caller_def)
  then have "VisibilityTokens r (WithAuthorization (gn_ctx c) a) t w = (Inl ErrForbidden, w)" for r a by (rule foreign_tokens)
  moreover have "errors_is ErrForbidden AccessForbidden" by (simp add: ErrForbidden_def)
  ultimately show ?thesis by (cases access) (simp_all add: httpVisibility_def caller)
qed

lemma foreign_answer:
  assumes "foreign_caller (gn_ctx c) (tenant request)"
  shows "answerQuery h invalidText tenant (Inr request) ask body c w
     = finish (FailResponse (appForbidden ''tenant access denied'') c) w"
  by (simp add: answerQuery_def foreign_http [OF assms])

text \<open>C35: A caller bound to one tenant cannot ask about another. A search, suggestion or get for another tenant is
  answered with 403, or PermissionDenied, and nothing is asked: not the authorization service, not the
  application service, not the index; the state is unchanged. Over HTTP this holds of every caller. Over
  gRPC there is one exception: a server without a resolver lets a caller whose principal has no identifier
  go on, with no token of its own.\<close>

theorem tenant_mismatch_rejected:
  assumes "foreign_caller (gn_ctx c) t"
  shows "(foreign_caller ctx t \<longrightarrow> request_tenant rq = t \<longrightarrow> rpc_of rq \<in> {RpcSearch, RpcSuggest, RpcGetDocument} \<longrightarrow>
        (if ss_access s = None \<and> \<not> identified ctx
         then callerVisibility ctx t (ss_access s) w = (Inr [], w)
         else handle s rq ctx w = (Inl (StatusError CPermissionDenied ''tenant access denied''), w)))
    \<and> (\<forall>r. boundSearch h c = Inr r \<longrightarrow> sb_TenantID r = t \<longrightarrow>
        httpSearch h c w = finish (FailResponse (appForbidden ''tenant access denied'') c) w)
    \<and> (\<forall>r. boundSuggest h c = Inr r \<longrightarrow> gb_TenantID r = t \<longrightarrow>
        httpSuggest h c w = finish (FailResponse (appForbidden ''tenant access denied'') c) w)
    \<and> (\<forall>r. boundGet h c = Inr r \<longrightarrow> tb_TenantID r = t \<longrightarrow>
        httpGetDocument h c w = finish (FailResponse (appForbidden ''tenant access denied'') c) w)"
proof (intro conjI allI impI)
  assume "foreign_caller ctx t" and "request_tenant rq = t" and "rpc_of rq \<in> {RpcSearch, RpcSuggest, RpcGetDocument}"
  then show "if ss_access s = None \<and> \<not> identified ctx
      then callerVisibility ctx t (ss_access s) w = (Inr [], w)
      else handle s rq ctx w = (Inl (StatusError CPermissionDenied ''tenant access denied''), w)"
    by (cases rq) (simp_all add: foreign_grpc grpcSearch_def grpcSuggest_def grpcGetDocument_def)
next
  fix r
  assume "boundSearch h c = Inr r" and "sb_TenantID r = t"
  then show "httpSearch h c w = finish (FailResponse (appForbidden ''tenant access denied'') c) w"
    unfolding httpSearch_def boundSearch_def [symmetric] using assms by (simp add: foreign_answer)
next
  fix r
  assume "boundSuggest h c = Inr r" and "gb_TenantID r = t"
  then show "httpSuggest h c w = finish (FailResponse (appForbidden ''tenant access denied'') c) w"
    unfolding httpSuggest_def boundSuggest_def [symmetric] using assms by (simp add: foreign_answer)
next
  fix r
  assume "boundGet h c = Inr r" and "tb_TenantID r = t"
  then show "httpGetDocument h c w = finish (FailResponse (appForbidden ''tenant access denied'') c) w"
    unfolding httpGetDocument_def boundGet_def [symmetric] using assms by (simp add: foreign_answer)
qed

definition other_caller :: Gin where
  "other_caller = WithCtx (\<lambda>ctx. ctx\<lparr>cx_principal := Some (example_principal\<lparr>pr_TenantID := ''t2''\<rparr>)\<rparr>) example_caller"

theorem tenant_mismatch_rejected_witness:
  "httpSearch example_handler other_caller () = finish (FailResponse (appForbidden ''tenant access denied'') other_caller) ()
   \<and> gn_written (FailResponse (appForbidden ''tenant access denied'') other_caller)
       = [JSONWritten 403 \<lparr>jr_Code = CodeForbidden, jr_Message = ''tenant access denied'', jr_Body = NoBody,
            jr_RequestID = requestID other_caller\<rparr>]
   \<and> handle reading_server (GetRq (Some \<lparr>gd_TenantId = ''t'', gd_Id = ''t:s:d:1''\<rparr>)) (gn_ctx other_caller) ()
       = (Inl (StatusError CPermissionDenied ''tenant access denied''), ())"
proof -
  have "limitedBody other_caller = limitedBody example_caller"
    by (simp add: limitedBody_def other_caller_def WithCtx_def split: option.split)
  then have "boundSearch example_handler other_caller = boundSearch example_handler example_caller"
    by (simp add: boundSearch_def bindRequired_def)
  then have bound: "boundSearch example_handler other_caller = Inr search_body" by (simp add: caller_bound)
  have foreign: "foreign_caller (gn_ctx other_caller) ''t''"
    by (simp add: foreign_caller_def other_caller_def WithCtx_def example_principal_def)
  let ?rq = "GetRq (Some \<lparr>gd_TenantId = ''t'', gd_Id = ''t:s:d:1''\<rparr>)"
  have resolver: "\<not> (ss_access reading_server = None \<and> \<not> identified (gn_ctx other_caller))" by (simp add: reading_server_def)
  have rq: "request_tenant ?rq = ''t''" "rpc_of ?rq \<in> {RpcSearch, RpcSuggest, RpcGetDocument}" by (simp_all add: getter_def)
  note rejected = tenant_mismatch_rejected [OF foreign, where h = example_handler and w = "()" and s = reading_server
      and ctx = "gn_ctx other_caller" and rq = ?rq]
  from rejected [THEN conjunct1, THEN mp, OF foreign, THEN mp, OF rq(1), THEN mp, OF rq(2), unfolded if_not_P [OF resolver]]
  have grpc: "handle reading_server ?rq (gn_ctx other_caller) () = (Inl (StatusError CPermissionDenied ''tenant access denied''), ())" .
  have "gn_written other_caller = []" by (simp add: other_caller_def WithCtx_def caller_written)
  then show ?thesis using rejected [THEN conjunct2] bound grpc by (simp add: search_body_def appForbidden_def del: handle.simps)
qed

text \<open>The exception is a difference between the transports. A caller that is bound to another tenant and whose
  principal has no identifier is refused by the HTTP server without a resolver, and let through by the
  gRPC server without a resolver, to what the whole tenant may see.\<close>

theorem unidentified_caller_diverges:
  assumes "cx_principal (gn_ctx c) = Some identity" and "pr_ID identity = []"
    and "pr_TenantID identity \<noteq> []" and "pr_TenantID identity \<noteq> t"
  shows "callerVisibility (gn_ctx c) t None w = (Inr [], w)
    \<and> httpVisibility None c t w = (Inl (appForbidden ''tenant access denied''), w)
    \<and> normalizeVisibility t [] = [tenantToken t]"
proof -
  have "foreign_caller (gn_ctx c) t" "\<not> identified (gn_ctx c)" using assms by (simp_all add: foreign_caller_def identified_def)
  then show ?thesis by (simp add: foreign_grpc foreign_http normalizeVisibility_def)
qed

section \<open>What an error reveals\<close>

definition public_answers :: "(int \<times> int \<times> string) list" where
  "public_answers =
     [(400, CodeInvalidArgument, ''invalid search request''), (400, CodeInvalidArgument, ''invalid suggestion request''),
      (400, CodeInvalidArgument, ''invalid document request''), (403, CodeForbidden, ''tenant access denied''),
      (403, CodeForbidden, ''application access denied''), (404, CodeNotFound, ''search document not found''),
      (503, CodeDependencyUnavailable, ''authorization unavailable''), (503, CodeDependencyUnavailable, ''search unavailable''),
      (500, CodeInternal, ''internal server error'')]"

definition public_answer :: "written \<Rightarrow> bool" where
  "public_answer r \<longleftrightarrow> (\<exists>status answer. r = JSONWritten status answer \<and> jr_Body answer = NoBody
     \<and> ((status, jr_Code answer, jr_Message answer) \<in> set public_answers
        \<or> status = 400 \<and> jr_Code answer = CodeInvalidArgument
          \<and> (\<exists>cause. errors_is cause SearchInvalidArgument \<and> jr_Message answer = err_text cause)))"

lemma app_public:
  assumes "(status, code, m) \<in> set public_answers"
  shows "errorBody (AppError code m status e) r \<Longrightarrow> public_answer r"
  using assms by (auto simp: errorBody_def public_answer_def)

lemma searchAppError_public:
  assumes "errorBody (searchAppError e) r"
  shows "public_answer r"
proof (cases "errors_is e SearchInvalidArgument")
  case True
  with assms have "\<exists>answer. r = JSONWritten 400 answer \<and> jr_Body answer = NoBody \<and> jr_Code answer = CodeInvalidArgument
      \<and> jr_Message answer = err_text e"
    by (auto simp: errorBody_def searchAppError_def appInvalid_def)
  with True show ?thesis unfolding public_answer_def by blast
next
  case False
  have member: "(404, CodeNotFound, ''search document not found'') \<in> set public_answers"
      "(403, CodeForbidden, ''application access denied'') \<in> set public_answers"
      "(503, CodeDependencyUnavailable, ''search unavailable'') \<in> set public_answers"
      "(500, CodeInternal, ''internal server error'') \<in> set public_answers"
    by (simp_all add: public_answers_def)
  from assms False show ?thesis
    unfolding searchAppError_def app_errors by (auto split: if_splits intro: member [THEN app_public])
qed

lemma visibility_public:
  assumes "httpVisibility access c t w = (Inl e, w')" and "errorBody e r"
  shows "public_answer r"
proof -
  have member: "(403, CodeForbidden, ''tenant access denied'') \<in> set public_answers"
      "(503, CodeDependencyUnavailable, ''authorization unavailable'') \<in> set public_answers"
    by (simp_all add: public_answers_def)
  from assms(1) have "(\<exists>cause. e = appForbidden ''tenant access denied'') \<or> (\<exists>cause. e = appUnavailable ''authorization unavailable'' (Some cause))"
    by (auto simp: httpVisibility_def split: option.splits sum.splits prod.splits if_splits)
  with assms(2) show ?thesis unfolding app_errors by (auto intro: member [THEN app_public])
qed

lemma queryOutcome_public:
  assumes "queryOutcome h invalidText tenant bound ask c w = (Inl e, w')" and "errorBody e r"
    and "(400, CodeInvalidArgument, invalidText) \<in> set public_answers"
  shows "public_answer r"
proof (cases bound)
  case (Inl e1)
  then have "e = AppError CodeInvalidArgument invalidText 400 (Some e1)" using assms(1) by (simp add: queryOutcome_def appInvalid_def)
  then show ?thesis using app_public [OF assms(3)] assms(2) by blast
next
  case (Inr request)
  obtain v w1 where vis: "httpVisibility (ha_access h) c (tenant request) w = (v, w1)"
    by (cases "httpVisibility (ha_access h) c (tenant request) w")
  show ?thesis
  proof (cases v)
    case (Inl e1)
    then show ?thesis using assms(1,2) Inr vis visibility_public by (simp add: queryOutcome_def)
  next
    case visible: (Inr vs)
    obtain out w2 where "ask request vs w1 = (out, w2)" by (cases "ask request vs w1")
    then show ?thesis using assms(1,2) Inr vis visible searchAppError_public by (cases out) (auto simp: queryOutcome_def)
  qed
qed

lemma answerQuery_public:
  assumes "answerQuery h invalidText tenant bound ask body c w = ((c', p), w')" and "gn_written c = []"
    and "r \<in> set (gn_written c')" and "(400, CodeInvalidArgument, invalidText) \<in> set public_answers"
  shows "(\<exists>answer. r = JSONWritten 200 answer) \<or> public_answer r"
  using answerQuery_writes [OF assms(1-3)]
proof (elim disjE exE conjE)
  fix e
  assume "queryOutcome h invalidText tenant bound ask c w = (Inl e, w')" and "errorBody e r"
  from queryOutcome_public [OF this assms(4)] show ?thesis by (rule disjI2)
qed (rule disjI1, erule exI)

text \<open>C22: What an answer of the API reveals. It is a success, or one of nine fixed errors, or a 400 that says what
  is invalid about the request; the text of an internal error, which can hold hosts, tokens and
  queries, is never part of an answer.\<close>

theorem http_errors_public:
  assumes "map_of (apiRoutes h) path = Some handler" and "handler c w = ((c', p), w')"
    and "gn_written c = []" and "r \<in> set (gn_written c')"
  shows "(\<exists>answer. r = JSONWritten 200 answer) \<or> public_answer r"
  using assms(1)
proof (cases rule: apiRoutes_cases)
  case 1
  then show ?thesis using assms(2-4) by (auto simp: httpVersion_def finish_def OKResponse_def)
next
  case 2
  then show ?thesis using assms(2-4) by (auto simp: httpMe_def finish_def OKResponse_def)
next
  case 3
  have "(400, CodeInvalidArgument, ''invalid search request'') \<in> set public_answers" by (simp add: public_answers_def)
  moreover have "httpSearch h c w = ((c', p), w')" using assms(2) 3 by simp
  ultimately show ?thesis unfolding httpSearch_def by (intro answerQuery_public [OF _ assms(3,4)])
next
  case 4
  have "(400, CodeInvalidArgument, ''invalid suggestion request'') \<in> set public_answers" by (simp add: public_answers_def)
  moreover have "httpSuggest h c w = ((c', p), w')" using assms(2) 4 by simp
  ultimately show ?thesis unfolding httpSuggest_def by (intro answerQuery_public [OF _ assms(3,4)])
next
  case 5
  have "(400, CodeInvalidArgument, ''invalid document request'') \<in> set public_answers" by (simp add: public_answers_def)
  moreover have "httpGetDocument h c w = ((c', p), w')" using assms(2) 5 by simp
  ultimately show ?thesis unfolding httpGetDocument_def by (intro answerQuery_public [OF _ assms(3,4)])
qed

theorem http_errors_public_witness:
  "\<exists>r. gn_written (fst (fst (httpSearch (example_handler\<lparr>ha_search := service_down\<rparr>) example_caller ()))) = [r] \<and> public_answer r"
proof -
  let ?r = "JSONWritten 503 \<lparr>jr_Code = CodeDependencyUnavailable, jr_Message = ''search unavailable'', jr_Body = NoBody,
    jr_RequestID = requestID example_caller\<rparr>"
  let ?c = "FailResponse (appUnavailable ''search unavailable'' (Some (Sentinel SearchUnavailable))) example_caller"
  have written: "gn_written ?c = [?r]" by (simp add: appUnavailable_def caller_written)
  have route: "map_of (apiRoutes (example_handler\<lparr>ha_search := service_down\<rparr>)) ''/api/v1/search/query''
      = Some (httpSearch (example_handler\<lparr>ha_search := service_down\<rparr>))"
    by (simp add: apiRoutes_def)
  have "public_answer ?r"
    using http_errors_public [OF route down_search caller_written, of ?r] written by simp
  then show ?thesis unfolding down_search fst_conv written by (intro exI [of _ ?r] conjI refl)
qed

end
