(* ===== verification/HttpResponses.thy ===== *)
theory HttpResponses
  imports HttpReads
begin

text \<open>
  Every request over HTTP is answered, once, under one request identifier; the numbers of the rate
  limits; the headers of every answer.
\<close>

section \<open>One answer\<close>

text \<open>The state of a request that goes by an identifier: everything written so far carries it.\<close>

definition under :: "string \<Rightarrow> Gin \<Rightarrow> bool" where
  "under i c \<longleftrightarrow> gn_keys c ''request_id'' = Some i \<and> gn_reply_headers c ''X-Request-ID'' = Some i
     \<and> (\<forall>n answer. JSONWritten n answer \<in> set (gn_written c) \<longrightarrow> jr_RequestID answer = i)"

text \<open>
  A handler answers if it writes exactly one response under the identifier, or panics before that. The
  number is that of the responses written before.
\<close>

definition answered :: "string \<Rightarrow> nat \<Rightarrow> (Gin \<times> string option) \<times> 'w \<Rightarrow> bool" where
  "answered i n r \<longleftrightarrow> under i (fst (fst r)) \<and> length (gn_written (fst (fst r))) = n + (if snd (fst r) = None then 1 else 0)"

definition answers :: "string \<Rightarrow> 'w HandlerFunc \<Rightarrow> bool" where
  "answers i h \<longleftrightarrow> (\<forall>c w. under i c \<longrightarrow> answered i (length (gn_written c)) (h c w))"

lemma under_Header [simp]: "k \<noteq> ''X-Request-ID'' \<Longrightarrow> under i (Header k v c) = under i c"
  by (simp add: under_def Header_def)

lemma under_SetKey [simp]: "k \<noteq> ''request_id'' \<Longrightarrow> under i (SetKey k v c) = under i c"
  by (simp add: under_def SetKey_def)

lemma under_WithCtx [simp]: "under i (WithCtx f c) = under i c"
  by (simp add: under_def WithCtx_def)

lemma under_limit [simp]: "under i (c\<lparr>gn_limit := l\<rparr>) = under i c"
  by (simp add: under_def)

lemma under_RespondJSON: "under i c \<Longrightarrow> under i (RespondJSON status code message body c)"
  by (auto simp: under_def requestID_def)

lemma under_FailResponse: "under i c \<Longrightarrow> under i (FailResponse e c)"
  by (simp add: FailResponse_def Let_def under_RespondJSON split: prod.split)

lemma under_Status: "under i c \<Longrightarrow> under i (Write (StatusWritten n) c)"
  by (auto simp: under_def Write_def)

lemma length_FailResponse [simp]: "length (gn_written (FailResponse e c)) = Suc (length (gn_written c))"
  using FailResponse_writes [of e c] by auto

text \<open>How a handler or middleware may end a request: one response by one of these functions, or the rest of the chain.\<close>

lemma answered_Fail [intro]: "under i c \<Longrightarrow> length (gn_written c) = n \<Longrightarrow> answered i n (finish (FailResponse e c) w)"
  by (simp add: answered_def finish_def under_FailResponse)

lemma answered_Respond [intro]:
  "under i c \<Longrightarrow> length (gn_written c) = n \<Longrightarrow> answered i n (finish (RespondJSON status code message body c) w)"
  by (simp add: answered_def finish_def under_RespondJSON)

lemma answered_OK [intro]: "under i c \<Longrightarrow> length (gn_written c) = n \<Longrightarrow> answered i n (finish (OKResponse body c) w)"
  unfolding OKResponse_def by (rule answered_Respond)

lemma answered_Status [intro]:
  "under i c \<Longrightarrow> length (gn_written c) = n \<Longrightarrow> answered i n (finish (Write (StatusWritten status) c) w)"
  by (simp add: answered_def finish_def under_Status) (simp add: Write_def)

lemma answered_rest: "answers i h \<Longrightarrow> under i c \<Longrightarrow> length (gn_written c) = n \<Longrightarrow> answered i n (h c w)"
  unfolding answers_def by blast

text \<open>A middleware relays answering: in front of a handler that answers it makes one that answers.\<close>

locale relay =
  fixes m :: "'w Middleware" and i :: string
  assumes relays: "answers i h \<Longrightarrow> answers i (m h)"

lemma relay_comp:
  assumes "relay m i" and "relay n i"
  shows "relay (m \<circ> n) i"
  by unfold_locales (simp add: relay.relays [OF assms(1)] relay.relays [OF assms(2)])

lemma relayI:
  assumes "\<And>h c w. (\<And>c1 w1 n. under i c1 \<Longrightarrow> length (gn_written c1) = n \<Longrightarrow> answered i n (h c1 w1)) \<Longrightarrow>
    under i c \<Longrightarrow> answered i (length (gn_written c)) (m h c w)"
  shows "relay m i"
  by unfold_locales (simp add: assms answered_rest answers_def [of i "m _"])

section \<open>The middlewares relay\<close>

lemma environment_relay: "relay (environmentMiddleware profile) i"
  unfolding environmentMiddleware_def [abs_def] by (rule relayI) simp

lemma maxBody_relay: "relay (maxBodyMiddleware limit) i"
  unfolding maxBodyMiddleware_def [abs_def] by (rule relayI) simp

lemma security_relay: "relay securityHeadersMiddleware i"
  unfolding securityHeadersMiddleware_def [abs_def] Let_def by (rule relayI) simp

lemma idempotency_relay: "relay (idempotencyMiddleware l) i"
  unfolding idempotencyMiddleware_def [abs_def] Let_def by (rule relayI) (auto split: if_split)

lemma requireJSON_relay: "relay (requireJSONMiddleware l) i"
  unfolding requireJSONMiddleware_def [abs_def] by (rule relayI) (auto split: if_split)

lemma cors_relay: "relay (corsMiddleware l cfg) i"
  unfolding corsMiddleware_def [abs_def] corsHeaders_def Let_def
  by (rule relayI) (auto split: if_split)

lemma after_relay:
  assumes "\<And>c w. under i c \<Longrightarrow> gn_written c \<noteq> [] \<Longrightarrow> under i (fst (f c w)) \<and> gn_written (fst (f c w)) = gn_written c"
  shows "relay (after f) i"
proof (rule relayI)
  fix h :: "'a HandlerFunc" and c w
  assume "\<And>c1 w1 n. under i c1 \<Longrightarrow> length (gn_written c1) = n \<Longrightarrow> answered i n (h c1 w1)" and "under i c"
  then have inner: "answered i (length (gn_written c)) (h c w)" by simp
  obtain c1 q w1 where run: "h c w = ((c1, q), w1)" using prod.exhaust by metis
  show "answered i (length (gn_written c)) (after f h c w)"
  proof (cases q)
    case None
    then have "under i c1" "gn_written c1 \<noteq> []" using inner by (auto simp: answered_def run)
    from assms [OF this, of w1] inner show ?thesis
      by (cases "f c1 w1") (auto simp: after_def run None answered_def)
  qed (use inner in \<open>simp add: after_def run\<close>)
qed

lemma metrics_relay: "relay (metricsMiddleware l) i"
  unfolding metricsMiddleware_def [abs_def] by (rule after_relay) (simp split: option.split)

lemma logger_relay: "relay (requestLogger l) i"
  unfolding requestLogger_def [abs_def] by (rule after_relay) simp

lemma timeout_relay: "relay (timeoutMiddleware l timeout) i"
proof (rule relayI)
  fix h :: "'a HandlerFunc" and c w
  assume "\<And>c1 w1 n. under i c1 \<Longrightarrow> length (gn_written c1) = n \<Longrightarrow> answered i n (h c1 w1)" and u: "under i c"
  then have h: "answers i h" by (simp add: answers_def)
  obtain now w1 where clock: "hl_clock l w = (now, w1)" by (rule prod.exhaust)
  let ?ctx = "WithTimeout (sint now) timeout (gn_ctx c)"
  let ?f = "\<lambda>c' w''. (if hl_expired l ?ctx w'' \<and> gn_written c' = [] then FailResponse appRequestTimeout c' else c', w'')"
  have "relay (after ?f) i" by (rule after_relay) simp
  from relay.relays [OF this h] show "answered i (length (gn_written c)) (timeoutMiddleware l timeout h c w)"
    unfolding timeoutMiddleware_def clock prod.case Let_def by (rule answered_rest) (simp_all add: u)
qed

lemma recovery_relay:
  assumes "\<And>p. \<not> hl_broken_pipe l p"
  shows "relay (recoveryMiddleware l) i"
proof (rule relayI)
  fix h :: "'a HandlerFunc" and c w
  assume "\<And>c1 w1 n. under i c1 \<Longrightarrow> length (gn_written c1) = n \<Longrightarrow> answered i n (h c1 w1)" and "under i c"
  then have "answered i (length (gn_written c)) (h c w)" by simp
  then show "answered i (length (gn_written c)) (recoveryMiddleware l h c w)"
    using assms by (auto simp: recoveryMiddleware_def answered_def under_RespondJSON split: prod.split option.split)
qed

lemma rateLimit_relay: "relay (rateLimitMiddleware li rule dimension key) i"
  unfolding rateLimitMiddleware_def [abs_def] Let_def
  by (rule relayI) (auto split: if_split prod.split sum.split)

lemma jwt_relay: "relay (jwtMiddleware service) i"
  unfolding jwtMiddleware_def [abs_def] Let_def
  by (rule relayI) (auto split: if_split prod.split sum.split simp del: EqualFold.simps Cut.simps)

lemma authentication_relay: "relay (authenticationMiddleware service cfg) i"
proof (rule relayI)
  fix h :: "'a HandlerFunc" and c w
  assume h: "\<And>c1 w1 n. under i c1 \<Longrightarrow> length (gn_written c1) = n \<Longrightarrow> answered i n (h c1 w1)" and u: "under i c"
  then have "answers i h" by (simp add: answers_def)
  then have "answered i (length (gn_written c)) (jwtMiddleware service h c w)"
    by (intro answered_rest relay.relays [OF jwt_relay] u refl)
  with h u show "answered i (length (gn_written c)) (authenticationMiddleware service cfg h c w)"
    unfolding authenticationMiddleware_def
    by (simp add: answered_Fail split: if_split del: MatchesAny.simps)
qed

lemma authorization_relay: "relay (authorizationMiddleware l enabled) i"
  unfolding authorizationMiddleware_def [abs_def]
  by (rule relayI) (auto split: if_split prod.split option.split)

lemma pprof_relay: "relay (pprofAuth token) i"
  unfolding pprofAuth_def [abs_def]
  by (rule relayI) (auto split: if_split prod.split simp del: EqualFold.simps Cut.simps)

text \<open>The chains, up to the assignment of the identifier.\<close>

definition innerGlobal :: "'w HttpLib \<Rightarrow> Config \<Rightarrow> 'w Middleware" where
  "innerGlobal l cfg =
     idempotencyMiddleware l \<circ> environmentMiddleware (rt_ActiveProfile (cfg_Runtime cfg))
     \<circ> requestLogger l \<circ> recoveryMiddleware l \<circ> metricsMiddleware l \<circ> securityHeadersMiddleware
     \<circ> corsMiddleware l (http_CORS (cfg_HTTP cfg)) \<circ> maxBodyMiddleware (http_MaxBodyBytes (cfg_HTTP cfg))
     \<circ> timeoutMiddleware l (http_RequestTimeout (cfg_HTTP cfg)) \<circ> requireJSONMiddleware l"

lemma globalChain_inner: "globalChain l cfg h = requestIDMiddleware l (innerGlobal l cfg h)"
  by (simp add: globalChain_def innerGlobal_def)

lemma innerGlobal_relay:
  assumes "\<And>p. \<not> hl_broken_pipe l p"
  shows "relay (innerGlobal l cfg) i"
  unfolding innerGlobal_def
  by (intro relay_comp idempotency_relay environment_relay recovery_relay [OF assms] logger_relay metrics_relay security_relay cors_relay
      maxBody_relay timeout_relay requireJSON_relay)

lemma apiChain_relay: "relay (apiChain l li cfg service) i"
  unfolding apiChain_def by (intro relay_comp rateLimit_relay authentication_relay authorization_relay)

interpretation api_answers: relay "apiChain l li cfg service" i for l li cfg service i
  by (rule apiChain_relay)

interpretation jwt_answers: relay "jwtMiddleware service" i for service i
  by (rule jwt_relay)

interpretation pprof_answers: relay "pprofAuth token" i for token i
  by (rule pprof_relay)

section \<open>The handlers answer\<close>

lemma answersI:
  assumes "\<And>c w. under i c \<Longrightarrow> answered i (length (gn_written c)) (h c w)"
  shows "answers i h"
  using assms unfolding answers_def by blast

lemma answerQuery_answers: "under i c \<Longrightarrow> answered i (length (gn_written c)) (answerQuery h text tenant bound ask body c w)"
  unfolding answerQuery_def by (auto split: sum.split prod.split)

lemma handlers_answer:
  "answers i httpLive" "answers i (httpReady h)" "answers i httpMe" "answers i (httpVersion h)"
  "answers i (httpSearch h)" "answers i (httpSuggest h)" "answers i (httpGetDocument h)"
  unfolding httpLive_def [abs_def] httpReady_def [abs_def] httpMe_def [abs_def] httpVersion_def [abs_def]
    httpSearch_def [abs_def] httpSuggest_def [abs_def] httpGetDocument_def [abs_def]
  by (auto intro!: answersI answerQuery_answers split: prod.split if_split)

lemma fixedRoutes_answer:
  assumes "\<And>path. answers i (pages path)" and "(route, handler) \<in> set (fixedRoutes cfg service h pages)"
  shows "answers i handler"
  using assms(2) handlers_answer jwt_answers.relays [OF assms(1)] pprof_answers.relays [OF assms(1)] assms(1)
  by (auto simp: fixedRoutes_def split: if_splits)

lemma routes_answer:
  assumes "\<And>path. answers i (pages path)" and "map_of (routes l li cfg service h pages) route = Some handler"
  shows "answers i handler"
proof -
  have "(route, handler) \<in> set (routes l li cfg service h pages)" using assms(2) by (rule map_of_SomeD)
  moreover have "answers i f" if "(path, f) \<in> set (apiRoutes h)" for path f
    using that handlers_answer unfolding apiRoutes_def by auto
  ultimately show ?thesis
    using fixedRoutes_answer [of i pages route handler cfg service h] assms(1)
    unfolding routes_def by (auto intro: api_answers.relays)
qed

section \<open>Every request is answered, once, under one identifier\<close>

lemma requestID_assigns:
  assumes "requestIDMiddleware l h c w = r" and "gn_written c = []"
  obtains i c1 w1 where "ValidRequestID i" and "under i c1" and "gn_written c1 = []" and "h c1 w1 = r"
proof -
  let ?given = "gn_header c ''X-Request-ID''"
  obtain i w1 where choice: "(if \<not> ValidRequestID ?given then GenerateRequestID (hl_random l) (hl_clock l) w else (?given, w)) = (i, w1)"
    by (rule prod.exhaust)
  have valid: "ValidRequestID i" using choice generated_valid [of "hl_random l" "hl_clock l" w] by (auto split: if_splits)
  then have "i \<noteq> []" by (auto simp: ValidRequestID_def)
  then have "under i (WithCtx (WithRequestID i) (Header ''X-Request-ID'' i (SetKey ''request_id'' i c)))"
    using assms(2) by (simp add: under_def) (simp add: Header_def SetKey_def WithCtx_def)
  with that [OF valid this] show thesis using assms choice by (simp add: requestIDMiddleware_def Let_def)
qed

lemma recovery_no_panic: "snd (fst (recoveryMiddleware l h c w)) = None"
  by (simp add: recoveryMiddleware_def split: prod.split option.split)

lemma after_no_panic: "snd (fst (h c w)) = None \<Longrightarrow> snd (fst (after f h c w)) = None"
  by (auto simp: after_def split: prod.split option.split)

lemma innerGlobal_no_panic: "snd (fst (innerGlobal l cfg h c w)) = None"
  by (simp add: innerGlobal_def idempotencyMiddleware_def environmentMiddleware_def requestLogger_def after_no_panic
      recovery_no_panic finish_def Let_def)

text \<open>C20: Every request is answered. Whatever the route, the limits, the credentials and the services behind, and
  whether the deadline passes or a page of a library panics, the request ends without a panic and with
  exactly one response; the response header and the JSON carry the same request identifier, which has
  the allowed form even if the caller's own did not. The pages of libraries are taken to write one
  response each, and the client to stay connected.\<close>

theorem http_answered_once:
  assumes "\<And>i path. answers i (pages path)" and "\<And>p. \<not> hl_broken_pipe l p" and "gn_written c = []"
    and "serveHTTP l li cfg service h pages c w = ((c', p), w')"
  shows "p = None \<and> (\<exists>r i. gn_written c' = [r] \<and> gn_reply_headers c' ''X-Request-ID'' = Some i \<and> ValidRequestID i
    \<and> (\<forall>n answer. r = JSONWritten n answer \<longrightarrow> jr_RequestID answer = i))"
proof -
  let ?h = "case map_of (routes l li cfg service h pages) (gn_method c, gn_fullpath c) of Some f \<Rightarrow> f | None \<Rightarrow> pages []"
  have h: "answers i ?h" for i
    using routes_answer [of i pages l li cfg service h "(gn_method c, gn_fullpath c)"] assms(1) by (simp split: option.split)
  obtain i c1 w1 where valid: "ValidRequestID i" and under: "under i c1" and fresh: "gn_written c1 = []"
    and run: "innerGlobal l cfg ?h c1 w1 = ((c', p), w')"
    using requestID_assigns [OF assms(4) [unfolded serveHTTP_def globalChain_inner] assms(3)] by blast
  have "answers i (innerGlobal l cfg ?h)" using relay.relays [OF innerGlobal_relay [OF assms(2)] h] .
  from answered_rest [OF this under fresh [THEN arg_cong, of length], of w1] run
  have "under i c'" and one: "length (gn_written c') = (if p = None then 1 else 0)" by (simp_all add: answered_def)
  moreover have "p = None" using innerGlobal_no_panic run by (metis fst_conv snd_conv)
  ultimately show ?thesis using valid by (auto simp: under_def length_Suc_conv)
qed

definition plain_page :: "'w HandlerFunc" where
  "plain_page c = finish (Write (LibraryWritten 404) c)"

lemma plain_page_answers: "answers i plain_page"
  by (rule answersI) (auto simp: plain_page_def finish_def answered_def under_def Write_def)

theorem http_answered_once_witness:
  "\<exists>c' r i. serveHTTP example_http_lib example_limiter example_http_config token_auth example_handler (\<lambda>_. plain_page) example_request ()
       = ((c', None), ())
     \<and> gn_written c' = [r] \<and> gn_reply_headers c' ''X-Request-ID'' = Some i \<and> ValidRequestID i"
proof -
  obtain response where run: "httpSearch example_handler example_caller ()
      = ((OKResponse (PageBody (searchPageDTO response)) example_caller, None), ())"
    using example_search by (elim exE conjE) (rule that)
  have connected: "\<not> hl_broken_pipe example_http_lib p" for p by (simp add: example_http_lib_def)
  have fresh: "gn_written example_request = []" by (simp add: example_request_def)
  from http_answered_once [OF plain_page_answers connected fresh example_serve [OF run]] example_serve [OF run]
  show ?thesis by blast
qed

section \<open>Rate limits\<close>

lemma retrySeconds_ge: "retrySeconds d \<ge> 1"
  by (simp add: retrySeconds_def Let_def)

lemma retrySeconds_down:
  assumes "0 \<le> d" and "2 * (d mod second) < second"
  shows "retrySeconds d = max 1 (d div second)"
proof -
  have "d - d mod second = d div second * second" by (simp add: minus_mod_eq_div_mult)
  with assms show ?thesis by (simp add: retrySeconds_def Round_def Let_def second_def)
qed

lemma retrySeconds_up:
  assumes "0 \<le> d" and "d < 2 ^ 63 - second" and "\<not> 2 * (d mod second) < second"
  shows "retrySeconds d = d div second + 1"
proof -
  let ?e = "(d div second + 1) * second"
  have up: "d + second - d mod second = ?e" using minus_mod_eq_div_mult [of d second] by (simp add: algebra_simps)
  have "0 < second" by (simp add: second_def)
  then have "0 < d mod second" using assms(3) pos_mod_sign [of second d] by linarith
  then have small: "d + second - d mod second < 2 ^ 63 - 1" using assms(2) by linarith
  have "0 \<le> d div second" using assms(1) by (simp add: second_def)
  moreover have "?e div second = d div second + 1" by (simp add: second_def)
  ultimately show ?thesis
    using assms(1,3) small unfolding retrySeconds_def Round_def Let_def up
    by (simp add: mult_nonneg_nonneg second_def)
qed

text \<open>The wait that a refused caller is told. It is at least one second and, for a wait from half a second
  up to one second short of the longest a Duration can hold, within half a second of what the limiter
  asked for.\<close>

theorem retrySeconds_close:
  assumes "d < 2 ^ 63 - second" and "second \<le> 2 * d"
  shows "1 \<le> retrySeconds d \<and> \<bar>2 * (retrySeconds d * second - d)\<bar> \<le> second"
proof -
  have pos: "0 < second" "0 \<le> d" using assms(2) by (simp_all add: second_def)
  have split: "d = d div second * second + d mod second" by simp
  have bounds: "0 \<le> d mod second" "d mod second < second" using pos(1) by simp_all
  have "\<bar>2 * (retrySeconds d * second - d)\<bar> \<le> second"
  proof (cases "2 * (d mod second) < second")
    case True
    have "0 < d div second"
    proof (rule ccontr)
      assume "\<not> 0 < d div second"
      then have "d div second = 0" using pos pos_imp_zdiv_nonneg_iff [of second d] by linarith
      then have "d mod second = d" using split by simp
      then show False using True assms(2) by simp
    qed
    then have "retrySeconds d * second = d div second * second" using retrySeconds_down [OF pos(2) True] by simp
    then have "retrySeconds d * second - d = - (d mod second)" by (simp add: minus_div_mult_eq_mod [symmetric])
    then show ?thesis using bounds True by simp
  next
    case False
    then have "retrySeconds d * second = d div second * second + second"
      using retrySeconds_up [OF pos(2) assms(1)] by (simp add: algebra_simps)
    then have "retrySeconds d * second - d = second - d mod second" by (simp add: minus_div_mult_eq_mod [symmetric])
    then show ?thesis using bounds False by simp
  qed
  then show ?thesis using retrySeconds_ge by blast
qed

theorem retrySeconds_close_witness: "retrySeconds 1500000000 = 2"
proof -
  have "1 \<le> retrySeconds 1500000000 \<and> \<bar>2 * (retrySeconds 1500000000 * second - 1500000000)\<bar> \<le> second"
    by (rule retrySeconds_close) (simp_all add: second_def)
  then show ?thesis using retrySeconds_up [of 1500000000] by (simp add: second_def)
qed

end
