(* ===== verification/GrpcClient.thy ===== *)
theory GrpcClient
  imports RequestContext Auth
begin

text \<open>
  \<^verbatim>\<open>internal/grpcclient/client.go\<close>: outbound gRPC connections with deadlines, metadata, metrics, circuit
  breaker and retries. A call is an invoker on a state; request and reply are fixed for a call and part
  of the state. Files, certificates, the clock, the timer against the context, the circuit breaker and
  the connection itself are library code and parameters. The metrics record the status code of a call;
  its duration is left out.
\<close>

section \<open>Configuration\<close>

record TLSConfig =
  gt_Enabled :: bool
  gt_ServerName :: string
  gt_CAFile :: string
  gt_CertFile :: string
  gt_KeyFile :: string
  gt_AllowInsecureToken :: bool

type_synonym 'w invoker = "Ctx \<Rightarrow> string \<Rightarrow> ('w, err) call_err"
type_synonym 'w metrics = "string \<Rightarrow> string \<Rightarrow> 'w \<Rightarrow> 'w"  \<comment> \<open>client and status\<close>

record 'w ClientConfig =
  gc_Target :: string
  gc_Timeout :: Duration
  gc_Token :: string
  gc_PSK :: string
  gc_TLS :: TLSConfig
  gc_Name :: string
  gc_Retry :: Retry
  gc_Breaker :: Breaker
  gc_Metrics :: "'w metrics option"  \<comment> \<open>nil or disabled metrics are \<^const>\<open>None\<close>\<close>

text \<open>
  What the libraries give: \<^verbatim>\<open>os.ReadFile\<close>, \<^verbatim>\<open>AppendCertsFromPEM\<close>, \<^verbatim>\<open>tls.LoadX509KeyPair\<close>, the clock,
  and the wait until a timer or the context is done, whichever comes first. A breaker is made from its
  settings: the name, the open time, when to trip, and which results it leaves out of its counts.
\<close>

record Files =
  fs_read :: "string \<Rightarrow> err + string"
  fs_pem :: "string \<Rightarrow> bool"
  fs_keypair :: "string \<Rightarrow> string \<Rightarrow> err option"

record BreakerSettings =
  bs_Name :: string
  bs_Timeout :: Duration
  bs_ReadyToTrip :: "uint32 \<Rightarrow> bool"
  bs_IsExcluded :: "err option \<Rightarrow> bool"

record 'w ClientLib =
  cl_clock :: "'w \<Rightarrow> int \<times> 'w"
  cl_wait :: "Ctx \<Rightarrow> Duration \<Rightarrow> ('w, err) call_err"
  cl_breaker :: "BreakerSettings \<Rightarrow> ('w, err) call_err \<Rightarrow> ('w, err) call_err"

section \<open>Transport\<close>

datatype Transport =
    PlainTransport
  | TLSTransport string "string option" "(string \<times> string) option"  \<comment> \<open>server name, root CAs, client certificate\<close>

definition rootCAs :: "Files \<Rightarrow> string \<Rightarrow> string \<Rightarrow> string \<Rightarrow> err + string option" where
  "rootCAs fs readText parseText file =
     (if file = [] then Inr None
      else case fs_read fs file of
          Inl e \<Rightarrow> Inl (prefixed readText e)
        | Inr pem \<Rightarrow> if \<not> fs_pem fs pem then Inl (Plain parseText) else Inr (Some pem))"

definition transportCredentials :: "Files \<Rightarrow> TLSConfig \<Rightarrow> err + Transport" where
  "transportCredentials fs cfg =
     (if \<not> gt_Enabled cfg then Inr PlainTransport
      else case rootCAs fs ''read grpc CA'' ''parse grpc CA'' (gt_CAFile cfg) of
          Inl e \<Rightarrow> Inl e
        | Inr ca \<Rightarrow>
            if gt_CertFile cfg \<noteq> [] \<or> gt_KeyFile cfg \<noteq> [] then
              (if gt_CertFile cfg = [] \<or> gt_KeyFile cfg = []
               then Inl (Plain ''grpc client certificate and key must be configured together'')
               else case fs_keypair fs (gt_CertFile cfg) (gt_KeyFile cfg) of
                   Some e \<Rightarrow> Inl (prefixed ''load grpc client certificate'' e)
                 | None \<Rightarrow> Inr (TLSTransport (gt_ServerName cfg) ca (Some (gt_CertFile cfg, gt_KeyFile cfg))))
            else Inr (TLSTransport (gt_ServerName cfg) ca None))"

section \<open>Interceptors\<close>

type_synonym 'w client_interceptor = "'w invoker \<Rightarrow> 'w invoker"

definition timeoutInterceptor :: "'w ClientLib \<Rightarrow> Duration \<Rightarrow> 'w client_interceptor" where
  "timeoutInterceptor l timeout invoke ctx verb w =
     (if cx_deadline ctx \<noteq> None then invoke ctx verb w
      else case cl_clock l w of (now, w') \<Rightarrow> invoke (WithTimeout now timeout ctx) verb w')"

definition metadataPairs :: "string \<Rightarrow> string \<Rightarrow> Ctx \<Rightarrow> (string \<times> string) list" where
  "metadataPairs token psk ctx =
     (if token \<noteq> [] then [(''authorization'', ''Bearer '' @ token)]
      else if psk \<noteq> [] then [(''authorization'', ''PSK '' @ psk)] else [])
     @ (case RequestIDFromContext ctx of (i, ok) \<Rightarrow> if ok then [(''x-request-id'', i)] else [])
     @ (case cx_idempotency ctx of None \<Rightarrow> [] | Some key \<Rightarrow> [(''idempotency-key'', key)])"

definition metadataInterceptor :: "string \<Rightarrow> string \<Rightarrow> 'w client_interceptor" where
  "metadataInterceptor token psk invoke ctx =
     (let pairs = metadataPairs token psk ctx in
      invoke (if pairs \<noteq> [] then append_outgoing pairs ctx else ctx))"

definition clientMetricsInterceptor :: "string \<Rightarrow> 'w metrics \<Rightarrow> 'w client_interceptor" where
  "clientMetricsInterceptor name count invoke ctx verb w =
     (case invoke ctx verb w of (e, w') \<Rightarrow> (e, count name (code_name (status_code e)) w'))"

definition breakerSettings :: "string \<Rightarrow> Breaker \<Rightarrow> BreakerSettings" where
  "breakerSettings name cfg = \<lparr>bs_Name = name, bs_Timeout = breaker_OpenTimeout cfg,
     bs_ReadyToTrip = (\<lambda>failures. failures \<ge> breaker_FailureThreshold cfg),
     bs_IsExcluded = (\<lambda>e. status_code e \<noteq> CUnavailable \<and> status_code e \<noteq> CResourceExhausted
       \<and> status_code e \<noteq> CDeadlineExceeded)\<rparr>"

definition breakerInterceptor :: "'w ClientLib \<Rightarrow> string \<Rightarrow> Breaker \<Rightarrow> 'w client_interceptor" where
  "breakerInterceptor l name cfg invoke ctx verb = cl_breaker l (breakerSettings name cfg) (invoke ctx verb)"

section \<open>Retries\<close>

definition retryGRPCMethod :: "Ctx \<Rightarrow> string \<Rightarrow> string list \<Rightarrow> bool" where
  "retryGRPCMethod ctx verb patterns \<longleftrightarrow> (if cx_idempotency ctx \<noteq> None then True else MatchesAny verb patterns)"

text \<open>\<^verbatim>\<open>cfg.InitialBackoff << (attempt - 1)\<close> on 64 bits: high bits are lost.\<close>

definition shiftDuration :: "Duration \<Rightarrow> nat \<Rightarrow> Duration" where
  "shiftDuration d k = sint (push_bit k (word_of_int d :: int64))"

definition grpcDelay :: "Retry \<Rightarrow> nat \<Rightarrow> Duration" where
  "grpcDelay cfg attempt =
     (let delay = shiftDuration (retry_InitialBackoff cfg) (attempt - 1) in
      if delay > retry_MaxBackoff cfg then retry_MaxBackoff cfg else delay)"

definition waitRetry :: "'w ClientLib \<Rightarrow> Ctx \<Rightarrow> Retry \<Rightarrow> nat \<Rightarrow> ('w, err) call_err" where
  "waitRetry l ctx cfg attempt = cl_wait l ctx (grpcDelay cfg attempt)"

definition retryableCode :: "err option \<Rightarrow> bool" where
  "retryableCode e \<longleftrightarrow> status_code e = CUnavailable \<or> status_code e = CResourceExhausted"

text \<open>The loop, by the number of attempts left; the error is that of the attempt before.\<close>

fun retryLoop :: "'w ClientLib \<Rightarrow> Ctx \<Rightarrow> Retry \<Rightarrow> ('w, err) call_err \<Rightarrow> nat \<Rightarrow> nat \<Rightarrow> err option \<Rightarrow> ('w, err) call_err" where
  "retryLoop l ctx cfg call 0 attempt e w = (e, w)"
| "retryLoop l ctx cfg call (Suc left) attempt e w =
     (case call w of (e', w') \<Rightarrow>
        if \<not> retryableCode e' then (e', w')
        else if int attempt < retry_MaxAttempts cfg then
          (case waitRetry l ctx cfg attempt w' of
             (Some waitErr, w'') \<Rightarrow> (Some waitErr, w'')
           | (None, w'') \<Rightarrow> retryLoop l ctx cfg call left (Suc attempt) e' w'')
        else retryLoop l ctx cfg call left (Suc attempt) e' w')"

definition retryInterceptor :: "'w ClientLib \<Rightarrow> Retry \<Rightarrow> 'w client_interceptor" where
  "retryInterceptor l cfg invoke ctx verb w =
     (if \<not> retryGRPCMethod ctx verb (retry_Methods cfg) then invoke ctx verb w
      else retryLoop l ctx cfg (invoke ctx verb) (nat (retry_MaxAttempts cfg)) 1 None w)"

section \<open>Dial\<close>

text \<open>A connection is its target, its transport and its chain of interceptors, the first one outermost.\<close>

record 'w ClientConn =
  cc_Target :: string
  cc_Transport :: Transport
  cc_Chain :: "'w client_interceptor"

definition clientChain :: "'w ClientLib \<Rightarrow> 'w ClientConfig \<Rightarrow> 'w client_interceptor" where
  "clientChain l cfg =
     timeoutInterceptor l (gc_Timeout cfg) \<circ> metadataInterceptor (gc_Token cfg) (gc_PSK cfg)
     \<circ> (case gc_Metrics cfg of None \<Rightarrow> id | Some count \<Rightarrow> clientMetricsInterceptor (gc_Name cfg) count)
     \<circ> (if breaker_Enabled (gc_Breaker cfg) then breakerInterceptor l (gc_Name cfg) (gc_Breaker cfg) else id)
     \<circ> (if retry_MaxAttempts (gc_Retry cfg) > 1 then retryInterceptor l (gc_Retry cfg) else id)"

definition Dial :: "'w ClientLib \<Rightarrow> Files \<Rightarrow> (string \<Rightarrow> err option) \<Rightarrow> 'w ClientConfig \<Rightarrow> err + 'w ClientConn" where
  "Dial l fs newClient cfg =
     (if gc_Target cfg = [] then Inl (Plain ''grpc client target is required'')
      else if gc_Timeout cfg \<le> 0 then Inl (Plain ''grpc client timeout must be positive'')
      else case transportCredentials fs (gc_TLS cfg) of
          Inl e \<Rightarrow> Inl e
        | Inr transport \<Rightarrow>
            if gc_Token cfg \<noteq> [] \<and> \<not> gt_Enabled (gc_TLS cfg) \<and> \<not> gt_AllowInsecureToken (gc_TLS cfg)
            then Inl (Plain ''refusing to send grpc bearer token without TLS'')
            else if gc_PSK cfg \<noteq> [] \<and> gc_Token cfg \<noteq> []
            then Inl (Plain ''grpc client bearer token and PSK are mutually exclusive'')
            else if gc_PSK cfg \<noteq> [] \<and> \<not> gt_Enabled (gc_TLS cfg) \<and> \<not> gt_AllowInsecureToken (gc_TLS cfg)
            then Inl (Plain ''refusing to send grpc PSK without TLS'')
            else case newClient (gc_Target cfg) of
                Some e \<Rightarrow> Inl e
              | None \<Rightarrow> Inr \<lparr>cc_Target = gc_Target cfg, cc_Transport = transport, cc_Chain = clientChain l cfg\<rparr>)"

section \<open>How often a call is sent\<close>

text \<open>
  \<^verbatim>\<open>sent\<close> reads off a state how often requests have been transmitted. A step sends at most \<^verbatim>\<open>k\<close> times.
  The clock, the timer and the metrics transmit nothing, and a circuit breaker runs the call it guards
  once or not at all.
\<close>

definition sends :: "('w \<Rightarrow> nat) \<Rightarrow> nat \<Rightarrow> ('w \<Rightarrow> 'b \<times> 'w) \<Rightarrow> bool" where
  "sends sent k f \<longleftrightarrow> (\<forall>w. sent w \<le> sent (snd (f w)) \<and> sent (snd (f w)) \<le> sent w + k)"

definition silent_lib :: "'w ClientLib \<Rightarrow> ('w \<Rightarrow> nat) \<Rightarrow> bool" where
  "silent_lib l sent \<longleftrightarrow> sends sent 0 (cl_clock l) \<and> (\<forall>ctx d. sends sent 0 (cl_wait l ctx d))
     \<and> (\<forall>s k call. sends sent k call \<longrightarrow> sends sent k (cl_breaker l s call))"

definition silent_metrics :: "'w metrics option \<Rightarrow> ('w \<Rightarrow> nat) \<Rightarrow> bool" where
  "silent_metrics m sent \<longleftrightarrow> (case m of None \<Rightarrow> True | Some count \<Rightarrow> \<forall>name status w. sent (count name status w) = sent w)"

lemma sendsI:
  assumes "\<And>w. sent w \<le> sent (snd (f w)) \<and> sent (snd (f w)) \<le> sent w + k"
  shows "sends sent k f"
  using assms unfolding sends_def by blast

lemma sendsD:
  assumes "sends sent k f" and "f w = (r, w')"
  shows "sent w \<le> sent w'" and "sent w' \<le> sent w + k"
  using assms unfolding sends_def by (metis snd_conv)+

text \<open>An interceptor that conveys a call adds no transmission to it, for calls with one idempotency key.\<close>

locale conveys =
  fixes m :: "'w client_interceptor" and sent :: "'w \<Rightarrow> nat" and verb :: string and key :: "string option"
  assumes conveyed: "(\<And>ctx'. cx_idempotency ctx' = key \<Longrightarrow> sends sent k (f ctx' verb)) \<Longrightarrow>
    cx_idempotency ctx = key \<Longrightarrow> sends sent k (m f ctx verb)"

lemma conveys_comp:
  assumes "conveys m sent verb key" and "conveys n sent verb key"
  shows "conveys (m \<circ> n) sent verb key"
  by unfold_locales (simp add: conveys.conveyed [OF assms(1)] conveys.conveyed [OF assms(2)])

lemma conveys_id: "conveys id sent verb key"
  by unfold_locales simp

lemma timeout_conveys:
  assumes "sends sent 0 (cl_clock l)"
  shows "conveys (timeoutInterceptor l timeout) sent verb key"
proof
  fix f :: "'a invoker" and ctx :: Ctx and k
  assume f: "\<And>ctx'. cx_idempotency ctx' = key \<Longrightarrow> sends sent k (f ctx' verb)" and key: "cx_idempotency ctx = key"
  show "sends sent k (timeoutInterceptor l timeout f ctx verb)"
  proof (rule sendsI)
    fix w
    obtain now w1 where clock: "cl_clock l w = (now, w1)" by (rule prod.exhaust)
    have "sent w1 = sent w" using sendsD [OF assms clock] by simp
    moreover have "cx_idempotency (WithTimeout now timeout ctx) = key" by (simp add: WithTimeout_def key)
    ultimately show "sent w \<le> sent (snd (timeoutInterceptor l timeout f ctx verb w))
        \<and> sent (snd (timeoutInterceptor l timeout f ctx verb w)) \<le> sent w + k"
      using f [of ctx, unfolded sends_def] f [of "WithTimeout now timeout ctx", unfolded sends_def] key clock
      by (cases "cx_deadline ctx") (simp_all add: timeoutInterceptor_def, metis)
  qed
qed

lemma metadata_conveys: "conveys (metadataInterceptor token psk) sent verb key"
  by unfold_locales (simp add: metadataInterceptor_def append_outgoing_def Let_def)

lemma metrics_conveys:
  assumes "\<And>name status w. sent (count name status w) = sent w"
  shows "conveys (clientMetricsInterceptor name count) sent verb key"
proof
  fix f :: "'a invoker" and ctx :: Ctx and k
  assume "\<And>ctx'. cx_idempotency ctx' = key \<Longrightarrow> sends sent k (f ctx' verb)" and "cx_idempotency ctx = key"
  then have "sends sent k (f ctx verb)" by blast
  then show "sends sent k (clientMetricsInterceptor name count f ctx verb)"
    using assms by (simp add: sends_def clientMetricsInterceptor_def case_prod_unfold)
qed

lemma breaker_conveys:
  assumes "silent_lib l sent"
  shows "conveys (breakerInterceptor l name cfg) sent verb key"
  using assms by unfold_locales (simp add: breakerInterceptor_def [abs_def] silent_lib_def)

interpretation metadata: conveys "metadataInterceptor token psk" sent verb key for token psk sent verb key
  by (rule metadata_conveys)

lemma retryLoop_sends:
  assumes "silent_lib l sent" and "sends sent 1 call"
  shows "sends sent left (retryLoop l ctx cfg call left attempt e)"
proof (induction left arbitrary: attempt e)
  case (Suc left)
  show ?case
  proof (rule sendsI)
    fix w
    let ?r = "snd (retryLoop l ctx cfg call (Suc left) attempt e w)"
    obtain e' w' where run: "call w = (e', w')" by (rule prod.exhaust)
    note once = sendsD [OF assms(2) run]
    obtain we w2 where wait: "waitRetry l ctx cfg attempt w' = (we, w2)" by (rule prod.exhaust)
    have "sends sent 0 (waitRetry l ctx cfg attempt)" using assms(1) by (simp add: silent_lib_def waitRetry_def [abs_def])
    from sendsD [OF this wait] have same: "sent w2 = sent w'" by simp
    have again: "sent u \<le> sent (snd (retryLoop l ctx cfg call left (Suc attempt) e' u))"
        "sent (snd (retryLoop l ctx cfg call left (Suc attempt) e' u)) \<le> sent u + left" for u
      using Suc.IH [of "Suc attempt" e'] by (simp_all add: sends_def)
    define r where "r = ?r"
    consider "r = w'" | "r = w2" | "r = snd (retryLoop l ctx cfg call left (Suc attempt) e' w')"
      | "r = snd (retryLoop l ctx cfg call left (Suc attempt) e' w2)"
      unfolding r_def
      by (cases "retryableCode e'"; cases "int attempt < retry_MaxAttempts cfg"; cases we) (simp_all add: run wait)
    then show "sent w \<le> sent ?r \<and> sent ?r \<le> sent w + Suc left"
      unfolding r_def [symmetric] using once same again [of w'] again [of w2] by cases auto
  qed
qed (simp add: sends_def)

definition attempts :: "Ctx \<Rightarrow> string \<Rightarrow> Retry \<Rightarrow> nat" where
  "attempts ctx verb cfg = (if retryGRPCMethod ctx verb (retry_Methods cfg) \<and> retry_MaxAttempts cfg > 1
     then nat (retry_MaxAttempts cfg) else 1)"

lemma retry_sends:
  assumes "silent_lib l sent" and "retry_MaxAttempts cfg > 1" and "sends sent 1 (f ctx verb)"
  shows "sends sent (attempts ctx verb cfg) (retryInterceptor l cfg f ctx verb)"
proof (cases "retryGRPCMethod ctx verb (retry_Methods cfg)")
  case True
  then have "retryInterceptor l cfg f ctx verb = retryLoop l ctx cfg (f ctx verb) (nat (retry_MaxAttempts cfg)) 1 None"
    by (simp add: retryInterceptor_def fun_eq_iff)
  with True assms(2) show ?thesis using retryLoop_sends [OF assms(1,3)] by (simp add: attempts_def)
next
  case False
  then have "retryInterceptor l cfg f ctx verb = f ctx verb" by (simp add: retryInterceptor_def fun_eq_iff)
  with False assms(3) show ?thesis by (simp add: attempts_def)
qed

lemma attempts_key: "cx_idempotency ctx' = cx_idempotency ctx \<Longrightarrow> attempts ctx' verb cfg = attempts ctx verb cfg"
  by (simp add: attempts_def retryGRPCMethod_def)

lemma chain_sends:
  assumes "silent_lib l sent" and "silent_metrics (gc_Metrics cfg) sent" and "\<And>ctx. sends sent 1 (f ctx verb)"
  shows "sends sent (attempts ctx verb (gc_Retry cfg)) (clientChain l cfg f ctx verb)"
proof -
  let ?key = "cx_idempotency ctx" and ?cfg = "gc_Retry cfg"
  let ?metrics = "case gc_Metrics cfg of None \<Rightarrow> id | Some count \<Rightarrow> clientMetricsInterceptor (gc_Name cfg) count"
  let ?breaker = "if breaker_Enabled (gc_Breaker cfg) then breakerInterceptor l (gc_Name cfg) (gc_Breaker cfg) else id"
  let ?retry = "if retry_MaxAttempts ?cfg > 1 then retryInterceptor l ?cfg else id"
  have clock: "sends sent 0 (cl_clock l)" using assms(1) by (simp add: silent_lib_def)
  have "conveys ?metrics sent verb ?key"
    using assms(2) conveys_id by (auto simp: silent_metrics_def split: option.splits intro: metrics_conveys)
  moreover have "conveys ?breaker sent verb ?key" using breaker_conveys [OF assms(1)] conveys_id by auto
  ultimately have outer: "conveys (timeoutInterceptor l (gc_Timeout cfg) \<circ> metadataInterceptor (gc_Token cfg) (gc_PSK cfg)
      \<circ> ?metrics \<circ> ?breaker) sent verb ?key"
    by (intro conveys_comp timeout_conveys [OF clock] metadata.conveys_axioms)
  have "sends sent (attempts ctx verb ?cfg) (?retry f ctx' verb)" if "cx_idempotency ctx' = ?key" for ctx'
    using retry_sends [where f = f and verb = verb and ctx = ctx' and cfg = ?cfg, OF assms(1)]
      attempts_key [OF that, of verb ?cfg] assms(3) [of ctx']
    by (auto simp: attempts_def)
  from conveys.conveyed [where f = "?retry f" and ctx = ctx, OF outer this refl] show ?thesis unfolding clientChain_def by simp
qed

text \<open>C21: How often a call is sent. On a connection that was dialled a call is transmitted at most once, unless it
  carries an idempotency key or its method matches a pattern listed for retries, and then at most
  as often as the policy allows, whatever the upstream answers and whatever the breaker decides.
  So no write is repeated that the caller did not declare repeatable.\<close>

theorem call_transmissions:
  assumes "Dial l fs newClient cfg = Inr conn" and "silent_lib l sent" and "silent_metrics (gc_Metrics cfg) sent"
    and "\<And>ctx. sends sent 1 (transmit ctx verb)"
  shows "sends sent
     (if (cx_idempotency ctx \<noteq> None \<or> MatchesAny verb (retry_Methods (gc_Retry cfg))) \<and> retry_MaxAttempts (gc_Retry cfg) > 1
      then nat (retry_MaxAttempts (gc_Retry cfg)) else 1)
     (cc_Chain conn transmit ctx verb)"
proof -
  have chain: "cc_Chain conn = clientChain l cfg"
    using assms(1) by (auto simp: Dial_def split: if_splits sum.splits option.splits)
  have bound: "attempts ctx verb (gc_Retry cfg) =
      (if (cx_idempotency ctx \<noteq> None \<or> MatchesAny verb (retry_Methods (gc_Retry cfg))) \<and> retry_MaxAttempts (gc_Retry cfg) > 1
       then nat (retry_MaxAttempts (gc_Retry cfg)) else 1)"
    by (auto simp: attempts_def retryGRPCMethod_def simp del: MatchesAny.simps)
  from chain_sends [where f = transmit and verb = verb, OF assms(2-4), of ctx] show ?thesis
    unfolding chain bound .
qed

text \<open>A library on a state that counts the transmissions, an upstream that is never available, and a policy of three attempts.\<close>

definition counting_lib :: "nat ClientLib" where
  "counting_lib = \<lparr>cl_clock = (\<lambda>n. (0, n)), cl_wait = (\<lambda>ctx d n. (None, n)), cl_breaker = (\<lambda>s call. call)\<rparr>"

definition unavailable :: "nat invoker" where
  "unavailable ctx verb n = (Some (StatusError CUnavailable ''down''), Suc n)"

definition example_files :: Files where
  "example_files = \<lparr>fs_read = Inr, fs_pem = (\<lambda>_. True), fs_keypair = (\<lambda>_ _. None)\<rparr>"

definition example_client :: "nat ClientConfig" where
  "example_client = \<lparr>gc_Target = ''up:9090'', gc_Timeout = second, gc_Token = ''t'', gc_PSK = [],
     gc_TLS = \<lparr>gt_Enabled = True, gt_ServerName = [], gt_CAFile = [], gt_CertFile = [], gt_KeyFile = [],
       gt_AllowInsecureToken = False\<rparr>, gc_Name = ''up'',
     gc_Retry = \<lparr>retry_MaxAttempts = 3, retry_InitialBackoff = second, retry_MaxBackoff = 2 * second, retry_Methods = []\<rparr>,
     gc_Breaker = \<lparr>breaker_Enabled = True, breaker_FailureThreshold = 5, breaker_OpenTimeout = second\<rparr>, gc_Metrics = None\<rparr>"

lemma example_dial:
  "Dial counting_lib example_files (\<lambda>_. None) example_client = Inr \<lparr>cc_Target = ''up:9090'',
     cc_Transport = TLSTransport [] None None, cc_Chain = clientChain counting_lib example_client\<rparr>"
  by (simp add: Dial_def transportCredentials_def rootCAs_def example_client_def second_def)

theorem call_transmissions_witness:
  "sends id 3 (clientChain counting_lib example_client unavailable (WithIdempotencyKey ''k'' background) ''/s/M'')
   \<and> snd (clientChain counting_lib example_client unavailable (WithIdempotencyKey ''k'' background) ''/s/M'' 0) = 3"
proof -
  have lib: "silent_lib counting_lib id" by (simp add: silent_lib_def counting_lib_def sends_def)
  have metrics: "silent_metrics (gc_Metrics example_client) id" by (simp add: example_client_def silent_metrics_def)
  have transmit: "sends id 1 (unavailable ctx ''/s/M'')" for ctx by (simp add: sends_def unavailable_def)
  have "snd (clientChain counting_lib example_client unavailable (WithIdempotencyKey ''k'' background) ''/s/M'' 0) = 3"
    by (simp add: clientChain_def example_client_def timeoutInterceptor_def metadataInterceptor_def breakerInterceptor_def
        retryInterceptor_def retryGRPCMethod_def counting_lib_def unavailable_def retryableCode_def waitRetry_def background_def
        WithIdempotencyKey_def WithTimeout_def append_outgoing_def eval_nat_numeral Let_def)
  with call_transmissions [where transmit = unavailable and verb = "''/s/M''", OF example_dial lib metrics transmit,
      of "WithIdempotencyKey ''k'' background"]
  show ?thesis by (simp add: WithIdempotencyKey_def example_client_def)
qed

section \<open>Waiting between attempts\<close>

lemma shiftDuration_exact:
  assumes "0 \<le> d" and "d * 2 ^ k < 2 ^ 63"
  shows "shiftDuration d k = d * 2 ^ k"
proof -
  have shift: "push_bit k (word_of_int d :: int64) = word_of_int (d * 2 ^ k)" by (simp add: push_bit_eq_mult)
  have "0 \<le> d * 2 ^ k" using assms(1) by simp
  then have "signed_take_bit 63 (d * 2 ^ k) = d * 2 ^ k"
    using assms(2) by (intro signed_take_bit_int_eq_self) simp_all
  then show ?thesis unfolding shiftDuration_def shift sint_sbintrunc' by simp
qed

lemma policy_retry:
  assumes "validateClientPolicy name a r b t inProduction = None"
  shows "1 \<le> retry_MaxAttempts r" "retry_MaxAttempts r \<le> 5" "0 < retry_InitialBackoff r"
    "retry_InitialBackoff r \<le> retry_MaxBackoff r"
  using assms unfolding validateClientPolicy_None by auto

text \<open>Waiting between attempts. For a retry policy the validation accepted, with an initial wait below
  thirty-six years, the wait after attempt \<open>n\<close> is the initial one doubled \<open>n - 1\<close> times but no more
  than the maximum: the shift on 64 bits never overflows to a zero or negative wait that would make
  the retries a busy loop.\<close>

theorem grpcDelay_doubles:
  assumes "validateClientPolicy name a cfg b t inProduction = None" and "retry_InitialBackoff cfg < 2 ^ 60"
    and "1 \<le> attempt" and "int attempt < retry_MaxAttempts cfg"
  shows "grpcDelay cfg attempt = min (retry_InitialBackoff cfg * 2 ^ (attempt - 1)) (retry_MaxBackoff cfg)
    \<and> 0 < grpcDelay cfg attempt"
proof -
  note policy = policy_retry [OF assms(1)]
  have "attempt - 1 \<le> 3" using policy(2) assms(4) by linarith
  then have "(2 :: int) ^ (attempt - 1) \<le> 2 ^ 3" by (rule power_increasing) simp
  then have "retry_InitialBackoff cfg * 2 ^ (attempt - 1) \<le> retry_InitialBackoff cfg * 2 ^ 3"
    using policy(3) by (intro mult_left_mono) simp_all
  also have "\<dots> < 2 ^ 63" using assms(2) by simp
  finally have "shiftDuration (retry_InitialBackoff cfg) (attempt - 1) = retry_InitialBackoff cfg * 2 ^ (attempt - 1)"
    using policy(3) by (intro shiftDuration_exact) simp_all
  moreover have "0 < retry_InitialBackoff cfg * 2 ^ (attempt - 1)" using policy(3) by simp
  ultimately show ?thesis using policy(3,4) by (auto simp: grpcDelay_def Let_def min_def)
qed

theorem grpcDelay_doubles_witness:
  "grpcDelay \<lparr>retry_MaxAttempts = 5, retry_InitialBackoff = second, retry_MaxBackoff = 3 * second, retry_Methods = []\<rparr> 2
   = 2 * second"
proof -
  let ?cfg = "\<lparr>retry_MaxAttempts = 5, retry_InitialBackoff = second, retry_MaxBackoff = 3 * second, retry_Methods = []\<rparr>"
  let ?b = "\<lparr>breaker_Enabled = False, breaker_FailureThreshold = 0, breaker_OpenTimeout = 0\<rparr>"
  let ?t = "\<lparr>ctls_Enabled = False, ctls_AllowInsecure = False, ctls_ServerName = [], ctls_CAFile = [], ctls_CertFile = [],
    ctls_KeyFile = []\<rparr>"
  have "validateClientPolicy [] \<lparr>ca_Type = [], ca_Token = []\<rparr> ?cfg ?b ?t True = None"
    by (simp add: validateClientPolicy_def first_error_append first_error_Cons refuse_None second_def first_error_None)
  from grpcDelay_doubles [OF this, of 2] show ?thesis by (simp add: second_def)
qed

section \<open>Credentials\<close>

lemma Dial_transport:
  assumes "Dial l fs newClient cfg = Inr conn" and "gc_Token cfg \<noteq> [] \<or> gc_PSK cfg \<noteq> []"
    and "\<not> gt_AllowInsecureToken (gc_TLS cfg)"
  shows "cc_Transport conn \<noteq> PlainTransport"
proof -
  have "gt_Enabled (gc_TLS cfg)" and "transportCredentials fs (gc_TLS cfg) = Inr (cc_Transport conn)"
    using assms by (auto simp: Dial_def split: if_splits sum.splits option.splits)
  then show ?thesis by (auto simp: transportCredentials_def split: if_splits sum.splits option.splits)
qed

section \<open>What is transmitted\<close>

lemma outgoing_append: "outgoing_values (append_outgoing kvs ctx) k = outgoing_values ctx k @ map snd (filter (\<lambda>p. fst p = k) kvs)"
  by (simp add: outgoing_values_def append_outgoing_def)

text \<open>
  The context of a request on the wire, for a call made with a context: what is added to each metadata key, and
  the deadline, which is the caller's own or lies the configured timeout after some instant.
\<close>

definition added_metadata :: "'w ClientConfig \<Rightarrow> Ctx \<Rightarrow> string \<Rightarrow> string list" where
  "added_metadata cfg ctx name =
     (if name = ''authorization'' then
        (if gc_Token cfg \<noteq> [] then [''Bearer '' @ gc_Token cfg]
         else if gc_PSK cfg \<noteq> [] then [''PSK '' @ gc_PSK cfg] else [])
      else if name = ''x-request-id'' then
        (case cx_request_id ctx of Some i \<Rightarrow> if i \<noteq> [] then [i] else [] | None \<Rightarrow> [])
      else if name = ''idempotency-key'' then
        (case cx_idempotency ctx of Some key \<Rightarrow> [key] | None \<Rightarrow> [])
      else [])"

definition on_the_wire :: "'w ClientConfig \<Rightarrow> Ctx \<Rightarrow> Ctx \<Rightarrow> bool" where
  "on_the_wire cfg ctx ctx' \<longleftrightarrow>
     (case cx_deadline ctx of
        Some d \<Rightarrow> cx_deadline ctx' = Some d
      | None \<Rightarrow> \<exists>now. cx_deadline ctx' = Some (now + gc_Timeout cfg))
     \<and> (\<forall>name. outgoing_values ctx' name = outgoing_values ctx name @ added_metadata cfg ctx name)"

lemma metadata_added:
  "map snd (filter (\<lambda>p. fst p = name) (metadataPairs (gc_Token cfg) (gc_PSK cfg) ctx)) = added_metadata cfg ctx name"
  by (simp add: metadataPairs_def added_metadata_def RequestIDFromContext_def split: option.split)

lemma metadata_wire:
  fixes cfg :: "'w ClientConfig"
  assumes "case cx_deadline ctx of Some d \<Rightarrow> cx_deadline ctx1 = Some d | None \<Rightarrow> \<exists>now. cx_deadline ctx1 = Some (now + gc_Timeout cfg)"
    and "cx_outgoing ctx1 = cx_outgoing ctx"
    and "cx_request_id ctx1 = cx_request_id ctx" and "cx_idempotency ctx1 = cx_idempotency ctx"
  shows "\<exists>ctx'. on_the_wire cfg ctx ctx' \<and> (\<forall>f :: 'w invoker. metadataInterceptor (gc_Token cfg) (gc_PSK cfg) f ctx1 = f ctx')"
proof -
  let ?pairs = "metadataPairs (gc_Token cfg) (gc_PSK cfg) ctx1"
  let ?ctx = "if ?pairs \<noteq> [] then append_outgoing ?pairs ctx1 else ctx1"
  have "added_metadata cfg ctx1 = added_metadata cfg ctx"
    using assms(3,4) by (simp add: fun_eq_iff added_metadata_def)
  moreover have "outgoing_values ctx1 = outgoing_values ctx" using assms(2) by (simp add: fun_eq_iff outgoing_values_def)
  moreover have "outgoing_values ?ctx name = outgoing_values ctx1 name @ added_metadata cfg ctx1 name" for name
    unfolding metadata_added [symmetric] by (simp add: outgoing_append)
  ultimately have added: "\<forall>name. outgoing_values ?ctx name = outgoing_values ctx name @ added_metadata cfg ctx name" by metis
  have "cx_deadline ?ctx = cx_deadline ctx1" by (simp add: append_outgoing_def)
  then have "on_the_wire cfg ctx ?ctx" unfolding on_the_wire_def using assms(1) added by presburger
  then show ?thesis unfolding metadataInterceptor_def Let_def by blast
qed

lemma head_wire:
  fixes cfg :: "'w ClientConfig" and w :: 'w
  shows "\<exists>ctx' w'. on_the_wire cfg ctx ctx' \<and> (\<forall>f.
    timeoutInterceptor l (gc_Timeout cfg) (metadataInterceptor (gc_Token cfg) (gc_PSK cfg) f) ctx verb w = f ctx' verb w')"
proof (cases "cx_deadline ctx")
  case None
  obtain now w1 where clock: "cl_clock l w = (now, w1)" by (rule prod.exhaust)
  have fields: "case cx_deadline ctx of Some d \<Rightarrow> cx_deadline (WithTimeout now (gc_Timeout cfg) ctx) = Some d
        | None \<Rightarrow> \<exists>now'. cx_deadline (WithTimeout now (gc_Timeout cfg) ctx) = Some (now' + gc_Timeout cfg)"
      "cx_outgoing (WithTimeout now (gc_Timeout cfg) ctx) = cx_outgoing ctx"
      "cx_request_id (WithTimeout now (gc_Timeout cfg) ctx) = cx_request_id ctx"
      "cx_idempotency (WithTimeout now (gc_Timeout cfg) ctx) = cx_idempotency ctx"
    by (auto simp: WithTimeout_def None)
  obtain ctx' where "on_the_wire cfg ctx ctx' \<and> (\<forall>f :: 'w invoker.
      metadataInterceptor (gc_Token cfg) (gc_PSK cfg) f (WithTimeout now (gc_Timeout cfg) ctx) = f ctx')"
    using metadata_wire [OF fields] by (rule exE)
  then show ?thesis by (intro exI [of _ ctx'] exI [of _ w1]) (simp add: timeoutInterceptor_def None clock)
next
  case (Some d)
  then have "case cx_deadline ctx of Some d \<Rightarrow> cx_deadline ctx = Some d | None \<Rightarrow> \<exists>now. cx_deadline ctx = Some (now + gc_Timeout cfg)"
    by simp
  then obtain ctx' where "on_the_wire cfg ctx ctx' \<and> (\<forall>f :: 'w invoker.
      metadataInterceptor (gc_Token cfg) (gc_PSK cfg) f ctx = f ctx')"
    using metadata_wire [where ctx = ctx and ?ctx1.0 = ctx and cfg = cfg] by auto
  then show ?thesis by (intro exI [of _ ctx'] exI [of _ w]) (simp add: timeoutInterceptor_def Some)
qed


definition wire_ctx :: Ctx where
  "wire_ctx = (append_outgoing [(''authorization'', ''Bearer caller'')] background)
     \<lparr>cx_request_id := Some ''r'', cx_idempotency := Some ''k''\<rparr>"


end
