(* ===== verification/HttpClient.thy ===== *)
theory HttpClient
  imports GrpcClient "HOL-Library.Log_Nat"
begin

text \<open>
  \<^verbatim>\<open>internal/outbound/http.go\<close>: outbound HTTP clients with credentials, retries and a circuit breaker.
  URL parsing and resolution, the transport of \<^verbatim>\<open>net/http\<close>, the breaker, the timer and the clock are
  library code and parameters; the tracing of the transport is left out.
\<close>

section \<open>Requests\<close>

record URL =
  ur_Scheme :: string
  ur_Host :: string
  ur_User :: "string option"
  ur_Rest :: string

text \<open>A header maps canonical names to values; a nil header is empty.\<close>

type_synonym HTTPHeader = "string \<Rightarrow> string list"

definition header_get :: "HTTPHeader \<Rightarrow> string \<Rightarrow> string" where
  "header_get h k = (case h k of [] \<Rightarrow> [] | v # _ \<Rightarrow> v)"

record HTTPRequest =
  rq_Method :: string
  rq_URL :: URL
  rq_Header :: HTTPHeader
  rq_Body :: string

record HTTPResponse =
  rp_Status :: int
  rp_Body :: string

text \<open>
  What the libraries give. \<^verbatim>\<open>url.Parse\<close> and \<^verbatim>\<open>ResolveReference\<close>; \<^verbatim>\<open>http.NewRequestWithContext\<close>, which can
  refuse a method; \<^verbatim>\<open>client.Do\<close>; reading off and closing the body of a response; the wait for a timer
  or the context; a breaker around a call; and \<^verbatim>\<open>time.Duration(f)\<close> of a float outside the range of 64
  bits, which the language leaves to the implementation. The breaker passes errors on, among them the
  status error the client makes.
\<close>

datatype callError = StatusFailure HTTPResponse | OtherFailure err

record HTTPBreakerSettings =
  hb_Name :: string
  hb_Timeout :: Duration
  hb_ReadyToTrip :: "uint32 \<Rightarrow> bool"
  hb_IsExcluded :: "callError option \<Rightarrow> bool"

record 'w HTTPLib =
  nl_parse :: "string \<Rightarrow> err + URL"
  nl_resolve :: "URL \<Rightarrow> URL \<Rightarrow> URL"
  nl_new_request :: "string \<Rightarrow> URL \<Rightarrow> err option"
  nl_do :: "Transport \<Rightarrow> Duration \<Rightarrow> Ctx \<Rightarrow> HTTPRequest \<Rightarrow> ('w, err, HTTPResponse) call"
  nl_discard :: "HTTPResponse \<Rightarrow> 'w \<Rightarrow> 'w"
  nl_wait :: "Ctx \<Rightarrow> Duration \<Rightarrow> ('w, err) call_err"
  nl_breaker :: "HTTPBreakerSettings \<Rightarrow> ('w, callError, HTTPResponse) call \<Rightarrow> ('w, callError, HTTPResponse) call"
  nl_out_of_range :: "int \<Rightarrow> Duration"

record 'w HTTPClient =
  hc_name :: string
  hc_baseURL :: URL
  hc_transport :: Transport
  hc_cfg :: HTTPUpstream
  hc_breaker :: "HTTPBreakerSettings option"
  hc_metrics :: "'w metrics option"

section \<open>Construction\<close>

definition httpTransport :: "Files \<Rightarrow> ClientTLS \<Rightarrow> err + Transport" where
  "httpTransport fs cfg =
     (case rootCAs fs ''read outbound HTTP CA'' ''parse outbound HTTP CA'' (ctls_CAFile cfg) of
        Inl e \<Rightarrow> Inl e
      | Inr ca \<Rightarrow>
          if ctls_CertFile cfg \<noteq> []
          then (case fs_keypair fs (ctls_CertFile cfg) (ctls_KeyFile cfg) of
                  Some e \<Rightarrow> Inl (prefixed ''load outbound HTTP client certificate'' e)
                | None \<Rightarrow> Inr (TLSTransport (ctls_ServerName cfg) ca (Some (ctls_CertFile cfg, ctls_KeyFile cfg))))
          else Inr (TLSTransport (ctls_ServerName cfg) ca None))"

definition httpBreakerSettings :: "string \<Rightarrow> Breaker \<Rightarrow> HTTPBreakerSettings" where
  "httpBreakerSettings name cfg = \<lparr>hb_Name = name, hb_Timeout = breaker_OpenTimeout cfg,
     hb_ReadyToTrip = (\<lambda>failures. failures \<ge> breaker_FailureThreshold cfg),
     hb_IsExcluded = (\<lambda>e. case e of Some (OtherFailure x) \<Rightarrow> errors_is x ContextCanceled | _ \<Rightarrow> False)\<rparr>"

definition NewHTTPClient ::
    "'w HTTPLib \<Rightarrow> Files \<Rightarrow> 'w metrics option \<Rightarrow> string \<Rightarrow> HTTPUpstream \<Rightarrow> err + 'w HTTPClient" where
  "NewHTTPClient l fs metrics name cfg =
     (if ca_Type (hu_Auth cfg) \<noteq> [] \<and> \<not> ctls_Enabled (hu_TLS cfg)
      then Inl (Plain ''refusing to send outbound HTTP credentials without TLS'')
      else case nl_parse l (hu_BaseURL cfg) of
          Inl e \<Rightarrow> Inl (Plain (''parse outbound HTTP base URL '' @ quoted (hu_BaseURL cfg)))
        | Inr baseURL \<Rightarrow>
            if ur_Scheme baseURL = [] \<or> ur_Host baseURL = []
            then Inl (Plain (''parse outbound HTTP base URL '' @ quoted (hu_BaseURL cfg)))
            else case httpTransport fs (hu_TLS cfg) of
                Inl e \<Rightarrow> Inl e
              | Inr transport \<Rightarrow> Inr \<lparr>hc_name = name, hc_baseURL = baseURL, hc_transport = transport, hc_cfg = cfg,
                  hc_breaker = (if breaker_Enabled (hu_Breaker cfg) then Some (httpBreakerSettings name (hu_Breaker cfg)) else None),
                  hc_metrics = metrics\<rparr>)"

section \<open>Waiting\<close>

text \<open>
  \<^verbatim>\<open>float64(d) * math.Pow(2, k)\<close>: the conversion rounds to 53 bits, to the nearest and halfway to even;
  the product with a power of two is then exact.
\<close>

definition toFloat :: "int \<Rightarrow> int" where
  "toFloat n =
     (if \<bar>n\<bar> < 2 ^ 53 then n
      else let e = nat (bitlen \<bar>n\<bar> - 53); q = \<bar>n\<bar> div 2 ^ e; r = \<bar>n\<bar> mod 2 ^ e; half = 2 ^ (e - 1);
               m = (if r > half \<or> (r = half \<and> odd q) then q + 1 else q)
           in sgn n * (m * 2 ^ e))"

definition httpDelay :: "'w HTTPLib \<Rightarrow> Retry \<Rightarrow> nat \<Rightarrow> Duration" where
  "httpDelay l retry attempt =
     (let x = toFloat (retry_InitialBackoff retry) * 2 ^ (attempt - 1);
          delay = (if - (2 ^ 63) \<le> x \<and> x < 2 ^ 63 then x else nl_out_of_range l x) in
      if delay > retry_MaxBackoff retry then retry_MaxBackoff retry else delay)"

definition waitBackoff :: "'w HTTPLib \<Rightarrow> Ctx \<Rightarrow> Retry \<Rightarrow> nat \<Rightarrow> ('w, err) call_err" where
  "waitBackoff l ctx retry attempt = nl_wait l ctx (httpDelay l retry attempt)"

section \<open>Requests with retries\<close>

definition retryableMethod :: "Ctx \<Rightarrow> string \<Rightarrow> bool" where
  "retryableMethod ctx verb \<longleftrightarrow>
     (if verb = ''GET'' \<or> verb = ''HEAD'' \<or> verb = ''OPTIONS'' \<or> verb = ''PUT'' \<or> verb = ''DELETE'' then True
      else cx_idempotency ctx \<noteq> None)"

definition retryableHTTPStatus :: "int \<Rightarrow> bool" where
  "retryableHTTPStatus status \<longleftrightarrow> status = 429 \<or> status = 502 \<or> status = 503 \<or> status = 504"

definition applyHTTPAuth :: "ClientAuth \<Rightarrow> HTTPHeader \<Rightarrow> HTTPHeader" where
  "applyHTTPAuth a h =
     (if ca_Type a = ''bearer'' then h(''Authorization'' := [''Bearer '' @ ca_Token a])
      else if ca_Type a = ''psk'' then h(''Authorization'' := [''PSK '' @ ca_Token a])
      else h)"

definition requestHeader :: "ClientAuth \<Rightarrow> string \<Rightarrow> HTTPHeader \<Rightarrow> HTTPHeader" where
  "requestHeader a body headers =
     applyHTTPAuth a
       (if length body > 0 \<and> header_get headers ''Content-Type'' = [] then headers(''Content-Type'' := [''application/json''])
        else headers)"

text \<open>The loop, by the number of attempts left; \<^verbatim>\<open>final\<close> is the last attempt's number.\<close>

fun httpAttempts ::
    "'w HTTPLib \<Rightarrow> Ctx \<Rightarrow> Retry \<Rightarrow> ('w, err, HTTPResponse) call \<Rightarrow> err option \<Rightarrow> int \<Rightarrow> nat \<Rightarrow> nat \<Rightarrow>
     ('w, err, HTTPResponse) call" where
  "httpAttempts l ctx retry send refused final 0 attempt w = (Inl (Plain ''outbound HTTP attempts exhausted''), w)"
| "httpAttempts l ctx retry send refused final (Suc left) attempt w =
     (case refused of
        Some e \<Rightarrow> (Inl (prefixed ''create outbound HTTP request'' e), w)
      | None \<Rightarrow>
          (case send w of
             (Inr response, w1) \<Rightarrow>
               if \<not> retryableHTTPStatus (rp_Status response) \<or> int attempt = final then (Inr response, w1)
               else (let w2 = nl_discard l response w1 in
                 if int attempt < final then
                   (case waitBackoff l ctx retry attempt w2 of
                      (Some e, w3) \<Rightarrow> (Inl e, w3)
                    | (None, w3) \<Rightarrow> httpAttempts l ctx retry send refused final left (Suc attempt) w3)
                 else httpAttempts l ctx retry send refused final left (Suc attempt) w2)
           | (Inl e, w1) \<Rightarrow>
               if int attempt = final then (Inl (prefixed ''call outbound HTTP service'' e), w1)
               else if int attempt < final then
                   (case waitBackoff l ctx retry attempt w1 of
                      (Some e, w3) \<Rightarrow> (Inl e, w3)
                    | (None, w3) \<Rightarrow> httpAttempts l ctx retry send refused final left (Suc attempt) w3)
                 else httpAttempts l ctx retry send refused final left (Suc attempt) w1))"

definition doWithRetry ::
    "'w HTTPLib \<Rightarrow> 'w HTTPClient \<Rightarrow> Ctx \<Rightarrow> string \<Rightarrow> string \<Rightarrow> string \<Rightarrow> HTTPHeader \<Rightarrow> ('w, err, HTTPResponse) call" where
  "doWithRetry l c ctx verb requestPath body headers w =
     (case nl_parse l requestPath of
        Inl _ \<Rightarrow> (Inl (Plain ''outbound HTTP path must be relative''), w)
      | Inr reference \<Rightarrow>
          if ur_Scheme reference \<noteq> [] \<or> ur_Host reference \<noteq> []
          then (Inl (Plain ''outbound HTTP path must be relative''), w)
          else let target = nl_resolve l (hc_baseURL c) reference;
                   final = (if retryableMethod ctx verb then retry_MaxAttempts (hu_Retry (hc_cfg c)) else 1);
                   request = \<lparr>rq_Method = verb, rq_URL = target,
                     rq_Header = requestHeader (hu_Auth (hc_cfg c)) body headers, rq_Body = body\<rparr>
               in httpAttempts l ctx (hu_Retry (hc_cfg c)) (nl_do l (hc_transport c) (hu_Timeout (hc_cfg c)) ctx request) (nl_new_request l verb target) final (nat final) 1 w)"

definition executeHTTP ::
    "'w HTTPLib \<Rightarrow> 'w HTTPClient \<Rightarrow> Ctx \<Rightarrow> string \<Rightarrow> string \<Rightarrow> string \<Rightarrow> HTTPHeader \<Rightarrow> ('w, err, HTTPResponse) call" where
  "executeHTTP l c ctx verb requestPath body headers w =
     (case hc_breaker c of
        None \<Rightarrow> doWithRetry l c ctx verb requestPath body headers w
      | Some settings \<Rightarrow>
          (case nl_breaker l settings
             (\<lambda>w. case doWithRetry l c ctx verb requestPath body headers w of
                (Inr response, w') \<Rightarrow>
                  if retryableHTTPStatus (rp_Status response) then (Inl (StatusFailure response), w') else (Inr response, w')
              | (Inl e, w') \<Rightarrow> (Inl (OtherFailure e), w')) w of
             (Inl (StatusFailure response), w') \<Rightarrow> (Inr response, w')
           | (Inl (OtherFailure e), w') \<Rightarrow> (Inl e, w')
           | (Inr response, w') \<Rightarrow> (Inr response, w')))"

definition DoHTTP ::
    "'w HTTPLib \<Rightarrow> 'w HTTPClient \<Rightarrow> Ctx \<Rightarrow> string \<Rightarrow> string \<Rightarrow> string \<Rightarrow> HTTPHeader \<Rightarrow> ('w, err, HTTPResponse) call" where
  "DoHTTP l c ctx verb requestPath body headers w =
     (case executeHTTP l c ctx verb requestPath body headers w of (r, w') \<Rightarrow>
        (r, case hc_metrics c of
           None \<Rightarrow> w'
         | Some count \<Rightarrow> count (hc_name c) (case r of Inl _ \<Rightarrow> ''error'' | Inr response \<Rightarrow> FormatInt (rp_Status response)) w'))"

section \<open>What a call may do\<close>

text \<open>
  A relation between states with a budget: what no step uses the budget for costs nothing, and budgets
  add up along a run.
\<close>

locale budget =
  fixes R :: "nat \<Rightarrow> 'w \<Rightarrow> 'w \<Rightarrow> bool"
  assumes stay: "R 0 w w"
    and trans: "R j a b \<Longrightarrow> R k b c \<Longrightarrow> R (j + k) a c"
    and more: "R j a b \<Longrightarrow> j \<le> k \<Longrightarrow> R k a b"

definition moves :: "(nat \<Rightarrow> 'w \<Rightarrow> 'w \<Rightarrow> bool) \<Rightarrow> nat \<Rightarrow> ('w \<Rightarrow> 'b \<times> 'w) \<Rightarrow> bool" where
  "moves R k f \<longleftrightarrow> (\<forall>w. R k w (snd (f w)))"

text \<open>The libraries send nothing of their own, and a breaker runs the call it guards once or not at all.\<close>

definition quiet_lib :: "'w HTTPLib \<Rightarrow> 'w metrics option \<Rightarrow> (nat \<Rightarrow> 'w \<Rightarrow> 'w \<Rightarrow> bool) \<Rightarrow> bool" where
  "quiet_lib l metrics R \<longleftrightarrow> (\<forall>ctx d. moves R 0 (nl_wait l ctx d)) \<and> (\<forall>r w. R 0 w (nl_discard l r w))
     \<and> (\<forall>s k call. moves R k call \<longrightarrow> moves R k (nl_breaker l s call))
     \<and> (case metrics of None \<Rightarrow> True | Some count \<Rightarrow> \<forall>name status w. R 0 w (count name status w))"

lemma movesI:
  assumes "\<And>w. R k w (snd (f w))"
  shows "moves R k f"
  using assms unfolding moves_def by blast

lemma movesD:
  assumes "moves R k f" and "f w = (r, w')"
  shows "R k w w'"
  using assms unfolding moves_def by (metis snd_conv)

context budget
begin

lemma free: "R j a b \<Longrightarrow> R 0 b c \<Longrightarrow> R j a c"
  using trans [of j a b 0 c] by simp

lemma idle: "R k w w"
  using more [OF stay] by simp

lemma attempts_move:
  assumes "moves R 1 send" and "quiet_lib l metrics R"
  shows "moves R left (httpAttempts l ctx retry send refused final left attempt)"
proof (induction left arbitrary: attempt)
  case 0
  show ?case by (rule movesI) (simp add: stay)
next
  case (Suc left)
  have again: "R 1 w u \<Longrightarrow> R (Suc left) w (snd (httpAttempts l ctx retry send refused final left (Suc attempt) u))" for w u
    using trans [OF _ Suc.IH [of "Suc attempt", unfolded moves_def, rule_format, of u], of 1 w] by simp
  have done': "R 1 w u \<Longrightarrow> R (Suc left) w u" for w u by (erule more) simp
  have waited: "R 1 w u \<Longrightarrow> R (Suc left) w (snd (case waitBackoff l ctx retry attempt u of
        (Some e, w3) \<Rightarrow> (Inl e, w3)
      | (None, w3) \<Rightarrow> httpAttempts l ctx retry send refused final left (Suc attempt) w3))" for w u
  proof -
    assume step: "R 1 w u"
    obtain e w3 where wait: "waitBackoff l ctx retry attempt u = (e, w3)" by (rule prod.exhaust)
    have "R 0 u w3" using assms(2) wait by (auto simp: quiet_lib_def waitBackoff_def intro: movesD)
    with step have "R 1 w w3" by (rule free)
    then show ?thesis using again [of w w3] done' [of w w3] by (simp add: wait split: option.split)
  qed
  show ?case
  proof (rule movesI)
    fix w
    obtain r w1 where run: "send w = (r, w1)" by (rule prod.exhaust)
    have one: "R 1 w w1" using movesD [OF assms(1) run] .
    have discarded: "R 1 w (nl_discard l response w1)" for response
      using free [OF one] assms(2) by (simp add: quiet_lib_def)
    show "R (Suc left) w (snd (httpAttempts l ctx retry send refused final (Suc left) attempt w))"
    proof (cases refused)
      case (Some e)
      then show ?thesis by (simp add: idle)
    next
      case None
      then show ?thesis
        using done' [OF one] again [OF one] waited [OF one] again [OF discarded] waited [OF discarded]
        by (cases r) (simp_all only: httpAttempts.simps option.case prod.case sum.case run Let_def snd_conv split: if_split, simp_all)
    qed
  qed
qed

lemma doWithRetry_moves:
  assumes "\<And>reference. nl_parse l requestPath = Inr reference \<Longrightarrow> ur_Scheme reference = [] \<Longrightarrow> ur_Host reference = [] \<Longrightarrow>
      moves R 1 (nl_do l (hc_transport c) (hu_Timeout (hc_cfg c)) ctx
        \<lparr>rq_Method = verb, rq_URL = nl_resolve l (hc_baseURL c) reference,
          rq_Header = requestHeader (hu_Auth (hc_cfg c)) body headers, rq_Body = body\<rparr>)"
    and "quiet_lib l metrics R"
  shows "moves R (if retryableMethod ctx verb then nat (retry_MaxAttempts (hu_Retry (hc_cfg c))) else 1)
    (doWithRetry l c ctx verb requestPath body headers)"
proof (rule movesI)
  fix w
  show "R (if retryableMethod ctx verb then nat (retry_MaxAttempts (hu_Retry (hc_cfg c))) else 1) w
      (snd (doWithRetry l c ctx verb requestPath body headers w))"
  proof (cases "nl_parse l requestPath")
    case (Inl e)
    then show ?thesis by (simp add: doWithRetry_def idle)
  next
    case (Inr reference)
    let ?final = "if retryableMethod ctx verb then retry_MaxAttempts (hu_Retry (hc_cfg c)) else 1"
    show ?thesis
    proof (cases "ur_Scheme reference \<noteq> [] \<or> ur_Host reference \<noteq> []")
      case True
      then show ?thesis by (simp add: doWithRetry_def Inr idle)
    next
      case False
      then have "moves R (nat ?final) (httpAttempts l ctx (hu_Retry (hc_cfg c))
          (nl_do l (hc_transport c) (hu_Timeout (hc_cfg c)) ctx
            \<lparr>rq_Method = verb, rq_URL = nl_resolve l (hc_baseURL c) reference,
              rq_Header = requestHeader (hu_Auth (hc_cfg c)) body headers, rq_Body = body\<rparr>)
          (nl_new_request l verb (nl_resolve l (hc_baseURL c) reference)) ?final (nat ?final) 1)"
        by (intro attempts_move [OF _ assms(2)] assms(1) Inr) simp_all
      moreover have "nat ?final = (if retryableMethod ctx verb then nat (retry_MaxAttempts (hu_Retry (hc_cfg c))) else 1)" by simp
      ultimately show ?thesis using False by (simp only: doWithRetry_def Inr sum.case if_False Let_def moves_def)
    qed
  qed
qed

lemma executeHTTP_moves:
  assumes "moves R k (doWithRetry l c ctx verb requestPath body headers)" and "quiet_lib l metrics R"
  shows "moves R k (executeHTTP l c ctx verb requestPath body headers)"
proof (cases "hc_breaker c")
  case None
  then show ?thesis using assms(1) by (simp add: moves_def executeHTTP_def)
next
  case (Some settings)
  let ?call = "\<lambda>w. case doWithRetry l c ctx verb requestPath body headers w of
      (Inr response, w') \<Rightarrow>
        if retryableHTTPStatus (rp_Status response) then (Inl (StatusFailure response), w') else (Inr response, w')
    | (Inl e, w') \<Rightarrow> (Inl (OtherFailure e), w')"
  have "snd (?call w) = snd (doWithRetry l c ctx verb requestPath body headers w)" for w
    by (simp split: prod.split sum.split)
  then have "moves R k ?call" using assms(1) by (simp add: moves_def)
  then have "moves R k (nl_breaker l settings ?call)" using assms(2) by (simp add: quiet_lib_def)
  moreover have "snd (executeHTTP l c ctx verb requestPath body headers w) = snd (nl_breaker l settings ?call w)" for w
    by (simp add: executeHTTP_def Some split: prod.split sum.split callError.split)
  ultimately show ?thesis by (simp add: moves_def)
qed

lemma DoHTTP_moves:
  assumes "moves R k (doWithRetry l c ctx verb requestPath body headers)" and "quiet_lib l (hc_metrics c) R"
  shows "moves R k (DoHTTP l c ctx verb requestPath body headers)"
proof (rule movesI)
  fix w
  obtain r w1 where run: "executeHTTP l c ctx verb requestPath body headers w = (r, w1)" by (rule prod.exhaust)
  have "R k w w1" using movesD [OF executeHTTP_moves [OF assms] run] .
  then show "R k w (snd (DoHTTP l c ctx verb requestPath body headers w))"
    using assms(2) free [of k w w1] by (auto simp: DoHTTP_def run quiet_lib_def split: option.splits)
qed

end

text \<open>Two budgets: the number of calls of the transport, and an invariant that every request keeps.\<close>

definition spends :: "('w \<Rightarrow> nat) \<Rightarrow> nat \<Rightarrow> 'w \<Rightarrow> 'w \<Rightarrow> bool" where
  "spends sent k a b \<longleftrightarrow> sent a \<le> sent b \<and> sent b \<le> sent a + k"

definition keeping :: "('w \<Rightarrow> bool) \<Rightarrow> nat \<Rightarrow> 'w \<Rightarrow> 'w \<Rightarrow> bool" where
  "keeping ok k a b \<longleftrightarrow> (ok a \<longrightarrow> ok b)"

interpretation counted: budget "spends sent" for sent
  by unfold_locales (auto simp: spends_def)

interpretation kept: budget "keeping ok" for ok
  by unfold_locales (auto simp: keeping_def)

lemma NewHTTPClient_fields:
  assumes "NewHTTPClient l fs metrics name cfg = Inr c"
  shows "hc_cfg c = cfg" "hc_metrics c = metrics" "nl_parse l (hu_BaseURL cfg) = Inr (hc_baseURL c)"
    "ca_Type (hu_Auth cfg) \<noteq> [] \<Longrightarrow> ctls_Enabled (hu_TLS cfg)"
  using assms by (auto simp: NewHTTPClient_def split: if_splits sum.splits)

text \<open>C27: How often an HTTP request is handed over. A call of an outbound HTTP client calls \<^verbatim>\<open>client.Do\<close> at most as
  often as configured, and at most once if its method is not idempotent and it carries no idempotency
  key, whatever the upstream answers and whatever the breaker decides. \<^verbatim>\<open>calls\<close> counts the calls of
  \<^verbatim>\<open>client.Do\<close>, so that one of them adds one; what \<^verbatim>\<open>net/http\<close> transmits for one call, with the redirects it follows and
  the idempotent requests it replays on a lost connection, is not counted.\<close>

theorem http_transmissions:
  assumes "NewHTTPClient l fs metrics name cfg = Inr c" and "quiet_lib l metrics (spends calls)"
    and "\<And>request. moves (spends calls) 1 (nl_do l (hc_transport c) (hu_Timeout cfg) ctx request)"
  shows "moves (spends calls) (if retryableMethod ctx verb then nat (retry_MaxAttempts (hu_Retry cfg)) else 1)
    (DoHTTP l c ctx verb requestPath body headers)"
proof -
  note fields = NewHTTPClient_fields [OF assms(1)]
  have "moves (spends calls) (if retryableMethod ctx verb then nat (retry_MaxAttempts (hu_Retry (hc_cfg c))) else 1)
      (doWithRetry l c ctx verb requestPath body headers)"
    by (rule counted.doWithRetry_moves [OF _ assms(2)]) (simp only: fields(1) assms(3))
  from counted.DoHTTP_moves [OF this] assms(2) show ?thesis by (simp only: fields)
qed

text \<open>What is meant by a request to the upstream of a client, with its credentials.\<close>

definition to_upstream :: "URL \<Rightarrow> ClientAuth \<Rightarrow> HTTPRequest \<Rightarrow> bool" where
  "to_upstream base a rq \<longleftrightarrow> ur_Scheme (rq_URL rq) = ur_Scheme base \<and> ur_Host (rq_URL rq) = ur_Host base
     \<and> (ca_Type a = ''bearer'' \<longrightarrow> rq_Header rq ''Authorization'' = [''Bearer '' @ ca_Token a])
     \<and> (ca_Type a = ''psk'' \<longrightarrow> rq_Header rq ''Authorization'' = [''PSK '' @ ca_Token a])"

text \<open>C29: Where HTTP requests go. Whatever path a caller passes, every request of a call has the scheme and the
  host of the configured upstream and its configured credentials, so a path cannot send them
  elsewhere. This uses of \<^verbatim>\<open>ResolveReference\<close> that a reference without scheme, host and user keeps the scheme
  and host of the base, and one with a user only (\<^verbatim>\<open>//user@/path\<close>) has no host in the result; and of the
  transport that it transmits nothing without a host. Redirects that the transport follows on the
  upstream's word are its own.\<close>

theorem http_stays_upstream:
  assumes "NewHTTPClient l fs metrics name cfg = Inr c" and "quiet_lib l metrics (keeping ok)"
    and "\<And>base reference. ur_Scheme reference = [] \<Longrightarrow> ur_Host reference = [] \<Longrightarrow>
      ur_Scheme (nl_resolve l base reference) = ur_Scheme base
      \<and> ur_Host (nl_resolve l base reference) = (if ur_User reference = None then ur_Host base else [])"
    and "\<And>request. to_upstream (hc_baseURL c) (hu_Auth cfg) request \<or> ur_Host (rq_URL request) = [] \<Longrightarrow>
      moves (keeping ok) 1 (nl_do l (hc_transport c) (hu_Timeout cfg) ctx request)"
    and "ok w"
  shows "ok (snd (DoHTTP l c ctx verb requestPath body headers w))"
proof -
  note fields = NewHTTPClient_fields [OF assms(1)]
  have "moves (keeping ok) (if retryableMethod ctx verb then nat (retry_MaxAttempts (hu_Retry (hc_cfg c))) else 1)
      (doWithRetry l c ctx verb requestPath body headers)"
  proof (rule kept.doWithRetry_moves [OF _ assms(2)])
    fix reference :: URL
    assume "ur_Scheme reference = []" and "ur_Host reference = []"
    then have "to_upstream (hc_baseURL c) (hu_Auth cfg)
        \<lparr>rq_Method = verb, rq_URL = nl_resolve l (hc_baseURL c) reference,
          rq_Header = requestHeader (hu_Auth (hc_cfg c)) body headers, rq_Body = body\<rparr>
      \<or> ur_Host (nl_resolve l (hc_baseURL c) reference) = []"
      using assms(3) by (simp add: to_upstream_def fields(1) requestHeader_def applyHTTPAuth_def)
    then have "to_upstream (hc_baseURL c) (hu_Auth cfg)
        \<lparr>rq_Method = verb, rq_URL = nl_resolve l (hc_baseURL c) reference,
          rq_Header = requestHeader (hu_Auth (hc_cfg c)) body headers, rq_Body = body\<rparr>
      \<or> ur_Host (rq_URL \<lparr>rq_Method = verb, rq_URL = nl_resolve l (hc_baseURL c) reference,
          rq_Header = requestHeader (hu_Auth (hc_cfg c)) body headers, rq_Body = body\<rparr>) = []" by simp
    from assms(4) [OF this] show "moves (keeping ok) 1 (nl_do l (hc_transport c) (hu_Timeout (hc_cfg c)) ctx
        \<lparr>rq_Method = verb, rq_URL = nl_resolve l (hc_baseURL c) reference,
          rq_Header = requestHeader (hu_Auth (hc_cfg c)) body headers, rq_Body = body\<rparr>)"
      by (simp only: fields(1))
  qed
  from kept.DoHTTP_moves [OF this] assms(2,5) show ?thesis by (simp add: fields moves_def keeping_def)
qed

section \<open>Examples\<close>

text \<open>
  A library on the list of requests transmitted, newest first, whose upstream answers 503; URLs of an
  example scheme, host and rest.
\<close>

definition logging_lib :: "HTTPRequest list HTTPLib" where
  "logging_lib = \<lparr>
     nl_parse = (\<lambda>s. if s = ''http://up'' then Inr \<lparr>ur_Scheme = ''http'', ur_Host = ''up'', ur_User = None, ur_Rest = []\<rparr>
       else Inr \<lparr>ur_Scheme = [], ur_Host = [], ur_User = None, ur_Rest = s\<rparr>),
     nl_resolve = (\<lambda>base reference. base\<lparr>ur_Host := (if ur_User reference = None then ur_Host base else []), ur_Rest := ur_Rest reference\<rparr>),
     nl_new_request = (\<lambda>verb target. None),
     nl_do = (\<lambda>transport timeout ctx rq w. if ur_Host (rq_URL rq) = [] then (Inl (Plain ''no Host in request URL''), w) else (Inr \<lparr>rp_Status = 503, rp_Body = []\<rparr>, rq # w)),
     nl_discard = (\<lambda>r w. w), nl_wait = (\<lambda>ctx d w. (None, w)), nl_breaker = (\<lambda>s call. call),
     nl_out_of_range = (\<lambda>x. 0)\<rparr>"

definition plain_upstream :: HTTPUpstream where
  "plain_upstream = \<lparr>hu_BaseURL = ''http://up'', hu_Timeout = second, hu_Auth = \<lparr>ca_Type = ''bearer'', ca_Token = ''t''\<rparr>,
     hu_Retry = \<lparr>retry_MaxAttempts = 2, retry_InitialBackoff = second, retry_MaxBackoff = second, retry_Methods = []\<rparr>,
     hu_Breaker = \<lparr>breaker_Enabled = True, breaker_FailureThreshold = 5, breaker_OpenTimeout = second\<rparr>,
     hu_TLS = \<lparr>ctls_Enabled = True, ctls_AllowInsecure = False, ctls_ServerName = [], ctls_CAFile = [],
       ctls_CertFile = [], ctls_KeyFile = []\<rparr>\<rparr>"

definition plain_client :: "HTTPRequest list HTTPClient" where
  "plain_client = \<lparr>hc_name = ''up'', hc_baseURL = \<lparr>ur_Scheme = ''http'', ur_Host = ''up'', ur_User = None, ur_Rest = []\<rparr>,
     hc_transport = TLSTransport [] None None, hc_cfg = plain_upstream,
     hc_breaker = Some (httpBreakerSettings ''up'' (hu_Breaker plain_upstream)), hc_metrics = None\<rparr>"

lemma plain_client: "NewHTTPClient logging_lib example_files None ''up'' plain_upstream = Inr plain_client"
  by (simp add: NewHTTPClient_def httpTransport_def rootCAs_def logging_lib_def plain_upstream_def plain_client_def)

lemma logging_quiet: "(\<And>w. R 0 w w) \<Longrightarrow> quiet_lib logging_lib None R"
  by (simp add: quiet_lib_def logging_lib_def moves_def)

definition sent_request :: "string \<Rightarrow> HTTPRequest" where
  "sent_request verb = \<lparr>rq_Method = verb, rq_URL = \<lparr>ur_Scheme = ''http'', ur_Host = ''up'', ur_User = None, ur_Rest = ''/p''\<rparr>,
     rq_Header = (\<lambda>_. [])(''Authorization'' := [''Bearer t'']), rq_Body = []\<rparr>"

lemma plain_run:
  "snd (DoHTTP logging_lib plain_client background ''GET'' ''/p'' [] (\<lambda>_. []) []) = [sent_request ''GET'', sent_request ''GET'']"
  "snd (DoHTTP logging_lib plain_client background ''POST'' ''/p'' [] (\<lambda>_. []) []) = [sent_request ''POST'']"
  by (simp_all add: DoHTTP_def executeHTTP_def doWithRetry_def plain_client_def plain_upstream_def logging_lib_def
      retryableMethod_def retryableHTTPStatus_def requestHeader_def applyHTTPAuth_def waitBackoff_def sent_request_def
      background_def eval_nat_numeral Let_def)

theorem http_transmissions_witness:
  "moves (spends length) 1 (DoHTTP logging_lib plain_client background ''POST'' ''/p'' [] (\<lambda>_. []))
   \<and> length (snd (DoHTTP logging_lib plain_client background ''POST'' ''/p'' [] (\<lambda>_. []) [])) = 1"
proof -
  have "moves (spends length) 1 (nl_do logging_lib (hc_transport plain_client) (hu_Timeout plain_upstream) background rq)" for rq
    by (simp add: moves_def spends_def logging_lib_def)
  moreover have "\<not> retryableMethod background ''POST''" by (simp add: retryableMethod_def background_def)
  ultimately show ?thesis
    using http_transmissions [where ctx = background and verb = "''POST''", OF plain_client logging_quiet]
    by (simp add: counted.stay plain_run(2))
qed

theorem http_stays_upstream_witness:
  "list_all (to_upstream (hc_baseURL plain_client) (hu_Auth plain_upstream))
     (snd (DoHTTP logging_lib plain_client background ''GET'' ''/p'' [] (\<lambda>_. []) []))"
proof -
  let ?ok = "\<lambda>w. \<forall>rq \<in> set w. to_upstream (hc_baseURL plain_client) (hu_Auth plain_upstream) rq"
  have resolve: "ur_Scheme (nl_resolve logging_lib base reference) = ur_Scheme base
      \<and> ur_Host (nl_resolve logging_lib base reference) = (if ur_User reference = None then ur_Host base else [])" for base reference :: URL
    by (simp add: logging_lib_def)
  have do': "moves (keeping ?ok) 1 (nl_do logging_lib (hc_transport plain_client) (hu_Timeout plain_upstream) background rq)"
    if "to_upstream (hc_baseURL plain_client) (hu_Auth plain_upstream) rq \<or> ur_Host (rq_URL rq) = []" for rq
    using that by (auto simp: moves_def keeping_def logging_lib_def)
  show ?thesis unfolding list_all_iff
    by (rule http_stays_upstream [OF plain_client logging_quiet [of "keeping ?ok"] resolve do']) (simp_all add: keeping_def)
qed

section \<open>Credentials without TLS\<close>

text \<open>The check that credentials are only sent over TLS looks at the TLS settings and not at the scheme of the base
  URL. An upstream with TLS enabled, a bearer token and a base URL with the scheme http passes the
  production validation and the construction of the client, and its requests carry the token with the
  scheme http.\<close>

theorem http_credentials_without_tls:
  "validateHTTPUpstream True (''up'', plain_upstream) = None
   \<and> NewHTTPClient logging_lib example_files None ''up'' plain_upstream = Inr plain_client
   \<and> (\<exists>rq \<in> set (snd (DoHTTP logging_lib plain_client background ''POST'' ''/p'' [] (\<lambda>_. []) [])).
        ur_Scheme (rq_URL rq) = ''http'' \<and> rq_Header rq ''Authorization'' = [''Bearer t''])"
  unfolding plain_run(2) plain_client
  by (simp add: validateHTTPUpstream_def validateClientPolicy_def plain_upstream_def first_error_append first_error_Cons
      refuse_None first_error_None second_def sent_request_def)

end
