(* ===== verification/Wiring.thy ===== *)
theory Wiring
  imports HttpClient SearchAuth SearchService
begin

text \<open>
  \<^verbatim>\<open>internal/outbound/registry.go\<close>, \<^verbatim>\<open>internal/app/application.go\<close>, \<^verbatim>\<open>internal/app/search_access.go\<close> and
  \<^verbatim>\<open>internal/authorization/provider.go\<close>: the registry of outbound clients and what the application takes
  from it. The iteration over a Go map is over the list that stands for the map, in its order. Locks
  make each access atomic and are left out. The generated clients, the application verifier and the
  authorizer of the platform library are parameters.
\<close>

section \<open>The registry\<close>

record 'w Registry =
  rg_http :: "(string \<times> 'w HTTPClient) list"
  rg_grpc :: "(string \<times> 'w ClientConn) list"

record 'w Outlets =
  ol_http :: "'w HTTPLib"
  ol_grpc :: "'w ClientLib"
  ol_files :: Files
  ol_new_client :: "string \<Rightarrow> err option"
  ol_metrics :: "'w metrics option"
  ol_close_idle :: "'w HTTPClient \<Rightarrow> 'w \<Rightarrow> 'w"
  ol_close :: "'w ClientConn \<Rightarrow> ('w, err) call_err"

definition clientConfig :: "'w metrics option \<Rightarrow> string \<Rightarrow> GRPCUpstream \<Rightarrow> 'w ClientConfig" where
  "clientConfig metrics name u = \<lparr>gc_Target = gu_Target u, gc_Timeout = gu_Timeout u,
     gc_Token = (if ca_Type (gu_Auth u) = ''bearer'' then ca_Token (gu_Auth u) else []),
     gc_PSK = (if ca_Type (gu_Auth u) = ''psk'' then ca_Token (gu_Auth u) else []),
     gc_TLS = \<lparr>gt_Enabled = ctls_Enabled (gu_TLS u), gt_ServerName = ctls_ServerName (gu_TLS u),
       gt_CAFile = ctls_CAFile (gu_TLS u), gt_CertFile = ctls_CertFile (gu_TLS u), gt_KeyFile = ctls_KeyFile (gu_TLS u),
       gt_AllowInsecureToken = ctls_AllowInsecure (gu_TLS u)\<rparr>,
     gc_Name = name, gc_Retry = gu_Retry u, gc_Breaker = gu_Breaker u, gc_Metrics = metrics\<rparr>"

fun closeConnections :: "'w Outlets \<Rightarrow> (string \<times> 'w ClientConn) list \<Rightarrow> err option \<Rightarrow> ('w, err) call_err" where
  "closeConnections out [] closeErr w = (closeErr, w)"
| "closeConnections out ((name, connection) # rest) closeErr w =
     (case ol_close out connection w of
        (Some e, w') \<Rightarrow>
          closeConnections out rest
            (if closeErr = None then Some (prefixed (''close outbound gRPC client '' @ quoted name) e) else closeErr) w'
      | (None, w') \<Rightarrow> closeConnections out rest closeErr w')"

definition closeRegistry :: "'w Outlets \<Rightarrow> 'w Registry \<Rightarrow> ('w, err) call_err" where
  "closeRegistry out r w =
     closeConnections out (rg_grpc r) None (fold (\<lambda>(name, client). ol_close_idle out client) (rg_http r) w)"

text \<open>Building up: a client that cannot be made closes those made before.\<close>

fun addHTTP :: "'w Outlets \<Rightarrow> (string \<times> HTTPUpstream) list \<Rightarrow> 'w Registry \<Rightarrow> ('w, err, 'w Registry) call" where
  "addHTTP out [] r w = (Inr r, w)"
| "addHTTP out ((name, upstream) # rest) r w =
     (case NewHTTPClient (ol_http out) (ol_files out) (ol_metrics out) name upstream of
        Inl e \<Rightarrow> (Inl (prefixed (''create outbound HTTP client '' @ quoted name) e), snd (closeRegistry out r w))
      | Inr client \<Rightarrow> addHTTP out rest (r\<lparr>rg_http := rg_http r @ [(name, client)]\<rparr>) w)"

fun addGRPC :: "'w Outlets \<Rightarrow> (string \<times> GRPCUpstream) list \<Rightarrow> 'w Registry \<Rightarrow> ('w, err, 'w Registry) call" where
  "addGRPC out [] r w = (Inr r, w)"
| "addGRPC out ((name, upstream) # rest) r w =
     (case Dial (ol_grpc out) (ol_files out) (ol_new_client out) (clientConfig (ol_metrics out) name upstream) of
        Inl e \<Rightarrow> (Inl (prefixed (''create outbound gRPC client '' @ quoted name) e), snd (closeRegistry out r w))
      | Inr connection \<Rightarrow> addGRPC out rest (r\<lparr>rg_grpc := rg_grpc r @ [(name, connection)]\<rparr>) w)"

definition NewRegistry :: "'w Outlets \<Rightarrow> Config \<Rightarrow> ('w, err, 'w Registry) call" where
  "NewRegistry out cfg w =
     (case addHTTP out (out_HTTP (cfg_Outbound cfg)) \<lparr>rg_http = [], rg_grpc = []\<rparr> w of
        (Inl e, w') \<Rightarrow> (Inl e, w')
      | (Inr r, w') \<Rightarrow> addGRPC out (out_GRPC (cfg_Outbound cfg)) r w')"

definition RegistryHTTP :: "'w Registry \<Rightarrow> string \<Rightarrow> 'w HTTPClient option" where
  "RegistryHTTP r = map_of (rg_http r)"

definition RegistryGRPC :: "'w Registry \<Rightarrow> string \<Rightarrow> 'w ClientConn option" where
  "RegistryGRPC r = map_of (rg_grpc r)"

section \<open>What the application takes from the registry\<close>

fun disabledApplicationVerifier_Check :: "'w ApplicationAccess" where
  "disabledApplicationVerifier_Check ctx tenantID applicationIDs w =
     (Inr (fold (\<lambda>applicationID m. m(applicationID \<mapsto> \<lparr>dc_Granted = True\<rparr>)) applicationIDs Map.empty), w)"

definition newApplicationVerifier ::
    "('w ClientConn \<Rightarrow> Duration \<Rightarrow> 'w ApplicationAccess) \<Rightarrow> Config \<Rightarrow> 'w Registry option \<Rightarrow> err + 'w ApplicationAccess" where
  "newApplicationVerifier newVerifier cfg registry =
     (if \<not> os_Enabled (cfg_OpenSearch cfg) then Inr disabledApplicationVerifier_Check
      else case registry of
          None \<Rightarrow> Inl (Plain ''search service requires outbound registry'')
        | Some r \<Rightarrow>
            (case RegistryGRPC r ''application'' of
               None \<Rightarrow> Inl (Plain ''search service requires outbound.grpc.application'')
             | Some connection \<Rightarrow> Inr (newVerifier connection (2 * second))))"

text \<open>The resolver is a pointer that may be nil; a resolver has a client that may be nil.\<close>

definition newSearchAccessResolver ::
    "('w ClientConn \<Rightarrow> 'w BindingsClient) \<Rightarrow> Config \<Rightarrow> 'w Registry \<Rightarrow> err + 'w BindingsClient option option" where
  "newSearchAccessResolver newClient cfg r =
     (case RegistryGRPC r ''authorization'' of
        None \<Rightarrow>
          if app_Env (cfg_App cfg) = ''production''
          then Inl (Plain ''production search requires outbound.grpc.authorization'')
          else Inr None
      | Some connection \<Rightarrow> Inr (Some (NewResolver (Some (newClient connection)))))"

definition NewAuthorizer ::
    "('w ClientConn option \<Rightarrow> Duration \<Rightarrow> 'a) \<Rightarrow> 'w Registry \<Rightarrow> 'a" where
  "NewAuthorizer newAuthorizer r = newAuthorizer (RegistryGRPC r ''authorization'') (2 * second)"

section \<open>The registry has every configured client\<close>

lemma addHTTP_added:
  "addHTTP out us r w = (Inr r', w') \<Longrightarrow> rg_grpc r' = rg_grpc r \<and> w' = w
     \<and> (\<exists>cs. rg_http r' = rg_http r @ cs
          \<and> list_all2 (\<lambda>(n, u) (m, c). m = n \<and> NewHTTPClient (ol_http out) (ol_files out) (ol_metrics out) n u = Inr c) us cs)"
proof (induction us arbitrary: r)
  case (Cons nu us)
  obtain n u where nu: "nu = (n, u)" by (rule prod.exhaust)
  with Cons.prems obtain c where c: "NewHTTPClient (ol_http out) (ol_files out) (ol_metrics out) n u = Inr c"
    and run: "addHTTP out us (r\<lparr>rg_http := rg_http r @ [(n, c)]\<rparr>) w = (Inr r', w')"
    by (auto split: sum.splits)
  from Cons.IH [OF run] obtain cs where "rg_grpc r' = rg_grpc r" "w' = w" "rg_http r' = rg_http r @ (n, c) # cs"
    and "list_all2 (\<lambda>(n, u) (m, c). m = n \<and> NewHTTPClient (ol_http out) (ol_files out) (ol_metrics out) n u = Inr c) us cs" by auto
  then show ?case using c nu by (intro conjI exI [of _ "(n, c) # cs"]) auto
qed simp

lemma addGRPC_added:
  "addGRPC out us r w = (Inr r', w') \<Longrightarrow> rg_http r' = rg_http r \<and> w' = w
     \<and> (\<exists>cs. rg_grpc r' = rg_grpc r @ cs
          \<and> list_all2 (\<lambda>(n, u) (m, c). m = n
              \<and> Dial (ol_grpc out) (ol_files out) (ol_new_client out) (clientConfig (ol_metrics out) n u) = Inr c) us cs)"
proof (induction us arbitrary: r)
  case (Cons nu us)
  obtain n u where nu: "nu = (n, u)" by (rule prod.exhaust)
  with Cons.prems obtain c where c: "Dial (ol_grpc out) (ol_files out) (ol_new_client out) (clientConfig (ol_metrics out) n u) = Inr c"
    and run: "addGRPC out us (r\<lparr>rg_grpc := rg_grpc r @ [(n, c)]\<rparr>) w = (Inr r', w')"
    by (auto split: sum.splits)
  from Cons.IH [OF run] obtain cs where "rg_http r' = rg_http r" "w' = w" "rg_grpc r' = rg_grpc r @ (n, c) # cs"
    and "list_all2 (\<lambda>(n, u) (m, c). m = n
        \<and> Dial (ol_grpc out) (ol_files out) (ol_new_client out) (clientConfig (ol_metrics out) n u) = Inr c) us cs" by auto
  then show ?case using c nu by (intro conjI exI [of _ "(n, c) # cs"]) auto
qed simp

lemma map_of_added:
  "list_all2 (\<lambda>(n, u) (m, c). m = n \<and> P n u c) us cs \<Longrightarrow> rel_option (P n) (map_of us n) (map_of cs n)"
  by (induction us cs rule: list_all2_induct) auto

text \<open>The registry is complete. When it was built, every name has an HTTP client exactly if the configuration
  has an HTTP upstream of that name, the client made from that upstream, and likewise for gRPC
  connections; building it closed nothing.\<close>

theorem registry_complete:
  assumes "NewRegistry out cfg w = (Inr r, w')"
  shows "w' = w
    \<and> rel_option (\<lambda>u c. NewHTTPClient (ol_http out) (ol_files out) (ol_metrics out) name u = Inr c)
        (map_of (out_HTTP (cfg_Outbound cfg)) name) (RegistryHTTP r name)
    \<and> rel_option (\<lambda>u c. Dial (ol_grpc out) (ol_files out) (ol_new_client out) (clientConfig (ol_metrics out) name u) = Inr c)
        (map_of (out_GRPC (cfg_Outbound cfg)) name) (RegistryGRPC r name)"
proof -
  obtain r1 w1 where http: "addHTTP out (out_HTTP (cfg_Outbound cfg)) \<lparr>rg_http = [], rg_grpc = []\<rparr> w = (Inr r1, w1)"
    and grpc: "addGRPC out (out_GRPC (cfg_Outbound cfg)) r1 w1 = (Inr r, w')"
    using assms by (auto simp: NewRegistry_def split: prod.splits sum.splits)
  from addHTTP_added [OF http] have w1: "w1 = w" and none: "rg_grpc r1 = []"
    and clients: "list_all2 (\<lambda>(n, u) (m, c). m = n \<and> NewHTTPClient (ol_http out) (ol_files out) (ol_metrics out) n u = Inr c)
      (out_HTTP (cfg_Outbound cfg)) (rg_http r1)" by auto
  from addGRPC_added [OF grpc] none have w': "w' = w1" and kept: "rg_http r = rg_http r1"
    and connections: "list_all2 (\<lambda>(n, u) (m, c). m = n
        \<and> Dial (ol_grpc out) (ol_files out) (ol_new_client out) (clientConfig (ol_metrics out) n u) = Inr c)
      (out_GRPC (cfg_Outbound cfg)) (rg_grpc r)" by auto
  from map_of_added [OF clients, of name] map_of_added [OF connections, of name] w1 w' kept show ?thesis
    by (simp add: RegistryHTTP_def RegistryGRPC_def)
qed

lemma registry_connection:
  assumes "NewRegistry out cfg w = (Inr r, w')" and "map_of (out_GRPC (cfg_Outbound cfg)) name = Some u"
  obtains conn where "RegistryGRPC r name = Some conn"
    and "Dial (ol_grpc out) (ol_files out) (ol_new_client out) (clientConfig (ol_metrics out) name u) = Inr conn"
proof -
  obtain r1 w1 where http: "addHTTP out (out_HTTP (cfg_Outbound cfg)) \<lparr>rg_http = [], rg_grpc = []\<rparr> w = (Inr r1, w1)"
    and grpc: "addGRPC out (out_GRPC (cfg_Outbound cfg)) r1 w1 = (Inr r, w')"
    using assms(1) by (auto simp: NewRegistry_def split: prod.splits sum.splits)
  from addHTTP_added [OF http] addGRPC_added [OF grpc]
  have "list_all2 (\<lambda>(n, u) (m, c). m = n
        \<and> Dial (ol_grpc out) (ol_files out) (ol_new_client out) (clientConfig (ol_metrics out) n u) = Inr c)
      (out_GRPC (cfg_Outbound cfg)) (rg_grpc r)" by auto
  from map_of_added [OF this, of name] assms(2) that show thesis
    by (auto simp: RegistryGRPC_def elim: option.rel_cases)
qed

section \<open>Production\<close>

text \<open>C18: The wiring of production. From an accepted production configuration the application gets a resolver with a
  client of the authorization service, never the variant that trusts the token alone, and, with the
  search engine enabled, the remote application verifier, never the one that grants everything; and
  every gRPC connection with a credential uses TLS.\<close>

theorem production_wiring:
  assumes "Validate cfg = None" and "app_Env (cfg_App cfg) = ''production''" and "os_Enabled (cfg_OpenSearch cfg)"
    and "NewRegistry out cfg w = (Inr r, w')"
  shows "(\<exists>conn. RegistryGRPC r ''authorization'' = Some conn
        \<and> newSearchAccessResolver newClient cfg r = Inr (Some (Some (newClient conn))))
    \<and> (\<exists>conn. RegistryGRPC r ''application'' = Some conn
        \<and> newApplicationVerifier newVerifier cfg (Some r) = Inr (newVerifier conn (2 * second)))
    \<and> (\<forall>name u. map_of (out_GRPC (cfg_Outbound cfg)) name = Some u \<and> ca_Type (gu_Auth u) \<noteq> [] \<longrightarrow>
        (\<exists>conn. RegistryGRPC r name = Some conn \<and> cc_Transport conn \<noteq> PlainTransport))"
proof -
  have auth: "validateAuth cfg = None" and search: "validateSearch cfg = None" and prod: "production cfg"
    and policies: "\<And>name u. (name, u) \<in> set (out_GRPC (cfg_Outbound cfg)) \<Longrightarrow>
      validateClientPolicy name (gu_Auth u) (gu_Retry u) (gu_Breaker u) (gu_TLS u) True = None"
    using assms(1,2) by (auto simp: Validate_None production_def validateGRPCUpstream_None)
  note auth = auth [unfolded validateAuth_def first_error_append first_error_Cons refuse_None]
  note search = search [unfolded validateSearch_def first_error_append first_error_Cons refuse_None]
  obtain u where u: "map_of (out_GRPC (cfg_Outbound cfg)) ''authorization'' = Some u" using auth prod by auto
  from registry_connection [OF assms(4) u] obtain c1 where c1: "RegistryGRPC r ''authorization'' = Some c1" .
  obtain v where v: "map_of (out_GRPC (cfg_Outbound cfg)) ''application'' = Some v" using search assms(3) by auto
  from registry_connection [OF assms(4) v] obtain c2 where c2: "RegistryGRPC r ''application'' = Some c2" .
  have tls: "\<exists>conn. RegistryGRPC r name = Some conn \<and> cc_Transport conn \<noteq> PlainTransport"
    if at: "map_of (out_GRPC (cfg_Outbound cfg)) name = Some x" and cred: "ca_Type (gu_Auth x) \<noteq> []" for name x
  proof -
    obtain conn where conn: "RegistryGRPC r name = Some conn"
      and dial: "Dial (ol_grpc out) (ol_files out) (ol_new_client out) (clientConfig (ol_metrics out) name x) = Inr conn"
      using registry_connection [OF assms(4) at] .
    note policy = policies [OF map_of_SomeD [OF at], unfolded validateClientPolicy_None]
    have "gc_Token (clientConfig (ol_metrics out) name x) \<noteq> [] \<or> gc_PSK (clientConfig (ol_metrics out) name x) \<noteq> []"
      using policy cred by (auto simp: clientConfig_def)
    moreover have "\<not> gt_AllowInsecureToken (gc_TLS (clientConfig (ol_metrics out) name x))"
      using policy cred by (auto simp: clientConfig_def)
    ultimately show ?thesis using Dial_transport [OF dial] conn by blast
  qed
  show ?thesis
    using c1 c2 tls assms(3) by (simp add: newSearchAccessResolver_def newApplicationVerifier_def NewResolver_def)
qed

definition example_outlets :: "HTTPRequest list Outlets" where
  "example_outlets = \<lparr>ol_http = logging_lib,
     ol_grpc = \<lparr>cl_clock = (\<lambda>w. (0, w)), cl_wait = (\<lambda>ctx d w. (None, w)), cl_breaker = (\<lambda>s call. call)\<rparr>,
     ol_files = example_files, ol_new_client = (\<lambda>_. None), ol_metrics = None, ol_close_idle = (\<lambda>c w. w), ol_close = (\<lambda>c w. (None, w))\<rparr>"

lemma example_registry:
  "\<exists>r. NewRegistry example_outlets example_config [] = (Inr r, []) \<and> map fst (rg_grpc r) = [''authorization'', ''application'']"
  by (simp add: NewRegistry_def example_config_def example_upstream_def clientConfig_def Dial_def transportCredentials_def
      rootCAs_def example_outlets_def second_def)

theorem registry_complete_witness:
  "\<exists>r conn. NewRegistry example_outlets example_config [] = (Inr r, []) \<and> RegistryGRPC r ''application'' = Some conn
     \<and> RegistryHTTP r ''application'' = None"
proof -
  obtain r where run: "NewRegistry example_outlets example_config [] = (Inr r, [])"
    using example_registry by (elim exE conjE)
  have "map_of (out_GRPC (cfg_Outbound example_config)) ''application'' = Some example_upstream"
      "map_of (out_HTTP (cfg_Outbound example_config)) ''application'' = None"
    by (simp_all add: example_config_def)
  with registry_complete [OF run, of "''application''"] run show ?thesis by (auto elim: option.rel_cases)
qed

theorem production_wiring_witness:
  "\<exists>r conn. NewRegistry example_outlets example_config [] = (Inr r, [])
     \<and> newSearchAccessResolver (\<lambda>conn ctx rq w. (Inr \<lparr>bp_Bindings = [], bp_Total = None\<rparr>, w)) example_config r
       = Inr (Some (Some (\<lambda>ctx rq w. (Inr \<lparr>bp_Bindings = [], bp_Total = None\<rparr>, w))))
     \<and> newApplicationVerifier (\<lambda>conn timeout ctx tenantID ids w. (Inr Map.empty, w)) example_config (Some r)
       = Inr (\<lambda>ctx tenantID ids w. (Inr Map.empty, w))"
proof -
  obtain r where run: "NewRegistry example_outlets example_config [] = (Inr r, [])"
    using example_registry by (elim exE conjE)
  have prod: "app_Env (cfg_App example_config) = ''production''" and search: "os_Enabled (cfg_OpenSearch example_config)"
    by (simp_all add: example_config_def)
  from production_wiring [OF example_config_valid prod search run] run show ?thesis by auto
qed

section \<open>Insecure HTTP upstreams\<close>

definition insecure_upstream :: HTTPUpstream where
  "insecure_upstream = plain_upstream\<lparr>hu_TLS := \<lparr>ctls_Enabled = False, ctls_AllowInsecure = True, ctls_ServerName = [],
     ctls_CAFile = [], ctls_CertFile = [], ctls_KeyFile = []\<rparr>\<rparr>"

definition insecure_config :: Config where
  "insecure_config = setDefaults\<lparr>cfg_Outbound := \<lparr>out_HTTP = [(''up'', insecure_upstream)], out_GRPC = []\<rparr>\<rparr>"

lemma insecure_valid: "Validate insecure_config = None"
proof -
  have "Validate setDefaults = None" using defaults_development_only by blast
  then have "validateServers insecure_config = None" "validateStorage insecure_config = None"
      "validateRateLimit insecure_config = None" "validateOperations insecure_config = None"
      "validateAuth insecure_config = None" "validateSearch insecure_config = None"
      "validateEventBus (cfg_EventBus insecure_config) = None"
    unfolding Validate_None
    by (simp_all add: insecure_config_def validateServers_def validateStorage_def validateRateLimit_def
        validateOperations_def validateAuth_def validateSearch_def production_def first_error_None setDefaults_def)
  moreover have "validateHTTPUpstream b (''up'', insecure_upstream) = None" if "\<not> b" for b
    using that by (simp add: validateHTTPUpstream_None validateClientPolicy_None insecure_upstream_def plain_upstream_def second_def)
  moreover have "\<not> production insecure_config" by (simp add: insecure_config_def setDefaults_def production_def)
  ultimately show ?thesis unfolding Validate_None by (simp add: insecure_config_def)
qed

text \<open>Development credentials over HTTP. A configuration with an HTTP upstream that has credentials, no TLS and
  the explicit \<^verbatim>\<open>allow_insecure\<close> is accepted, but the registry of clients can never be built from it:
  the construction of the HTTP client does not know the setting and refuses, whatever the libraries
  answer. The same policy makes a gRPC connection.\<close>

theorem insecure_http_upstream_refused:
  "Validate insecure_config = None
   \<and> fst (NewRegistry out insecure_config w)
     = Inl (prefixed (''create outbound HTTP client '' @ quoted ''up'')
         (Plain ''refusing to send outbound HTTP credentials without TLS''))
   \<and> (\<exists>conn. Dial (ol_grpc out) fs (\<lambda>_. None) (clientConfig None ''up''
         (example_upstream\<lparr>gu_TLS := hu_TLS insecure_upstream\<rparr>)) = Inr conn)"
proof -
  have "NewHTTPClient l fs m n insecure_upstream = Inl (Plain ''refusing to send outbound HTTP credentials without TLS'')"
    for l :: "'a HTTPLib" and fs m n
    by (simp add: NewHTTPClient_def insecure_upstream_def plain_upstream_def)
  moreover have "out_HTTP (cfg_Outbound insecure_config) = [(''up'', insecure_upstream)]" by (simp add: insecure_config_def)
  moreover have "Dial (ol_grpc out) fs (\<lambda>_. None) (clientConfig None ''up'' (example_upstream\<lparr>gu_TLS := hu_TLS insecure_upstream\<rparr>))
      = Inr \<lparr>cc_Target = ''dns:///authorization:9090'', cc_Transport = PlainTransport,
          cc_Chain = clientChain (ol_grpc out) (clientConfig None ''up'' (example_upstream\<lparr>gu_TLS := hu_TLS insecure_upstream\<rparr>))\<rparr>"
    by (simp add: Dial_def transportCredentials_def clientConfig_def example_upstream_def insecure_upstream_def second_def)
  ultimately show ?thesis using insecure_valid by (simp add: NewRegistry_def)
qed

end
