(* ===== verification/Database.thy ===== *)
theory Database
  imports ConfigLoad Messages
begin

text \<open>
  \<^verbatim>\<open>internal/database\<close>: opening the connection pool and running a function in a transaction. The
  drivers, \<^verbatim>\<open>database/sql\<close> and the time zone data are parameters.
\<close>

section \<open>Opening\<close>

definition driverName :: "string \<Rightarrow> err + string" where
  "driverName dbType =
     (if dbType = ''mysql'' then Inr ''mysql''
      else if dbType = ''postgres'' \<or> dbType = ''kingbase'' then Inr ''pgx''
      else Inl (Plain (''unsupported database type '' @ quoted dbType)))"

record PgxConfig =
  pg_Database :: string
  pg_RuntimeParams :: "string \<rightharpoonup> string"
  pg_Rest :: string

record MySQLConfig =
  my_DBName :: string
  my_ParseTime :: bool
  my_Loc :: string
  my_Rest :: string

text \<open>A pool: what was opened, and the settings of the pool.\<close>

datatype Source = PgxSource PgxConfig | DriverSource string string

record Pool =
  po_Source :: Source
  po_MaxOpenConns :: int
  po_MaxIdleConns :: int
  po_ConnMaxLifetime :: Duration
  po_ConnMaxIdleTime :: Duration

record 'w DBLib =
  dl_parse_pgx :: "string \<Rightarrow> err + PgxConfig"
  dl_parse_mysql :: "string \<Rightarrow> err + MySQLConfig"
  dl_format_mysql :: "MySQLConfig \<Rightarrow> string"
  dl_load_location :: "string \<Rightarrow> err option"
  dl_open :: "string \<Rightarrow> string \<Rightarrow> err option"
  dl_ping :: "Pool \<Rightarrow> Ctx \<Rightarrow> Duration \<Rightarrow> ('w, err) call_err"
  dl_close :: "Pool \<Rightarrow> 'w \<Rightarrow> 'w"

definition timezone :: string where "timezone = ''Asia/Shanghai''"

definition openSource :: "'w DBLib \<Rightarrow> Database \<Rightarrow> string \<Rightarrow> err + Source" where
  "openSource l cfg driver =
     (if driver = ''pgx'' then
        (case dl_parse_pgx l (db_DSN cfg) of
           Inl e \<Rightarrow> Inl (prefixed ''parse database dsn'' e)
         | Inr c \<Rightarrow>
             (let c1 = (if db_Name cfg \<noteq> [] then c\<lparr>pg_Database := db_Name cfg\<rparr> else c);
                  p1 = (if db_Schema cfg \<noteq> [] then (pg_RuntimeParams c1)(''search_path'' \<mapsto> db_Schema cfg) else pg_RuntimeParams c1)
              in Inr (PgxSource (c1\<lparr>pg_RuntimeParams := p1(''timezone'' \<mapsto> timezone)\<rparr>))))
      else if driver = ''mysql'' then
        (case dl_parse_mysql l (db_DSN cfg) of
           Inl e \<Rightarrow> Inl (prefixed ''parse database dsn'' e)
         | Inr c \<Rightarrow>
             (let c1 = (if db_Name cfg \<noteq> [] then c\<lparr>my_DBName := db_Name cfg\<rparr> else c) in
              case dl_load_location l timezone of
                Some e \<Rightarrow> Inl (prefixed ''load database timezone'' e)
              | None \<Rightarrow>
                  (let dsn = dl_format_mysql l (c1\<lparr>my_ParseTime := True, my_Loc := timezone\<rparr>) in
                   case dl_open l driver dsn of
                     Some e \<Rightarrow> Inl (prefixed ''open database'' e)
                   | None \<Rightarrow> Inr (DriverSource driver dsn))))
      else
        (case dl_open l driver (db_DSN cfg) of
           Some e \<Rightarrow> Inl (prefixed ''open database'' e)
         | None \<Rightarrow> Inr (DriverSource driver (db_DSN cfg))))"

definition OpenDatabase :: "'w DBLib \<Rightarrow> Ctx \<Rightarrow> Database \<Rightarrow> ('w, err, Pool) call" where
  "OpenDatabase l ctx cfg w =
     (case driverName (db_Type cfg) of
        Inl e \<Rightarrow> (Inl e, w)
      | Inr driver \<Rightarrow>
          (case openSource l cfg driver of
             Inl e \<Rightarrow> (Inl e, w)
           | Inr source \<Rightarrow>
               (let db = \<lparr>po_Source = source, po_MaxOpenConns = db_MaxOpenConns cfg, po_MaxIdleConns = db_MaxIdleConns cfg,
                      po_ConnMaxLifetime = db_ConnMaxLifetime cfg, po_ConnMaxIdleTime = db_ConnMaxIdleTime cfg\<rparr> in
                case dl_ping l db ctx (db_PingTimeout cfg) w of
                  (Some e, w') \<Rightarrow> (Inl (prefixed ''ping database'' e), dl_close l db w')
                | (None, w') \<Rightarrow> (Inr db, w'))))"

lemma isDBType_driver: "isDBType t \<longleftrightarrow> (\<exists>driver. driverName t = Inr driver)"
  by (simp add: isDBType_def driverName_def)

section \<open>Transactions\<close>

record 'w Transactions =
  tx_begin :: "('w, err) call_err"
  tx_commit :: "('w, err) call_err"
  tx_rollback :: "('w, err) call_err"

definition Available :: "'w Transactions option \<Rightarrow> bool" where
  "Available db \<longleftrightarrow> db \<noteq> None"

text \<open>The function runs on the transaction, as a part of the state. The text of its error is kept with \<^verbatim>\<open>%v\<close>.\<close>

definition Within :: "'w Transactions option \<Rightarrow> ('w, err) call_err \<Rightarrow> ('w, err) call_err" where
  "Within db fn w =
     (case db of
        None \<Rightarrow> (Some (Plain ''begin transaction: database is disabled''), w)
      | Some t \<Rightarrow>
          (case tx_begin t w of
             (Some e, w1) \<Rightarrow> (Some (prefixed ''begin transaction'' e), w1)
           | (None, w1) \<Rightarrow>
               (case fn w1 of
                  (Some e, w2) \<Rightarrow>
                    (case tx_rollback t w2 of
                       (Some r, w3) \<Rightarrow> (Some (prefixed (''rollback transaction after '' @ err_text e) r), w3)
                     | (None, w3) \<Rightarrow> (Some e, w3))
                | (None, w2) \<Rightarrow>
                    (case tx_commit t w2 of
                       (Some e, w3) \<Rightarrow> (Some (prefixed ''commit transaction'' e), w3)
                     | (None, w3) \<Rightarrow> (None, w3)))))"

text \<open>
  A database that is transactional: beginning makes a pending copy of the committed data, a rollback
  leaves the committed data alone, a commit that succeeds publishes the pending data, and one that
  fails publishes all of it or nothing.
\<close>

definition transactional :: "'w Transactions \<Rightarrow> ('w \<Rightarrow> 'd) \<Rightarrow> ('w \<Rightarrow> 'd) \<Rightarrow> bool" where
  "transactional t committed pending \<longleftrightarrow>
     (\<forall>w. committed (snd (tx_begin t w)) = committed w
        \<and> (fst (tx_begin t w) = None \<longrightarrow> pending (snd (tx_begin t w)) = committed w)
        \<and> committed (snd (tx_rollback t w)) = committed w
        \<and> (fst (tx_commit t w) = None \<longrightarrow> committed (snd (tx_commit t w)) = pending w)
        \<and> (committed (snd (tx_commit t w)) = pending w \<or> committed (snd (tx_commit t w)) = committed w))"

text \<open>C26: Transactions. For a function that touches the committed data only through its transaction, either all of
  its effect is committed, from the data at the start and after the function itself succeeded, or
  nothing is; if no error is reported it was committed, and if the function failed it was not.\<close>

theorem Within_atomic:
  assumes "transactional t committed pending" and "\<And>w. committed (snd (fn w)) = committed w"
    and "Within (Some t) fn w = (e, w')"
  shows "(\<exists>w1 w2. tx_begin t w = (None, w1) \<and> pending w1 = committed w \<and> fn w1 = (None, w2) \<and> committed w' = pending w2)
    \<or> (e \<noteq> None \<and> committed w' = committed w)"
proof -
  obtain b w1 where start: "tx_begin t w = (b, w1)" by (rule prod.exhaust)
  have begun: "committed w1 = committed w" "b = None \<Longrightarrow> pending w1 = committed w"
    using assms(1) start unfolding transactional_def by (metis fst_conv snd_conv)+
  show ?thesis
  proof (cases b)
    case (Some x)
    then show ?thesis using assms(3) begun by (auto simp: Within_def start)
  next
    case None
    obtain r w2 where run: "fn w1 = (r, w2)" by (rule prod.exhaust)
    have kept: "committed w2 = committed w" using assms(2) [of w1] run begun by simp
    show ?thesis
    proof (cases r)
      case (Some x)
      obtain q w3 where undo: "tx_rollback t w2 = (q, w3)" by (rule prod.exhaust)
      have "committed w3 = committed w2" using assms(1) undo unfolding transactional_def by (metis snd_conv)
      then show ?thesis using assms(3) kept by (cases q) (auto simp: Within_def start None run Some undo)
    next
      case done': None
      obtain q w3 where publish: "tx_commit t w2 = (q, w3)" by (rule prod.exhaust)
      have "q = None \<Longrightarrow> committed w3 = pending w2" "committed w3 = pending w2 \<or> committed w3 = committed w2"
        using assms(1) publish unfolding transactional_def by (metis fst_conv snd_conv)+
      moreover have "w' = w3" "e = None \<longleftrightarrow> q = None" using assms(3) by (auto simp: Within_def start None run done' publish split: option.splits)
      ultimately show ?thesis using begun(2) [OF None] run done' kept start None by auto
    qed
  qed
qed

text \<open>A database of one number, whose pending copy is beside the committed one, and which refuses to commit 13.\<close>

definition number_db :: "(int \<times> int) Transactions" where
  "number_db = \<lparr>tx_begin = (\<lambda>(c, p). (None, (c, c))),
     tx_commit = (\<lambda>(c, p). if p = 13 then (Some (Plain ''constraint''), (c, p)) else (None, (p, p))),
     tx_rollback = (\<lambda>(c, p). (None, (c, c)))\<rparr>"

theorem Within_atomic_witness:
  "Within (Some number_db) (\<lambda>(c, p). (None, (c, p + 1))) (4, 0) = (None, (5, 5))
   \<and> (\<exists>w1 w2. tx_begin number_db (4, 0) = (None, w1) \<and> snd w1 = 4 \<and> (None :: err option, (fst w1, snd w1 + 1)) = (None, w2) \<and> 5 = snd w2)"
proof -
  have law: "transactional number_db fst snd" by (simp add: transactional_def number_db_def split: prod.split)
  have run: "Within (Some number_db) (\<lambda>(c, p). (None, (c, p + 1))) (4, 0) = (None, (5, 5))"
    by (simp add: Within_def number_db_def)
  from Within_atomic [OF law _ run] run show ?thesis by (auto split: prod.splits)
qed

end
