(* ===== verification/Migration.thy ===== *)
theory Migration
  imports Database
begin

text \<open>
  \<^verbatim>\<open>internal/migration\<close> and \<^verbatim>\<open>cmd/migrate\<close>: the database URL of a migration, the creation of its schema,
  and running it. URL parsing, the file system, \<^verbatim>\<open>database/sql\<close> and the migrate library are parameters.
\<close>

section \<open>The database URL\<close>

text \<open>\<^verbatim>\<open>url.QueryEscape\<close>, byte by byte.\<close>

definition escapeByte :: "char \<Rightarrow> string" where
  "escapeByte c =
     (if alnum c \<or> c \<in> set ''-_.~'' then [c]
      else if c = CHR '' '' then ''+''
      else [CHR ''%'', hex_upper (of_char c div 16), hex_upper (of_char c mod 16)])"

definition QueryEscape :: "string \<Rightarrow> string" where
  "QueryEscape s = concat (map escapeByte s)"

text \<open>\<^verbatim>\<open>strings.LastIndex(s, "/")\<close>: the part before the last slash, if there is one.\<close>

definition beforeLastSlash :: "string \<Rightarrow> string option" where
  "beforeLastSlash s =
     (if CHR ''/'' \<in> set s then Some (rev (tl (dropWhile (\<lambda>c. c \<noteq> CHR ''/'') (rev s)))) else None)"

record PURL =
  pl_Path :: string
  pl_Query :: "string \<Rightarrow> string list"
  pl_Rest :: string

text \<open>The library parses a URL with its query, and prints it with the query encoded.\<close>

record URLLib =
  ul_parse :: "string \<Rightarrow> err + PURL"
  ul_String :: "PURL \<Rightarrow> string"

definition mysqlURL :: "string \<Rightarrow> string \<Rightarrow> string \<Rightarrow> err + string" where
  "mysqlURL databaseURL databaseName table =
     (let named = (if databaseName = [] then Inr databaseURL
        else let path = takeWhile (\<lambda>c. c \<noteq> CHR ''?'') databaseURL;
                 query = dropWhile (\<lambda>c. c \<noteq> CHR ''?'') databaseURL
             in case beforeLastSlash path of
                 None \<Rightarrow> Inl (Plain ''mysql migration URL is missing database path'')
               | Some before \<Rightarrow> Inr (before @ ''/'' @ databaseName @ query))
      in case named of
          Inl e \<Rightarrow> Inl e
        | Inr u \<Rightarrow>
            if table = [] then Inr u
            else Inr (u @ (if CHR ''?'' \<in> set u then ''&'' else ''?'') @ ''x-migrations-table='' @ QueryEscape table))"

definition withMigrationOptions :: "URLLib \<Rightarrow> string \<Rightarrow> string \<Rightarrow> string \<Rightarrow> string \<Rightarrow> err + string" where
  "withMigrationOptions l databaseURL databaseName table schema =
     (if databaseName = [] \<and> table = [] \<and> schema = [] then Inr databaseURL
      else if HasPrefix databaseURL ''mysql://'' then mysqlURL databaseURL databaseName table
      else case ul_parse l databaseURL of
          Inl e \<Rightarrow> Inl (prefixed ''parse migration database URL'' e)
        | Inr parsed \<Rightarrow>
            (let p1 = (if databaseName \<noteq> [] then parsed\<lparr>pl_Path := ''/'' @ databaseName\<rparr> else parsed);
                 q1 = (if table \<noteq> [] then (pl_Query p1)(''x-migrations-table'' := [table]) else pl_Query p1);
                 q2 = (if schema \<noteq> [] then q1(''search_path'' := [schema]) else q1)
             in Inr (ul_String l (p1\<lparr>pl_Query := q2\<rparr>))))"

section \<open>Creating the schema\<close>

record 'w SQLLib =
  sq_open :: "string \<Rightarrow> ('w, err) call_err"
  sq_close :: "'w \<Rightarrow> 'w"
  sq_begin :: "('w, err) call_err"
  sq_exec :: "string \<Rightarrow> string list \<Rightarrow> ('w, err) call_err"
  sq_commit :: "('w, err) call_err"
  sq_rollback :: "'w \<Rightarrow> 'w"  \<comment> \<open>its error is dropped\<close>

definition validSchema :: "string \<Rightarrow> bool" where
  "validSchema s \<longleftrightarrow> validMigrationTable s"

definition schemaStatement :: "string \<Rightarrow> string" where
  "schemaStatement schema = ''CREATE SCHEMA IF NOT EXISTS '' @ [CHR 0x22] @ schema @ [CHR 0x22]"

definition lockStatement :: string where
  "lockStatement = ''SELECT pg_advisory_xact_lock(hashtext($1))''"

text \<open>The deferred rollback runs on every error after the transaction began.\<close>

definition createSchema :: "'w SQLLib \<Rightarrow> string \<Rightarrow> ('w, err) call_err" where
  "createSchema s schema w =
     (case sq_begin s w of
        (Some e, w1) \<Rightarrow> (Some (prefixed ''begin schema creation'' e), w1)
      | (None, w1) \<Rightarrow>
          (case (case sq_exec s lockStatement [''search-service:schema:'' @ schema] w1 of
                   (Some e, w2) \<Rightarrow> (Some (prefixed ''lock schema creation'' e), w2)
                 | (None, w2) \<Rightarrow>
                     (case sq_exec s (schemaStatement schema) [] w2 of
                        (Some e, w3) \<Rightarrow> (Some (prefixed ''execute schema creation'' e), w3)
                      | (None, w3) \<Rightarrow>
                          (case sq_commit s w3 of
                             (Some e, w4) \<Rightarrow> (Some (prefixed ''commit schema creation'' e), w4)
                           | (None, w4) \<Rightarrow> (None, w4)))) of
             (Some e, w5) \<Rightarrow> (Some e, sq_rollback s w5)
           | (None, w5) \<Rightarrow> (None, w5)))"

definition ensureSchema :: "URLLib \<Rightarrow> 'w SQLLib \<Rightarrow> Migration \<Rightarrow> string \<Rightarrow> ('w, err) call_err" where
  "ensureSchema l s cfg databaseURL w =
     (if \<not> mig_CreateSchema cfg \<or> mig_Schema cfg = [] \<or> HasPrefix (mig_DatabaseURL cfg) ''mysql://'' then (None, w)
      else if \<not> validSchema (mig_Schema cfg) then (Some (Plain ''invalid migration schema''), w)
      else case ul_parse l databaseURL of
          Inl e \<Rightarrow> (Some (prefixed ''parse database URL for schema creation'' e), w)
        | Inr parsed \<Rightarrow>
            (case sq_open s (ul_String l (parsed\<lparr>pl_Query := (pl_Query parsed)(''x-migrations-table'' := [])\<rparr>)) w of
               (Some e, w1) \<Rightarrow> (Some (prefixed ''open database to create schema'' e), w1)
             | (None, w1) \<Rightarrow>
                 (case createSchema s (mig_Schema cfg) w1 of
                    (Some e, w2) \<Rightarrow> (Some (prefixed (''create migration schema '' @ quoted (mig_Schema cfg)) e), sq_close s w2)
                  | (None, w2) \<Rightarrow> (None, sq_close s w2))))"

section \<open>Running\<close>

text \<open>
  The result of \<^verbatim>\<open>Run\<close> is a list of errors, nil if it is empty: \<^verbatim>\<open>errors.Join\<close> in the deferred function
  adds those of closing.
\<close>

record 'w MigrateLib =
  ml_abs :: "string \<Rightarrow> err + string"
  ml_source :: "string \<Rightarrow> string"
  ml_new :: "string \<Rightarrow> string \<Rightarrow> ('w, err) call_err"
  ml_steps :: "int \<Rightarrow> ('w, err) call_err"
  ml_down :: "('w, err) call_err"
  ml_up :: "('w, err) call_err"
  ml_close :: "'w \<Rightarrow> (err option \<times> err option) \<times> 'w"

definition ErrNoChange :: sentinel where "ErrNoChange = External ''no change''"

definition closeErrors :: "err option \<times> err option \<Rightarrow> err list" where
  "closeErrors es = (case fst es of None \<Rightarrow> [] | Some e \<Rightarrow> [prefixed ''close migration source'' e])
     @ (case snd es of None \<Rightarrow> [] | Some e \<Rightarrow> [prefixed ''close migration database'' e])"

definition runMigration ::
    "URLLib \<Rightarrow> 'w SQLLib \<Rightarrow> 'w MigrateLib \<Rightarrow> Migration \<Rightarrow> string \<Rightarrow> int \<Rightarrow> 'w \<Rightarrow> err list \<times> 'w" where
  "runMigration l s m cfg direction steps w =
     (if mig_DatabaseURL cfg = [] then ([Plain ''migration.database_url is required''], w)
      else case ml_abs m (mig_Path cfg) of
          Inl e \<Rightarrow> ([prefixed ''resolve migration path'' e], w)
        | Inr absPath \<Rightarrow>
            (case withMigrationOptions l (mig_DatabaseURL cfg) (mig_DatabaseName cfg) (mig_Table cfg) (mig_Schema cfg) of
               Inl e \<Rightarrow> ([e], w)
             | Inr databaseURL \<Rightarrow>
                 (case ensureSchema l s cfg databaseURL w of
                    (Some e, w1) \<Rightarrow> ([e], w1)
                  | (None, w1) \<Rightarrow>
                      (case ml_new m (ml_source m absPath) databaseURL w1 of
                         (Some e, w2) \<Rightarrow> ([prefixed ''create migrator'' e], w2)
                       | (None, w2) \<Rightarrow>
                           (case (if steps \<noteq> 0 then ml_steps m steps w2
                                  else if direction = ''down'' then ml_down m w2 else ml_up m w2) of
                              (r, w3) \<Rightarrow>
                                (case ml_close m w3 of
                                   (es, w4) \<Rightarrow>
                                     ((case r of
                                         None \<Rightarrow> []
                                       | Some e \<Rightarrow> if \<not> errors_is e ErrNoChange then [prefixed ''run migration'' e] else [])
                                      @ closeErrors es, w4)))))))"

text \<open>\<^verbatim>\<open>cmd/migrate\<close>: the exit code, given the configuration that was loaded.\<close>

definition migrateMain ::
    "URLLib \<Rightarrow> 'w SQLLib \<Rightarrow> 'w MigrateLib \<Rightarrow> err + Config \<Rightarrow> string \<Rightarrow> int \<Rightarrow> 'w \<Rightarrow> int \<times> 'w" where
  "migrateMain l s m loaded direction steps w =
     (if direction \<noteq> ''up'' \<and> direction \<noteq> ''down'' then (2, w)
      else case loaded of
          Inl e \<Rightarrow> (1, w)
        | Inr cfg \<Rightarrow>
            (case runMigration l s m (cfg_Migration cfg) direction steps w of
               (es, w') \<Rightarrow> (if es \<noteq> [] then 1 else 0, w')))"

text \<open>\<^verbatim>\<open>runStartupMigration\<close> of \<^verbatim>\<open>internal/app/app.go\<close>: one error wraps those of the run.\<close>

definition runStartupMigration ::
    "URLLib \<Rightarrow> 'w SQLLib \<Rightarrow> 'w MigrateLib \<Rightarrow> Config \<Rightarrow> 'w \<Rightarrow> (string \<times> err list) option \<times> 'w" where
  "runStartupMigration l s m cfg w =
     (if \<not> mig_AutoUp (cfg_Migration cfg) then (None, w)
      else case runMigration l s m (cfg_Migration cfg) ''up'' 0 w of
          ([], w') \<Rightarrow> (None, w')
        | (es, w') \<Rightarrow> (Some (''startup database migration'', es), w'))"

section \<open>MySQL URLs\<close>

lemma beforeLastSlash_split [simp]:
  "CHR ''/'' \<notin> set b \<Longrightarrow> beforeLastSlash (a @ CHR ''/'' # b) = Some a"
proof -
  assume "CHR ''/'' \<notin> set b"
  then have "dropWhile (\<lambda>c. c \<noteq> CHR ''/'') (rev b @ CHR ''/'' # rev a) = CHR ''/'' # rev a"
    by (subst dropWhile_append2) auto
  then show ?thesis by (simp add: beforeLastSlash_def)
qed

lemma cut_query:
  assumes "CHR ''?'' \<notin> set s" and "query = [] \<or> hd query = CHR ''?''"
  shows "takeWhile (\<lambda>c. c \<noteq> CHR ''?'') (s @ query) = s" "dropWhile (\<lambda>c. c \<noteq> CHR ''?'') (s @ query) = query"
proof -
  have "\<forall>c \<in> set s. c \<noteq> CHR ''?''" using assms(1) by auto
  then show "takeWhile (\<lambda>c. c \<noteq> CHR ''?'') (s @ query) = s" "dropWhile (\<lambda>c. c \<noteq> CHR ''?'') (s @ query) = query"
    using assms(2) by (cases query; simp add: takeWhile_append2 dropWhile_append2)+
qed

lemma mysql_named:
  assumes "name \<noteq> []" and "CHR ''?'' \<notin> set before" and "CHR ''?'' \<notin> set db" "CHR ''/'' \<notin> set db"
    and "query = [] \<or> hd query = CHR ''?''"
  shows "mysqlURL (before @ ''/'' @ db @ query) name [] = Inr (before @ ''/'' @ name @ query)"
proof -
  have "CHR ''?'' \<notin> set (before @ ''/'' @ db)" using assms by simp
  from cut_query [OF this assms(5)] assms(1,4) show ?thesis by (simp add: mysqlURL_def Let_def)
qed

lemma nibbles: "(of_char (c :: char) :: nat) div 16 < 16" "(of_char c :: nat) mod 16 < 16"
  using of_char_lt_256 [of c] by (simp_all add: less_mult_imp_div_less)

text \<open>An escaped table name cannot end the parameter it is the value of.\<close>

lemma QueryEscape_safe: "set (QueryEscape s) \<inter> set ''&=?#/'' = {}"
proof -
  have *: "set (escapeByte c) \<inter> set ''&=?#/'' = {}" for c
  proof -
    have digits: "alnum (hex_upper ((of_char c :: nat) div 16))" "alnum (hex_upper ((of_char c :: nat) mod 16))"
      by (intro hex_upper_alnum nibbles)+
    have plain: "alnum d \<Longrightarrow> d \<notin> set ''&=?#/''" for d by (auto simp: alnum_def Let_def)
    show ?thesis using plain [OF digits(1)] plain [OF digits(2)] plain [of c] by (auto simp: escapeByte_def)
  qed
  then show ?thesis by (fastforce simp: QueryEscape_def)
qed

text \<open>\<^verbatim>\<open>url.QueryUnescape\<close> for well-formed input.\<close>

definition QueryUnescape :: "string \<Rightarrow> string" where
  "QueryUnescape s = PathUnescape (map (\<lambda>c. if c = CHR ''+'' then CHR '' '' else c) s)"

lemma QueryEscape_roundtrip: "QueryUnescape (QueryEscape s) = s"
proof (induction s)
  case Nil
  then show ?case by (simp add: QueryUnescape_def QueryEscape_def)
next
  case (Cons c s)
  note digits = nibbles [of c]
  have plus: "alnum d \<Longrightarrow> d \<noteq> CHR ''+''" for d by (auto simp: alnum_def Let_def)
  have percent: "\<not> alnum (CHR ''%'')" by (simp add: alnum_def)
  have rejoin: "char_of (16 * ((of_char c :: nat) div 16) + of_char c mod 16) = c" by simp
  have sign: "char_of (37 :: nat) = CHR ''%''" by (simp add: char_of_eq_iff)
  show ?case
    using Cons sign digits plus [OF hex_upper_alnum [OF digits(1)]] plus [OF hex_upper_alnum [OF digits(2)]] percent plus [of c] rejoin
    by (auto simp: QueryUnescape_def QueryEscape_def escapeByte_def)
qed

text \<open>C36: The database URL of a MySQL migration. In a URL with a path, the name of the database is the part after the
  last slash before the query, and only it is replaced; the query is kept; the migrations table
  becomes one more parameter, whose value no name can break out of and which parses back to the
  name.\<close>

theorem mysql_migration_url:
  assumes "name \<noteq> []" "table \<noteq> []" and "CHR ''?'' \<notin> set before" and "CHR ''?'' \<notin> set db" "CHR ''/'' \<notin> set db"
    and "CHR ''?'' \<notin> set name" and "query = [] \<or> hd query = CHR ''?''"
  shows "withMigrationOptions l (''mysql://'' @ before @ ''/'' @ db @ query) name table schema =
      Inr (''mysql://'' @ before @ ''/'' @ name @ query @ (if query = [] then ''?'' else ''&'') @ ''x-migrations-table='' @ QueryEscape table)
    \<and> set (QueryEscape table) \<inter> set ''&=?#/'' = {} \<and> QueryUnescape (QueryEscape table) = table"
proof -
  let ?u = "''mysql://'' @ before @ ''/'' @ name @ query"
  have base: "mysqlURL ((''mysql://'' @ before) @ ''/'' @ db @ query) name [] = Inr ((''mysql://'' @ before) @ ''/'' @ name @ query)"
    by (rule mysql_named) (use assms in auto)
  have mark: "CHR ''?'' \<in> set ?u \<longleftrightarrow> query \<noteq> []" using assms by (cases query) auto
  have table: "mysqlURL u name table = (case mysqlURL u name [] of Inl e \<Rightarrow> Inl e
      | Inr v \<Rightarrow> Inr (v @ (if CHR ''?'' \<in> set v then ''&'' else ''?'') @ ''x-migrations-table='' @ QueryEscape table))" for u
    using assms(2) by (simp add: mysqlURL_def Let_def split: sum.split option.split)
  have "withMigrationOptions l (''mysql://'' @ before @ ''/'' @ db @ query) name table schema
      = mysqlURL ((''mysql://'' @ before) @ ''/'' @ db @ query) name table"
    using assms by (simp add: withMigrationOptions_def)
  also have "\<dots> = Inr (?u @ (if query = [] then ''?'' else ''&'') @ ''x-migrations-table='' @ QueryEscape table)"
    unfolding table base using mark by simp
  finally show ?thesis using QueryEscape_safe QueryEscape_roundtrip by simp
qed

theorem mysql_migration_url_witness:
  "withMigrationOptions \<lparr>ul_parse = (\<lambda>_. Inl (Plain [])), ul_String = pl_Rest\<rparr>
     ''mysql://svc:pw@tcp(db:3306)/old?tls=true'' ''search'' ''my table'' [] =
   Inr ''mysql://svc:pw@tcp(db:3306)/search?tls=true&x-migrations-table=my+table''"
proof -
  have "QueryEscape ''my table'' = ''my+table''" by (simp add: QueryEscape_def escapeByte_def alnum_def)
  then show ?thesis
    using mysql_migration_url [of "''search''" "''my table''" "''svc:pw@tcp(db:3306)''" "''old''" "''?tls=true''"
        "\<lparr>ul_parse = (\<lambda>_. Inl (Plain [])), ul_String = pl_Rest\<rparr>" "[]"] by simp
qed

text \<open>A MySQL URL without a path. The code means to refuse it, but the slashes of the scheme count as the path:
  the host and the credentials are replaced by the name of the database, and no error is reported.\<close>

theorem mysql_authority_lost:
  assumes "name \<noteq> []" and "CHR ''?'' \<notin> set authority" "CHR ''/'' \<notin> set authority"
  shows "withMigrationOptions l (''mysql://'' @ authority) name [] schema = Inr (''mysql://'' @ name)"
proof -
  have "mysqlURL (''mysql:/'' @ ''/'' @ authority @ []) name [] = Inr (''mysql:/'' @ ''/'' @ name @ [])"
    by (rule mysql_named) (use assms in auto)
  then show ?thesis using assms by (simp add: withMigrationOptions_def)
qed

theorem mysql_authority_lost_witness:
  "withMigrationOptions \<lparr>ul_parse = (\<lambda>_. Inl (Plain [])), ul_String = pl_Rest\<rparr> ''mysql://svc:pw@tcp(db:3306)'' ''search'' [] [] =
   Inr ''mysql://search''"
  using mysql_authority_lost [of "''search''" "''svc:pw@tcp(db:3306)''" "\<lparr>ul_parse = (\<lambda>_. Inl (Plain [])), ul_String = pl_Rest\<rparr>" "[]"]
  by simp

section \<open>Statements of the schema creation\<close>

text \<open>A statement is safe if it is the lock or creates a schema whose quoted name is an identifier.\<close>

definition identName :: "string \<Rightarrow> bool" where
  "identName s \<longleftrightarrow> s \<noteq> [] \<and> length s \<le> 63 \<and> list_all (\<lambda>c. is_lower c \<or> is_digit c \<or> c = CHR ''_'') s"

definition safeStatement :: "string \<Rightarrow> bool" where
  "safeStatement q \<longleftrightarrow> q = lockStatement \<or> (\<exists>name. identName name \<and> q = schemaStatement name)"

text \<open>A property of the state that opening, closing, transactions and the allowed statements keep.\<close>

definition kept_by :: "'w SQLLib \<Rightarrow> (string \<Rightarrow> bool) \<Rightarrow> ('w \<Rightarrow> bool) \<Rightarrow> bool" where
  "kept_by s allowed P \<longleftrightarrow>
     (\<forall>w. P w \<longrightarrow> (\<forall>d. P (snd (sq_open s d w))) \<and> P (sq_close s w) \<and> P (snd (sq_begin s w)) \<and> P (snd (sq_commit s w))
        \<and> P (sq_rollback s w) \<and> (\<forall>q args. allowed q \<longrightarrow> P (snd (sq_exec s q args w))))"

lemma createSchema_keeps:
  assumes "kept_by s allowed P" and "allowed lockStatement" "allowed (schemaStatement schema)" and "P w"
  shows "P (snd (createSchema s schema w))"
proof -
  have keeps: "P v \<Longrightarrow> P (snd (sq_begin s v))" "P v \<Longrightarrow> P (snd (sq_commit s v))" "P v \<Longrightarrow> P (sq_rollback s v)"
    "P v \<Longrightarrow> P (snd (sq_exec s lockStatement args v))" "P v \<Longrightarrow> P (snd (sq_exec s (schemaStatement schema) args v))" for v args
    using assms(1-3) by (auto simp: kept_by_def)
  obtain a w1 where begun: "sq_begin s w = (a, w1)" by (rule prod.exhaust)
  obtain b w2 where locked: "sq_exec s lockStatement [''search-service:schema:'' @ schema] w1 = (b, w2)" by (rule prod.exhaust)
  obtain c w3 where made: "sq_exec s (schemaStatement schema) [] w2 = (c, w3)" by (rule prod.exhaust)
  obtain d w4 where committed: "sq_commit s w3 = (d, w4)" by (rule prod.exhaust)
  have "P w1" using keeps(1) [OF assms(4)] begun by simp
  then have "P w2" using keeps(4) locked by (metis snd_conv)
  then have "P w3" using keeps(5) made by (metis snd_conv)
  then have "P w4" using keeps(2) committed by (metis snd_conv)
  then show ?thesis using \<open>P w1\<close> \<open>P w2\<close> \<open>P w3\<close> keeps(3)
    by (cases a; cases b; cases c; cases d) (simp_all add: createSchema_def begun locked [simplified] made committed)
qed

lemma validSchema_identName: "validSchema s \<Longrightarrow> identName s"
  by (simp add: validSchema_def validMigrationTable_def identName_def)

text \<open>C34: No SQL injection through the schema. Whatever the configuration is, creating the schema keeps every
  property that the advisory lock and the creation of a schema named by an identifier keep: no other
  statement is executed.\<close>

theorem ensureSchema_statements:
  assumes "kept_by s safeStatement P" and "P w"
  shows "P (snd (ensureSchema l s cfg databaseURL w))"
proof (cases "\<not> mig_CreateSchema cfg \<or> mig_Schema cfg = [] \<or> HasPrefix (mig_DatabaseURL cfg) ''mysql://'' \<or> \<not> validSchema (mig_Schema cfg)")
  case True
  then show ?thesis using assms(2) by (auto simp: ensureSchema_def)
next
  case False
  have safe: "safeStatement lockStatement" "safeStatement (schemaStatement (mig_Schema cfg))"
    using False validSchema_identName by (auto simp: safeStatement_def)
  have keeps: "P v \<Longrightarrow> P (snd (sq_open s d v))" "P v \<Longrightarrow> P (sq_close s v)"
    "P v \<Longrightarrow> P (snd (createSchema s (mig_Schema cfg) v))" for v d
    using assms(1) createSchema_keeps [OF assms(1) safe] by (auto simp: kept_by_def)
  show ?thesis
  proof (cases "ul_parse l databaseURL")
    case (Inl e)
    then show ?thesis using False assms(2) by (simp add: ensureSchema_def)
  next
    case (Inr parsed)
    obtain a w1 where opened: "sq_open s (ul_String l (parsed\<lparr>pl_Query := (pl_Query parsed)(''x-migrations-table'' := [])\<rparr>)) w = (a, w1)"
      by (rule prod.exhaust)
    obtain b w2 where made: "createSchema s (mig_Schema cfg) w1 = (b, w2)" by (rule prod.exhaust)
    have "P w1" using keeps(1) [OF assms(2)] opened by (metis snd_conv)
    moreover from this have "P (sq_close s w2)" using keeps(2,3) made by (metis snd_conv)
    ultimately show ?thesis using False Inr
      by (cases a; cases b) (simp_all add: ensureSchema_def opened made)
  qed
qed

text \<open>A database that records its statements, and a schema name that tries to end the quoted identifier.\<close>

definition recording :: "string list SQLLib" where
  "recording = \<lparr>sq_open = (\<lambda>_ w. (None, w)), sq_close = (\<lambda>w. w), sq_begin = (\<lambda>w. (None, w)),
     sq_exec = (\<lambda>q _ w. (None, w @ [q])), sq_commit = (\<lambda>w. (None, w)), sq_rollback = (\<lambda>w. w)\<rparr>"

definition plain_urls :: URLLib where
  "plain_urls = \<lparr>ul_parse = (\<lambda>u. Inr \<lparr>pl_Path = [], pl_Query = (\<lambda>_. []), pl_Rest = u\<rparr>), ul_String = pl_Rest\<rparr>"

definition example_migration :: "string \<Rightarrow> Migration" where
  "example_migration schema = (cfg_Migration example_config)\<lparr>mig_DatabaseURL := ''postgres://db/search'', mig_CreateSchema := True, mig_Schema := schema\<rparr>"

theorem ensureSchema_statements_witness:
  "list_all safeStatement (snd (ensureSchema plain_urls recording (example_migration ''search'') ''postgres://db/search'' []))
   \<and> snd (ensureSchema plain_urls recording (example_migration ''search'') ''postgres://db/search'' []) =
       [lockStatement, schemaStatement ''search'']
   \<and> ensureSchema plain_urls recording (example_migration ''s; DROP TABLE users'') ''postgres://db/search'' [] =
       (Some (Plain ''invalid migration schema''), [])"
proof -
  have "kept_by recording safeStatement (list_all safeStatement)" by (simp add: kept_by_def recording_def)
  from ensureSchema_statements [OF this, of "[]" plain_urls "example_migration ''search''" "''postgres://db/search''"]
  have "list_all safeStatement (snd (ensureSchema plain_urls recording (example_migration ''search'') ''postgres://db/search'' []))" by simp
  moreover have "validSchema ''search''" "\<not> validSchema ''s; DROP TABLE users''"
    by (simp_all add: validSchema_def validMigrationTable_def is_lower_def is_digit_def)
  then have "snd (ensureSchema plain_urls recording (example_migration ''search'') ''postgres://db/search'' []) =
       [lockStatement, schemaStatement ''search'']"
    "ensureSchema plain_urls recording (example_migration ''s; DROP TABLE users'') ''postgres://db/search'' [] =
       (Some (Plain ''invalid migration schema''), [])"
    by (simp_all add: ensureSchema_def createSchema_def example_migration_def recording_def plain_urls_def)
  ultimately show ?thesis by blast
qed

end
