(* ===== verification/Cache.thy ===== *)
theory Cache
  imports ConfigLoad Messages
begin

text \<open>
  \<^verbatim>\<open>internal/cache/redis.go\<close>: opening the Redis client, and the distributed locks. The Redis client and
  the redsync library are parameters; what the locks rely on is the predicate \<^verbatim>\<open>lock_table\<close>.
\<close>

section \<open>Opening\<close>

record RedisOptions =
  ro_Addr :: string
  ro_Username :: string
  ro_Password :: string
  ro_DB :: int
  ro_DialTimeout :: Duration
  ro_ReadTimeout :: Duration
  ro_WriteTimeout :: Duration

record 'w RedisLib =
  rl_open :: "RedisOptions \<Rightarrow> 'w \<Rightarrow> 'w"
  rl_ping :: "Ctx \<Rightarrow> ('w, err) call_err"
  rl_close :: "'w \<Rightarrow> 'w"

definition redisOptions :: "Redis \<Rightarrow> RedisOptions" where
  "redisOptions cfg = \<lparr>ro_Addr = redis_Address cfg, ro_Username = redis_Username cfg, ro_Password = redis_Password cfg,
     ro_DB = redis_DB cfg, ro_DialTimeout = redis_DialTimeout cfg, ro_ReadTimeout = redis_ReadTimeout cfg,
     ro_WriteTimeout = redis_WriteTimeout cfg\<rparr>"

definition OpenRedis :: "'w RedisLib \<Rightarrow> Ctx \<Rightarrow> Redis \<Rightarrow> ('w, err, RedisOptions) call" where
  "OpenRedis l ctx cfg w =
     (case rl_ping l ctx (rl_open l (redisOptions cfg) w) of
        (Some e, w') \<Rightarrow> (Inl (prefixed ''ping redis'' e), rl_close l w')
      | (None, w') \<Rightarrow> (Inr (redisOptions cfg), w'))"

section \<open>Locks\<close>

text \<open>
  A mutex of the library: its name, expiry, and options. \<^verbatim>\<open>mx_value\<close> tells the mutexes apart and stands for
  the owner value with which the library marks the key of a held one. \<^verbatim>\<open>ErrTaken\<close> is the library's error type that
  \<^verbatim>\<open>errors.As\<close> looks for, anywhere in the chain.
\<close>

datatype lockError = ErrTaken "int list" | Ordinary err | Wrapping string lockError

record Mutex =
  mx_value :: nat
  mx_name :: string
  mx_expiry :: Duration
  mx_tries :: "int option"
  mx_retryDelay :: "Duration option"

record 'w Redsync =
  ry_value :: "'w \<Rightarrow> nat \<times> 'w"
  ry_tryLock :: "Ctx \<Rightarrow> Mutex \<Rightarrow> ('w, lockError) call_err"
  ry_lock :: "Ctx \<Rightarrow> Mutex \<Rightarrow> ('w, lockError) call_err"
  ry_extend :: "Ctx \<Rightarrow> Mutex \<Rightarrow> 'w \<Rightarrow> (bool \<times> lockError option) \<times> 'w"
  ry_unlock :: "Ctx \<Rightarrow> Mutex \<Rightarrow> 'w \<Rightarrow> (bool \<times> lockError option) \<times> 'w"
  ry_ctxErr :: "Ctx \<Rightarrow> 'w \<Rightarrow> err option"

definition lockKeyPrefix :: string where "lockKeyPrefix = ''lock:''"

definition ErrFailed :: sentinel where "ErrFailed = External ''redsync: failed to acquire lock''"

primrec isContention :: "lockError \<Rightarrow> bool" where
  "isContention (ErrTaken _) = True"
| "isContention (Ordinary e) = errors_is e ErrFailed"
| "isContention (Wrapping _ e) = isContention e"

definition newMutex :: "'w Redsync \<Rightarrow> string \<Rightarrow> Duration \<Rightarrow> int option \<Rightarrow> Duration option \<Rightarrow> ('w, lockError, Mutex) call" where
  "newMutex l key ttl tries retryDelay w =
     (if key = [] then (Inl (Ordinary (Plain ''lock key must not be empty'')), w)
      else if ttl \<le> 0 then (Inl (Ordinary (Plain ''lock ttl must be positive'')), w)
      else case ry_value l w of
          (v, w') \<Rightarrow> (Inr \<lparr>mx_value = v, mx_name = lockKeyPrefix @ key, mx_expiry = ttl, mx_tries = tries, mx_retryDelay = retryDelay\<rparr>, w'))"

text \<open>The result \<^verbatim>\<open>(lock, acquired, err)\<close>: \<^verbatim>\<open>Inr None\<close> is a lock that somebody else has.\<close>

definition TryLock :: "'w Redsync \<Rightarrow> Ctx \<Rightarrow> string \<Rightarrow> Duration \<Rightarrow> ('w, lockError, Mutex option) call" where
  "TryLock l ctx key ttl w =
     (case newMutex l key ttl (Some 1) None w of
        (Inl e, w1) \<Rightarrow> (Inl e, w1)
      | (Inr mutex, w1) \<Rightarrow>
          (case ry_tryLock l ctx mutex w1 of
             (Some e, w2) \<Rightarrow> (if isContention e then Inr None else Inl (Wrapping (''try redis lock '' @ quoted key) e), w2)
           | (None, w2) \<Rightarrow> (Inr (Some mutex), w2)))"

definition LockKey :: "'w Redsync \<Rightarrow> Ctx \<Rightarrow> string \<Rightarrow> Duration \<Rightarrow> Duration \<Rightarrow> ('w, lockError, Mutex) call" where
  "LockKey l ctx key ttl retryDelay w =
     (if retryDelay \<le> 0 then (Inl (Ordinary (Plain ''lock retry delay must be positive'')), w)
      else case newMutex l key ttl None (Some retryDelay) w of
          (Inl e, w1) \<Rightarrow> (Inl e, w1)
        | (Inr mutex, w1) \<Rightarrow>
            (case ry_lock l ctx mutex w1 of
               (Some e, w2) \<Rightarrow>
                 (Inl (case ry_ctxErr l ctx w2 of
                         Some c \<Rightarrow> Wrapping (''wait for redis lock '' @ quoted key) (Ordinary c)
                       | None \<Rightarrow> Wrapping (''acquire redis lock '' @ quoted key) e), w2)
             | (None, w2) \<Rightarrow> (Inr mutex, w2)))"

definition ownedResult :: "string \<Rightarrow> Mutex \<Rightarrow> bool \<times> lockError option \<Rightarrow> lockError option" where
  "ownedResult verb mutex r =
     (case snd r of
        Some e \<Rightarrow> Some (Wrapping (verb @ '' redis lock '' @ quoted (mx_name mutex)) e)
      | None \<Rightarrow> if \<not> fst r then Some (Ordinary (Plain (verb @ '' redis lock '' @ quoted (mx_name mutex) @ '': lock is no longer owned'')))
               else None)"

definition Extend :: "'w Redsync \<Rightarrow> Ctx \<Rightarrow> Mutex \<Rightarrow> ('w, lockError) call_err" where
  "Extend l ctx mutex w = (case ry_extend l ctx mutex w of (r, w') \<Rightarrow> (ownedResult ''extend'' mutex r, w'))"

definition Unlock :: "'w Redsync \<Rightarrow> Ctx \<Rightarrow> Mutex \<Rightarrow> ('w, lockError) call_err" where
  "Unlock l ctx mutex w = (case ry_unlock l ctx mutex w of (r, w') \<Rightarrow> (ownedResult ''release'' mutex r, w'))"

section \<open>The lock table\<close>

text \<open>
  What the library promises of the table of held locks, name to owner value: drawing a value leaves it
  alone; a lock is taken only if the name is free, and an error takes nothing; an unlock frees the
  name exactly if it reports that the owner had it. A lock that waits may see the table change while
  it waits: the last clause only says what is known at its end.
\<close>

definition lock_table :: "'w Redsync \<Rightarrow> ('w \<Rightarrow> string \<Rightarrow> nat option) \<Rightarrow> bool" where
  "lock_table l holder \<longleftrightarrow>
     (\<forall>w ctx m. holder (snd (ry_value l w)) = holder w
        \<and> (case ry_tryLock l ctx m w of
             (None, w') \<Rightarrow> holder w (mx_name m) = None \<and> holder w' = (holder w)(mx_name m := Some (mx_value m))
           | (Some e, w') \<Rightarrow> holder w' = holder w)
        \<and> (case ry_unlock l ctx m w of
             ((ok, e), w') \<Rightarrow> (if ok then holder w (mx_name m) = Some (mx_value m) \<and> holder w' = (holder w)(mx_name m := None)
                               else holder w' = holder w) \<and> (ok \<and> e = None \<or> \<not> ok))
        \<and> (case ry_lock l ctx m w of (None, w') \<Rightarrow> holder w' (mx_name m) = Some (mx_value m) | _ \<Rightarrow> True))"

text \<open>The table a caller sees: keys instead of names.\<close>

definition locks :: "('w \<Rightarrow> string \<Rightarrow> nat option) \<Rightarrow> 'w \<Rightarrow> string \<Rightarrow> nat option" where
  "locks holder w key = holder w (lockKeyPrefix @ key)"

lemma locks_update: "holder w' = (holder w)(lockKeyPrefix @ key := v) \<Longrightarrow> locks holder w' = (locks holder w)(key := v)"
  by (auto simp: locks_def fun_eq_iff)

lemma locks_same: "holder w' = holder w \<Longrightarrow> locks holder w' = locks holder w"
  by (simp add: locks_def fun_eq_iff)

lemma newMutex_ok:
  assumes "lock_table l holder" and "newMutex l key ttl tries delay w = (r, w')"
  shows "locks holder w' = locks holder w \<and> (\<forall>m. r = Inr m \<longrightarrow> mx_name m = lockKeyPrefix @ key \<and> 0 < mx_expiry m \<and> key \<noteq> [])"
proof -
  have "holder (snd (ry_value l w)) = holder w" using assms(1) by (simp add: lock_table_def)
  then show ?thesis using assms(2) by (auto simp: newMutex_def locks_def fun_eq_iff split: if_splits prod.splits)
qed

text \<open>Locks exclude each other. On a lock service that keeps its promise, an attempt that succeeds found its
  key free and holds it, for a positive time; an attempt that does not succeed, by contention or by an
  error, changed no key; and no key but its own is ever touched.\<close>

theorem TryLock_exclusive:
  assumes "lock_table l holder" and "TryLock l ctx key ttl w = (r, w')"
  shows "case r of
      Inr (Some m) \<Rightarrow> locks holder w key = None \<and> locks holder w' = (locks holder w)(key := Some (mx_value m)) \<and> 0 < mx_expiry m
    | _ \<Rightarrow> locks holder w' = locks holder w"
proof -
  obtain q w1 where made: "newMutex l key ttl (Some 1) None w = (q, w1)" by (rule prod.exhaust)
  note mutex = newMutex_ok [OF assms(1) made]
  show ?thesis
  proof (cases q)
    case (Inl e)
    then show ?thesis using assms(2) mutex by (auto simp: TryLock_def made)
  next
    case (Inr m)
    obtain e w2 where tried: "ry_tryLock l ctx m w1 = (e, w2)" by (rule prod.exhaust)
    have name: "mx_name m = lockKeyPrefix @ key" "0 < mx_expiry m" "locks holder w1 = locks holder w"
      using mutex Inr by auto
    have law: "case e of None \<Rightarrow> holder w1 (mx_name m) = None \<and> holder w2 = (holder w1)(mx_name m := Some (mx_value m))
        | Some _ \<Rightarrow> holder w2 = holder w1"
      using assms(1) tried unfolding lock_table_def by (metis (mono_tags, lifting) case_prod_conv)
    show ?thesis
    proof (cases e)
      case None
      have "locks holder w1 key = None" using law None name(1) by (simp add: locks_def)
      then have "locks holder w key = None" using name(3) by simp
      then show ?thesis using assms(2) None law name locks_update [of holder w2 w1 key]
        by (auto simp: TryLock_def made Inr tried)
    next
      case (Some x)
      then show ?thesis using assms(2) law name locks_same [of holder w2 w1]
        by (auto simp: TryLock_def made Inr tried)
    qed
  qed
qed

text \<open>A lock service whose table is a map, with a counter of values.\<close>

definition map_locks :: "(nat \<times> (string \<Rightarrow> nat option)) Redsync" where
  "map_locks = \<lparr>ry_value = (\<lambda>(n, h). (n, (n + 1, h))),
     ry_tryLock = (\<lambda>_ m (n, h). if h (mx_name m) = None then (None, (n, h(mx_name m := Some (mx_value m)))) else (Some (ErrTaken [0]), (n, h))),
     ry_lock = (\<lambda>_ m (n, h). if h (mx_name m) = None then (None, (n, h(mx_name m := Some (mx_value m)))) else (Some (Ordinary (Sentinel ErrFailed)), (n, h))),
     ry_extend = (\<lambda>_ m (n, h). ((h (mx_name m) = Some (mx_value m), None), (n, h))),
     ry_unlock = (\<lambda>_ m (n, h). if h (mx_name m) = Some (mx_value m) then ((True, None), (n, h(mx_name m := None))) else ((False, None), (n, h))),
     ry_ctxErr = (\<lambda>_ _. None)\<rparr>"

lemma map_locks_table: "lock_table map_locks snd"
  by (auto simp: lock_table_def map_locks_def split: prod.splits if_splits)

theorem TryLock_exclusive_witness:
  "locks snd (snd (TryLock map_locks background ''reindex'' 5 (7, Map.empty))) = Map.empty(''reindex'' \<mapsto> 7)
   \<and> fst (TryLock map_locks background ''reindex'' 5 (snd (TryLock map_locks background ''reindex'' 5 (7, Map.empty)))) = Inr None"
proof -
  let ?m = "\<lparr>mx_value = 7, mx_name = lockKeyPrefix @ ''reindex'', mx_expiry = 5, mx_tries = Some 1, mx_retryDelay = None\<rparr>"
  have run: "TryLock map_locks background ''reindex'' 5 (7, Map.empty) = (Inr (Some ?m), (8, Map.empty(lockKeyPrefix @ ''reindex'' \<mapsto> 7)))"
    by (simp add: TryLock_def newMutex_def map_locks_def)
  from TryLock_exclusive [OF map_locks_table run]
  have "locks snd (8 :: nat, Map.empty(lockKeyPrefix @ ''reindex'' \<mapsto> 7)) = (locks snd (7 :: nat, Map.empty))(''reindex'' := Some 7)" by simp
  moreover have "locks snd (7 :: nat, Map.empty) = Map.empty" by (simp add: locks_def fun_eq_iff)
  moreover have "fst (TryLock map_locks background ''reindex'' 5 (8, Map.empty(lockKeyPrefix @ ''reindex'' \<mapsto> 7))) = Inr None"
    by (simp add: TryLock_def newMutex_def map_locks_def)
  ultimately show ?thesis by (simp add: run)
qed

end
