(* ===== verification/Projection.thy ===== *)
theory Projection
  imports IndexWrites IndexQueries ConfigLoad
begin

text \<open>
  \<^verbatim>\<open>internal/app/search_projection.go\<close>: the consumer that turns platform events into index writes,
  behind the Inbox of the platform library. \<^verbatim>\<open>inbox.Process\<close> and the protobuf decoders are
  parameters; the event bus delivers events one after the other, in whatever order.
\<close>

section \<open>The Inbox\<close>

datatype dialect = DialectPostgres | DialectMySQL | DialectKingbase

text \<open>The dialect and the table with which \<^verbatim>\<open>NewSQLStore\<close> is called, if there is a database.\<close>

definition newSearchInbox :: "bool \<Rightarrow> Config \<Rightarrow> (dialect \<times> string) option" where
  "newSearchInbox hasDB cfg =
     (if \<not> hasDB then None
      else let d0 = (if db_Type (cfg_Database cfg) = ''mysql'' then DialectMySQL else DialectPostgres);
               d = (if db_Type (cfg_Database cfg) = ''kingbase'' then DialectKingbase else d0);
               table = (if db_Schema (cfg_Database cfg) \<noteq> [] \<and> db_Type (cfg_Database cfg) \<noteq> ''mysql''
                        then db_Schema (cfg_Database cfg) @ ''.'' @ ''search_event_inbox'' else ''search_event_inbox'')
           in Some (d, table))"

definition newSearchInboxRetentionCleaner :: "bool \<Rightarrow> Config \<Rightarrow> (Duration \<times> int) option" where
  "newSearchInboxRetentionCleaner hasInbox cfg =
     (if \<not> hasInbox \<or> \<not> bus_Enabled (cfg_EventBus cfg) then None
      else Some (bus_InboxRetention (cfg_EventBus cfg), bus_InboxCleanupBatchSize (cfg_EventBus cfg)))"

type_synonym 'w Process =
  "Ctx \<Rightarrow> string \<times> string \<Rightarrow> string \<Rightarrow> (Ctx \<Rightarrow> ('w, err) call_err) \<Rightarrow> ('w, err, bool) call"

section \<open>Events\<close>

record Envelope =
  en_SchemaVersion :: int
  en_EventType :: string
  en_EventId :: string
  en_TenantId :: string
  en_Payload :: string

record Decoders =
  de_upserted :: "string \<Rightarrow> err + SearchDocument option"
  de_deleted :: "string \<Rightarrow> err + DocumentKey option"

definition searchUpsertedEvent :: string where
  "searchUpsertedEvent = ''platform.search.document.upserted.v1''"

definition searchDeletedEvent :: string where
  "searchDeletedEvent = ''platform.search.document.deleted.v1''"

definition applySearchEvent :: "Decoders \<Rightarrow> Ctx \<Rightarrow> 'w Service \<Rightarrow> Envelope \<Rightarrow> ('w, err) call_err" where
  "applySearchEvent de ctx service envelope w =
     (if en_EventType envelope = searchUpsertedEvent then
        (case de_upserted de (en_Payload envelope) of
           Inl e \<Rightarrow> (Some (prefixed ''decode upsert event'' e), w)
         | Inr None \<Rightarrow> (Some (Plain ''search upsert tenant mismatch''), w)
         | Inr (Some d) \<Rightarrow>
             if en_TenantId envelope \<noteq> sd_TenantId d then (Some (Plain ''search upsert tenant mismatch''), w)
             else Service_BatchUpsert service ctx [Some d] w)
      else if en_EventType envelope = searchDeletedEvent then
        (case de_deleted de (en_Payload envelope) of
           Inl e \<Rightarrow> (Some (prefixed ''decode delete event'' e), w)
         | Inr None \<Rightarrow> (Some (Plain ''search delete tenant mismatch''), w)
         | Inr (Some k) \<Rightarrow>
             if en_TenantId envelope \<noteq> dk_TenantId k then (Some (Plain ''search delete tenant mismatch''), w)
             else Service_BatchDelete service ctx [Some k] w)
      else (Some (Plain (''unsupported search event type '' @ quoted (en_EventType envelope))), w))"

definition handleEvent ::
    "'w Process \<Rightarrow> Decoders \<Rightarrow> 'w Service \<Rightarrow> string \<Rightarrow> Ctx \<Rightarrow> Envelope \<Rightarrow> ('w, err) call_err" where
  "handleEvent process de service durable ctx envelope w =
     (if en_SchemaVersion envelope \<noteq> 1
      then (Some (Plain (''unsupported search event schema version '' @ FormatInt (en_SchemaVersion envelope))), w)
      else case process ctx (durable, en_EventId envelope) ''search-event-consumer''
               (\<lambda>ctx'. applySearchEvent de ctx' service envelope) w of
          (Inl e, w') \<Rightarrow> (Some e, w')
        | (Inr _, w') \<Rightarrow> (None, w'))"

text \<open>The start hook: the subscription it opens (durable name and subject), nothing without a bus.\<close>

definition startSearchProjection :: "bool \<Rightarrow> bool \<Rightarrow> Config \<Rightarrow> err + (string \<times> string) option" where
  "startSearchProjection hasBus hasInbox cfg =
     (if \<not> hasBus then Inr None
      else if \<not> hasInbox then Inl (Plain ''search projection requires Inbox database'')
      else Inr (Some (proj_Durable (cfg_Projection cfg), proj_Subject (cfg_Projection cfg))))"

section \<open>Events as changes\<close>

text \<open>The change an envelope asks for, if the service accepts it.\<close>

definition event_change :: "Decoders \<Rightarrow> Envelope \<Rightarrow> change option" where
  "event_change de envelope =
     (if en_EventType envelope = searchUpsertedEvent then
        (case de_upserted de (en_Payload envelope) of
           Inr (Some d) \<Rightarrow>
             if en_TenantId envelope = sd_TenantId d \<and> acceptableDocument d
             then Some (Upserted (withCanonicalID d)) else None
         | _ \<Rightarrow> None)
      else if en_EventType envelope = searchDeletedEvent then
        (case de_deleted de (en_Payload envelope) of
           Inr (Some k) \<Rightarrow> if en_TenantId envelope = dk_TenantId k \<and> completeKey k then Some (Deleted k) else None
         | _ \<Rightarrow> None)
      else None)"

lemma BatchUpsert_one:
  "Service_BatchUpsert s ctx [Some d] w =
     (if acceptableDocument d then eng_Upsert (sv_engine s) ctx [withCanonicalID d] w
      else Service_BatchUpsert s ctx [Some d] w)"
  using upsert_batch.run_accepted [of "[Some d]" s ctx w]
  by (simp add: batchSizeOk_def maxBatchSize_def upsert_batch.acceptable_def)

lemma BatchUpsert_refused:
  "\<not> acceptableDocument d \<Longrightarrow> \<exists>e. Service_BatchUpsert s ctx [Some d] w = (Some e, w)"
  using upsert_batch.run_refused [of "[Some d]" s ctx w] by (auto simp: upsert_batch.acceptable_def)

lemma BatchDelete_one:
  "completeKey k \<Longrightarrow> Service_BatchDelete s ctx [Some k] w = eng_Delete (sv_engine s) ctx [k] w"
  using delete_batch.run_accepted [of "[Some k]" s ctx w]
  by (simp add: batchSizeOk_def maxBatchSize_def delete_batch.acceptable_def)

lemma BatchDelete_refused:
  "\<not> completeKey k \<Longrightarrow> \<exists>e. Service_BatchDelete s ctx [Some k] w = (Some e, w)"
  using delete_batch.run_refused [of "[Some k]" s ctx w] by (auto simp: delete_batch.acceptable_def)

lemma apply_cases:
  "case event_change de envelope of
     None \<Rightarrow> \<exists>err. applySearchEvent de ctx (store_service e check) envelope w = (Some err, w)
   | Some c \<Rightarrow> applySearchEvent de ctx (store_service e check) envelope w = applyChange e ctx c w"
proof (cases "en_EventType envelope = searchUpsertedEvent")
  case True
  show ?thesis
  proof (cases "de_upserted de (en_Payload envelope)")
    case (Inr o1)
    show ?thesis
    proof (cases o1)
      case (Some d)
      show ?thesis
      proof (cases "en_TenantId envelope = sd_TenantId d \<and> acceptableDocument d")
        case ok: True
        then show ?thesis using True Inr Some BatchUpsert_one [of "store_service e check" ctx d w]
          by (simp add: event_change_def applySearchEvent_def store_engine_def del: Upsert.simps)
      next
        case False
        then show ?thesis using True Inr Some BatchUpsert_refused [of d "store_service e check" ctx w]
          by (auto simp: event_change_def applySearchEvent_def)
      qed
    qed (use True Inr in \<open>simp add: event_change_def applySearchEvent_def\<close>)
  qed (use True in \<open>simp add: event_change_def applySearchEvent_def\<close>)
next
  case False
  show ?thesis
  proof (cases "en_EventType envelope = searchDeletedEvent")
    case True
    show ?thesis
    proof (cases "de_deleted de (en_Payload envelope)")
      case (Inr o1)
      show ?thesis
      proof (cases o1)
        case (Some k)
        show ?thesis
        proof (cases "en_TenantId envelope = dk_TenantId k \<and> completeKey k")
          case ok: True
          then show ?thesis using False True Inr Some BatchDelete_one [of k "store_service e check" ctx w]
            by (simp add: event_change_def applySearchEvent_def store_engine_def del: Delete.simps)
        next
          case no: False
          then show ?thesis using False True Inr Some BatchDelete_refused [of k "store_service e check" ctx w]
            by (auto simp: event_change_def applySearchEvent_def)
        qed
      qed (use False True Inr in \<open>simp add: event_change_def applySearchEvent_def\<close>)
    qed (use False True in \<open>simp add: event_change_def applySearchEvent_def\<close>)
  qed (use False in \<open>simp add: event_change_def applySearchEvent_def\<close>)
qed

text \<open>C28: What an event does. An event of a known type whose payload decodes, names the tenant of the
  envelope and is acceptable to the service is exactly one engine call for one change; every other
  event is an error and leaves the index and everything else as it was.\<close>

theorem applySearchEvent_change:
  "case event_change de envelope of
     None \<Rightarrow> \<exists>err. applySearchEvent de ctx (store_service e check) envelope w = (Some err, w)
   | Some c \<Rightarrow> applySearchEvent de ctx (store_service e check) envelope w = applyChange e ctx c w"
  by (rule apply_cases)

section \<open>The Inbox contract\<close>

text \<open>
  The documented behaviour of \<^verbatim>\<open>inbox.Process\<close>, with the set of completed keys \<^verbatim>\<open>finished\<close>. Either the
  handler does not run: the key was completed before, or an error is reported; nothing changes. Or
  the handler runs once, on the same index, and the key is completed exactly if the handler
  succeeded and the call reports no error (the commit may fail after the handler succeeded).
\<close>

definition inbox_contract ::
    "'w Process \<Rightarrow> ('w \<Rightarrow> (string \<times> string) set) \<Rightarrow> ('w \<Rightarrow> stored index_view) \<Rightarrow> bool" where
  "inbox_contract process finished view \<longleftrightarrow>
     (\<forall>ctx key actor h w res w'. process ctx key actor h w = (res, w') \<longrightarrow>
        (view w' = view w \<and> finished w' = finished w \<and> (key \<in> finished w \<or> \<not> is_ok res))
        \<or> (\<exists>ctx1 w1 r w2. view w1 = view w \<and> h ctx1 w1 = (r, w2) \<and> view w' = view w2
            \<and> (if is_ok res then r = None \<and> finished w' = insert key (finished w) else finished w' = finished w)))"

text \<open>The key, version and content of an event; those of an unacceptable one are never used.\<close>

definition event_key :: "Decoders \<Rightarrow> Envelope \<Rightarrow> string" where
  "event_key de en = (case event_change de en of None \<Rightarrow> [] | Some c \<Rightarrow> change_key c)"

definition event_version :: "Decoders \<Rightarrow> Envelope \<Rightarrow> int" where
  "event_version de en = (case event_change de en of None \<Rightarrow> 0 | Some c \<Rightarrow> change_version c)"

definition event_payload :: "'w Store \<Rightarrow> Decoders \<Rightarrow> Envelope \<Rightarrow> stored" where
  "event_payload e de en = (case event_change de en of None \<Rightarrow> None | Some c \<Rightarrow> change_payload e c)"

abbreviation absorbEvent :: "'w Store \<Rightarrow> Decoders \<Rightarrow> Envelope \<Rightarrow> stored index_view \<Rightarrow> stored index_view" where
  "absorbEvent e de \<equiv> absorb (event_key de) (event_version de) (event_payload e de)"

text \<open>Completed keys belong to events of the stream that are already in the index.\<close>

definition inbox_inv ::
    "Envelope set \<Rightarrow> string \<Rightarrow> 'w Store \<Rightarrow> Decoders \<Rightarrow> ('w \<Rightarrow> (string \<times> string) set) \<Rightarrow> ('w \<Rightarrow> stored index_view) \<Rightarrow> 'w \<Rightarrow> bool" where
  "inbox_inv U durable e de finished view w \<longleftrightarrow>
     (\<forall>en \<in> U. (durable, en_EventId en) \<in> finished w \<longrightarrow> absorbEvent e de en (view w) = view w)"

lemma apply_view:
  assumes "external_gte e view"
    and "applySearchEvent de ctx (store_service e check) en w = (r, w')"
  shows "view w' = absorbEvent e de en (view w) \<or> (r \<noteq> None \<and> view w' = view w)"
proof (cases "event_change de en")
  case None
  then show ?thesis using assms(2) apply_cases [of de ctx e check en w] by auto
next
  case (Some c)
  then have "applyChange e ctx c w = (r, w')" using assms(2) apply_cases [of de ctx e check en w] by simp
  from applyChange_view [OF assms(1) this] show ?thesis
    by (simp add: absorb_def event_key_def event_version_def event_payload_def Some)
qed

lemma handle_cases:
  assumes "external_gte e view" and "inbox_contract process finished view"
    and "handleEvent process de (store_service e check) durable ctx en w = (r, w')"
  shows "(view w' = view w \<and> finished w' = finished w \<and> (r = None \<longrightarrow> (durable, en_EventId en) \<in> finished w))
    \<or> (view w' = absorbEvent e de en (view w) \<and> (r \<noteq> None \<longrightarrow> finished w' = finished w)
       \<and> (r = None \<longrightarrow> finished w' = insert (durable, en_EventId en) (finished w)))"
proof (cases "en_SchemaVersion en = 1")
  case False
  then show ?thesis using assms(3) by (auto simp: handleEvent_def)
next
  case True
  let ?h = "\<lambda>ctx'. applySearchEvent de ctx' (store_service e check) en"
  let ?key = "(durable, en_EventId en)"
  obtain res where run: "process ctx ?key ''search-event-consumer'' ?h w = (res, w')"
    and r: "r = None \<longleftrightarrow> is_ok res"
    using assms(3) True by (auto simp: handleEvent_def split: prod.splits sum.splits)
  from assms(2) run have
    "(view w' = view w \<and> finished w' = finished w \<and> (?key \<in> finished w \<or> \<not> is_ok res))
     \<or> (\<exists>ctx1 w1 r1 w2. view w1 = view w \<and> ?h ctx1 w1 = (r1, w2) \<and> view w' = view w2
        \<and> (if is_ok res then r1 = None \<and> finished w' = insert ?key (finished w) else finished w' = finished w))"
    unfolding inbox_contract_def by blast
  then show ?thesis
  proof
    assume "\<exists>ctx1 w1 r1 w2. view w1 = view w \<and> ?h ctx1 w1 = (r1, w2) \<and> view w' = view w2
        \<and> (if is_ok res then r1 = None \<and> finished w' = insert ?key (finished w) else finished w' = finished w)"
    then obtain ctx1 w1 r1 w2 where h: "view w1 = view w" "?h ctx1 w1 = (r1, w2)" "view w' = view w2"
      and f: "if is_ok res then r1 = None \<and> finished w' = insert ?key (finished w) else finished w' = finished w"
      by blast
    from apply_view [OF assms(1) h(2)] h(1,3) f r show ?thesis by (cases "is_ok res") auto
  qed (use r in auto)
qed

lemma projection_guarded:
  assumes "external_gte e view" and "inbox_contract process finished view"
    and "consistent (event_key de) (event_version de) (event_payload e de) U"
    and unique: "inj_on en_EventId U"
  shows "guarded_index (handleEvent process de (store_service e check) durable ctx) view
    (event_key de) (event_version de) (event_payload e de) (inbox_inv U durable e de finished view) (\<lambda>en. en \<in> U)"
proof
  fix w en w'
  assume inv: "inbox_inv U durable e de finished view w" and en: "en \<in> U"
    and run: "handleEvent process de (store_service e check) durable ctx en w = (None, w')"
  show "view w' = latest (event_key de en) (event_version de en) (event_payload e de en) (view w)"
    using handle_cases [OF assms(1,2) run] inv en by (auto simp: inbox_inv_def absorb_def)
next
  fix w en err w'
  assume "inbox_inv U durable e de finished view w" "en \<in> U"
    and run: "handleEvent process de (store_service e check) durable ctx en w = (Some err, w')"
  show "view w' = view w \<or> view w' = latest (event_key de en) (event_version de en) (event_payload e de en) (view w)"
    using handle_cases [OF assms(1,2) run] by (auto simp: absorb_def)
next
  fix w en r w'
  assume inv: "inbox_inv U durable e de finished view w" and en: "en \<in> U"
    and run: "handleEvent process de (store_service e check) durable ctx en w = (r, w')"
  have stays: "absorbEvent e de d (absorbEvent e de en (view w)) = absorbEvent e de en (view w)"
    if "d \<in> U" "absorbEvent e de d (view w) = view w" for d
    using absorbed_stays [OF assms(3) that(1) en that(2)] .
  have same: "d = en" if "d \<in> U" "en_EventId d = en_EventId en" for d
    using unique that en by (auto dest: inj_onD)
  from handle_cases [OF assms(1,2) run]
  show "inbox_inv U durable e de finished view w'"
  proof
    assume "view w' = view w \<and> finished w' = finished w \<and> (r = None \<longrightarrow> (durable, en_EventId en) \<in> finished w)"
    then show ?thesis using inv by (simp add: inbox_inv_def)
  next
    assume h: "view w' = absorbEvent e de en (view w) \<and> (r \<noteq> None \<longrightarrow> finished w' = finished w)
       \<and> (r = None \<longrightarrow> finished w' = insert (durable, en_EventId en) (finished w))"
    show ?thesis unfolding inbox_inv_def
    proof (intro ballI impI)
      fix d assume d: "d \<in> U" and fin: "(durable, en_EventId d) \<in> finished w'"
      show "absorbEvent e de d (view w') = view w'"
      proof (cases "(durable, en_EventId d) \<in> finished w")
        case True
        then have "absorbEvent e de d (view w) = view w" using inv d by (simp add: inbox_inv_def)
        then show ?thesis using stays [OF d] h by simp
      next
        case False
        then have "en_EventId d = en_EventId en" using fin h by (cases r) auto
        then have "d = en" using same d by blast
        then show ?thesis using h by (simp add: absorb_absorbed)
      qed
    qed
  qed
qed

section \<open>The same over an index that forgets deletions\<close>

lemma apply_forgetful:
  assumes "forgetful_gte e view"
    and "applySearchEvent de ctx (store_service e check) en w = (r, w')"
  shows "\<exists>m. forgets (view w) m \<and> (view w' = absorbEvent e de en m \<or> (r \<noteq> None \<and> view w' = m))"
proof (cases "event_change de en")
  case None
  then have "r \<noteq> None \<and> view w' = view w" using assms(2) apply_cases [of de ctx e check en w] by auto
  then show ?thesis by (intro exI [of _ "view w"]) simp
next
  case (Some c)
  then have "applyChange e ctx c w = (r, w')" using assms(2) apply_cases [of de ctx e check en w] by simp
  from applyChange_forgetful [OF assms(1) this] show ?thesis
    by (simp add: absorb_def event_key_def event_version_def event_payload_def Some)
qed

lemma handle_forgetful:
  assumes "forgetful_gte e view" and "inbox_contract process finished view"
    and "handleEvent process de (store_service e check) durable ctx en w = (r, w')"
  shows "(forgets (view w) (view w') \<and> finished w' = finished w \<and> (r = None \<longrightarrow> (durable, en_EventId en) \<in> finished w))
    \<or> (\<exists>m. forgets (view w) m \<and> view w' = absorbEvent e de en m \<and> (r \<noteq> None \<longrightarrow> finished w' = finished w)
       \<and> (r = None \<longrightarrow> finished w' = insert (durable, en_EventId en) (finished w)))"
proof (cases "en_SchemaVersion en = 1")
  case False
  then show ?thesis using assms(3) by (auto simp: handleEvent_def)
next
  case True
  let ?h = "\<lambda>ctx'. applySearchEvent de ctx' (store_service e check) en"
  let ?key = "(durable, en_EventId en)"
  obtain res where run: "process ctx ?key ''search-event-consumer'' ?h w = (res, w')"
    and r: "r = None \<longleftrightarrow> is_ok res"
    using assms(3) True by (auto simp: handleEvent_def split: prod.splits sum.splits)
  from assms(2) run have
    "(view w' = view w \<and> finished w' = finished w \<and> (?key \<in> finished w \<or> \<not> is_ok res))
     \<or> (\<exists>ctx1 w1 r1 w2. view w1 = view w \<and> ?h ctx1 w1 = (r1, w2) \<and> view w' = view w2
        \<and> (if is_ok res then r1 = None \<and> finished w' = insert ?key (finished w) else finished w' = finished w))"
    unfolding inbox_contract_def by blast
  then show ?thesis
  proof
    assume "\<exists>ctx1 w1 r1 w2. view w1 = view w \<and> ?h ctx1 w1 = (r1, w2) \<and> view w' = view w2
        \<and> (if is_ok res then r1 = None \<and> finished w' = insert ?key (finished w) else finished w' = finished w)"
    then obtain ctx1 w1 r1 w2 where h: "view w1 = view w" "?h ctx1 w1 = (r1, w2)" "view w' = view w2"
      and f: "if is_ok res then r1 = None \<and> finished w' = insert ?key (finished w) else finished w' = finished w"
      by blast
    obtain m where "forgets (view w) m" "view w' = absorbEvent e de en m \<or> (r1 \<noteq> None \<and> view w' = m)"
      using apply_forgetful [OF assms(1) h(2)] h(1,3) by auto
    with f r show ?thesis by (cases "is_ok res") auto
  qed (use r in auto)
qed

section \<open>A reference world: Inbox and index\<close>

type_synonym world = "(string \<times> string) set \<times> stored index_view"

definition world_store :: "string \<Rightarrow> (SearchDocument \<Rightarrow> string) \<Rightarrow> world Store" where
  "world_store index text = \<lparr>st_wire = \<lparr>
     wi_perform = (\<lambda>ctx rq w. case ref_perform index ctx rq (snd w) of (res, m) \<Rightarrow> (res, (fst w, m))),
     wi_marshal = (\<lambda>d. Inr (text d)), wi_unmarshal = (\<lambda>_. Inl (Plain ''no document'')),
     wi_decode = (\<lambda>_. Inr \<lparr>rw_Took = 0, rw_Total = 0, rw_Hits = [], rw_Aggregations = []\<rparr>),
     wi_observe = None\<rparr>, st_index = index\<rparr>"

definition ref_process :: "world Process" where
  "ref_process ctx key actor h w =
     (if key \<in> fst w then (Inr False, w)
      else case h ctx w of
          (Some e, w1) \<Rightarrow> (Inl e, (fst w, snd w1))
        | (None, w1) \<Rightarrow> (Inr True, (insert key (fst w), snd w1)))"

lemma world_store_simps [simp]:
  "st_index (world_store index text) = index"
  "wi_marshal (st_wire (world_store index text)) = (\<lambda>d. Inr (text d))"
  "observe (world_store index text) status w = w"
  by (simp_all add: world_store_def observe_def)

lemma world_perform [simp]:
  "wi_perform (st_wire (world_store index text)) ctx rq w =
     (case ref_perform index ctx rq (snd w) of (res, m) \<Rightarrow> (res, (fst w, m)))"
  by (simp add: world_store_def)

lemma world_parse [simp]:
  "parse_document_path index (document_path (world_store index text) k v) = Some (k, sint v)"
  using parse_document_path [of "world_store index text" k v] by (simp del: parse_document_path)

lemma world_external_gte: "external_gte (world_store index text) snd"
  unfolding external_gte_def by (auto simp: ref_perform_def intro: ref_write_outcome split: prod.splits)

lemma ref_process_contract: "inbox_contract ref_process fst snd"
  unfolding inbox_contract_def
proof (intro allI impI)
  fix ctx key actor h and w :: world and res w'
  assume run: "ref_process ctx key actor h w = (res, w')"
  show "(snd w' = snd w \<and> fst w' = fst w \<and> (key \<in> fst w \<or> \<not> is_ok res))
    \<or> (\<exists>ctx1 w1 r w2. snd w1 = snd w \<and> h ctx1 w1 = (r, w2) \<and> snd w' = snd w2
        \<and> (if is_ok res then r = None \<and> fst w' = insert key (fst w) else fst w' = fst w))"
  proof (cases "key \<in> fst w")
    case True
    then show ?thesis using run by (simp add: ref_process_def)
  next
    case False
    obtain r w2 where h: "h ctx w = (r, w2)" by (cases "h ctx w")
    have "snd w' = snd w2 \<and> (if is_ok res then r = None \<and> fst w' = insert key (fst w) else fst w' = fst w)"
      using run False h by (cases r) (auto simp: ref_process_def)
    with h show ?thesis by blast
  qed
qed

text \<open>One event, delivered any number of times.\<close>

interpretation redelivery: guarded_index
    "handleEvent ref_process de (store_service (world_store index render) check) durable ctx" snd
    "event_key de" "event_version de" "event_payload (world_store index render) de"
    "inbox_inv {en} durable (world_store index render) de fst snd" "\<lambda>d. d \<in> {en}"
  for de index render check durable ctx en
  by (rule projection_guarded [OF world_external_gte ref_process_contract]) (simp_all add: consistent_def)

lemma world_applyChange:
  "applyChange (world_store index text) ctx c w
     = (None, (fst w, absorb change_key change_version (change_payload (world_store index text)) c (snd w)))"
  by (cases c)
    (auto simp: Upsert_one Delete_one upsertOne_def deleteOne_def doJSON_def ref_perform_def ref_write_def
      success_def no_target_def absorb_def latest_def key_id_def [symmetric] Let_def
      simp del: Upsert.simps Delete.simps)

lemma world_handle:
  assumes "event_change de en = Some c" and "en_SchemaVersion en = 1"
  shows "handleEvent ref_process de (store_service (world_store index text) check) durable ctx en w =
    (None, if (durable, en_EventId en) \<in> fst w then w
       else (insert (durable, en_EventId en) (fst w), absorbEvent (world_store index text) de en (snd w)))"
  using apply_cases [of de ctx "world_store index text" check en w] assms
  by (simp add: handleEvent_def ref_process_def world_applyChange absorb_def event_key_def event_version_def
      event_payload_def)

section \<open>What the projection converges to\<close>

text \<open>The projection, within the period for which OpenSearch remembers deletions. Let the bus deliver the
  events of a stream in any order and as often as it likes,
  with failures of the decoder, the service, OpenSearch or the Inbox in between. Once each event was
  handled without an error at least once, the index holds what applying every event once, in any
  order, would leave, provided event identifiers are unique and events for one document and version
  carry the same content.\<close>

theorem projection_converges:
  assumes "external_gte e view" and "inbox_contract process finished view"
    and "consistent (event_key de) (event_version de) (event_payload e de) (set ens)"
    and "inj_on en_EventId (set ens)" and "finished w = {}"
    and "deliver (handleEvent process de (store_service e check) durable ctx) ens w = (rs, w')"
    and "all_succeeded ens rs" and "set events = set ens"
  shows "view w' = fold (absorb (event_key de) (event_version de) (event_payload e de)) events (view w)"
proof -
  have "inbox_inv (set ens) durable e de finished view w" using assms(5) by (simp add: inbox_inv_def)
  moreover have "list_all (\<lambda>en. en \<in> set ens) ens" by (simp add: list_all_iff)
  ultimately show ?thesis
    using guarded_index.converges [OF projection_guarded [OF assms(1-4)] _ _ assms(6,7,3,8)] by blast
qed

definition example_decoders :: Decoders where
  "example_decoders = \<lparr>
     de_upserted = (\<lambda>p. Inr (Some (empty_document\<lparr>sd_TenantId := ''t'', sd_SourceService := ''s'',
       sd_DocumentType := ''d'', sd_SourceId := ''1'', sd_Title := p, sd_SourceVersion := 2,
       sd_VisibilityTokens := [''user:u'']\<rparr>))),
     de_deleted = (\<lambda>p. Inr (Some \<lparr>dk_TenantId = ''t'', dk_SourceService = ''s'', dk_DocumentType = ''d'',
       dk_SourceId = ''1'', dk_SourceVersion = 3\<rparr>))\<rparr>"

definition example_upserted :: Envelope where
  "example_upserted = \<lparr>en_SchemaVersion = 1, en_EventType = searchUpsertedEvent, en_EventId = ''e1'',
     en_TenantId = ''t'', en_Payload = ''title''\<rparr>"

definition example_deleted :: Envelope where
  "example_deleted = \<lparr>en_SchemaVersion = 1, en_EventType = searchDeletedEvent, en_EventId = ''e2'',
     en_TenantId = ''t'', en_Payload = ''''\<rparr>"

lemma example_changes:
  "event_change example_decoders example_upserted = Some (Upserted (withCanonicalID
     (empty_document\<lparr>sd_TenantId := ''t'', sd_SourceService := ''s'', sd_DocumentType := ''d'', sd_SourceId := ''1'',
       sd_Title := ''title'', sd_SourceVersion := 2, sd_VisibilityTokens := [''user:u'']\<rparr>)))"
  "event_change example_decoders example_deleted = Some (Deleted \<lparr>dk_TenantId = ''t'', dk_SourceService = ''s'',
     dk_DocumentType = ''d'', dk_SourceId = ''1'', dk_SourceVersion = 3\<rparr>)"
  by (simp_all add: event_change_def example_decoders_def example_upserted_def example_deleted_def
      searchUpsertedEvent_def searchDeletedEvent_def acceptableDocument_def completeDocument_def completeKey_def
      validateVisibility_def validToken_def subjectPrefixes_def empty_document_def Let_def trim_eval)

lemma example_key:
  "event_key example_decoders example_upserted = ''t:s:d:1''" "event_key example_decoders example_deleted = ''t:s:d:1''"
  "event_version example_decoders example_upserted = 2" "event_version example_decoders example_deleted = 3"
  "event_payload e example_decoders example_deleted = None"
  by (simp_all add: event_key_def event_version_def event_payload_def example_changes key_id_def CanonicalID_append
      empty_document_def)

text \<open>The deletion arrives first, then the older upsert, then the deletion again.\<close>

theorem projection_converges_witness:
  "snd (snd (deliver (handleEvent ref_process example_decoders
       (store_service (world_store ''i'' sd_Title) allowAllApplications_Check) ''d'' background)
       [example_deleted, example_upserted, example_deleted] ({}, Map.empty))) ''t:s:d:1'' = Some (3, None)"
proof -
  let ?step = "handleEvent ref_process example_decoders
       (store_service (world_store ''i'' sd_Title) allowAllApplications_Check) ''d'' background"
  let ?ens = "[example_deleted, example_upserted, example_deleted]"
  have schema: "en_SchemaVersion example_upserted = 1" "en_SchemaVersion example_deleted = 1"
    by (simp_all add: example_upserted_def example_deleted_def)
  have ids: "en_EventId example_upserted = ''e1''" "en_EventId example_deleted = ''e2''"
    by (simp_all add: example_upserted_def example_deleted_def)
  obtain w' where run: "deliver ?step ?ens ({}, Map.empty) = ([None, None, None], w')"
    by (simp add: world_handle [OF example_changes(1) schema(1)] world_handle [OF example_changes(2) schema(2)])
  have cons: "consistent (event_key example_decoders) (event_version example_decoders)
      (event_payload (world_store ''i'' sd_Title) example_decoders) (set ?ens)"
    by (simp add: consistent_def example_key)
  have inj: "inj_on en_EventId (set ?ens)" by (auto simp: inj_on_def ids)
  have succ: "all_succeeded ?ens [None, None, None]" by (simp add: all_succeeded_def)
  have start: "fst ({} :: (string \<times> string) set, Map.empty :: stored index_view) = {}"
    and same: "set [example_upserted, example_deleted] = set ?ens" by auto
  show ?thesis
    using projection_converges [OF world_external_gte ref_process_contract cons inj start run succ same]
    unfolding run by (simp add: absorb_def latest_def admissible_def example_key)
qed

text \<open>Through the Inbox as well, no delivery sequence within that period, with whatever failures, lowers the
  version the index remembers for a document.\<close>

theorem projection_monotone:
  assumes "external_gte e view" and "inbox_contract process finished view"
    and "consistent (event_key de) (event_version de) (event_payload e de) (set ens)"
    and "inj_on en_EventId (set ens)" and "finished w = {}"
    and "deliver (handleEvent process de (store_service e check) durable ctx) ens w = (rs, w')"
    and "view w k = Some (v, p)"
  shows "\<exists>v' p'. view w' k = Some (v', p') \<and> v \<le> v'"
proof -
  have "inbox_inv (set ens) durable e de finished view w" using assms(5) by (simp add: inbox_inv_def)
  moreover have "list_all (\<lambda>en. en \<in> set ens) ens" by (simp add: list_all_iff)
  ultimately have "version_le (view w) (view w')"
    using guarded_index.deliver_monotone [OF projection_guarded [OF assms(1-4)] _ _ assms(6)] by blast
  then show ?thesis using assms(7) by (auto simp: version_le_def)
qed

theorem projection_monotone_witness:
  "\<exists>v' p'. snd (snd (deliver (handleEvent ref_process example_decoders
       (store_service (world_store ''i'' sd_Title) allowAllApplications_Check) ''d'' background)
       [example_upserted] ({}, [''t:s:d:1'' \<mapsto> (7, None)]))) ''t:s:d:1'' = Some (v', p') \<and> 7 \<le> v'"
proof -
  let ?step = "handleEvent ref_process example_decoders
       (store_service (world_store ''i'' sd_Title) allowAllApplications_Check) ''d'' background"
  obtain rs w' where run: "deliver ?step [example_upserted] ({}, [''t:s:d:1'' \<mapsto> (7, None)]) = (rs, w')"
    by (cases "deliver ?step [example_upserted] ({}, [''t:s:d:1'' \<mapsto> (7, None)])")
  have "\<exists>v' p'. snd w' ''t:s:d:1'' = Some (v', p') \<and> 7 \<le> v'"
    using projection_monotone [OF world_external_gte ref_process_contract _ _ _ run, of "''t:s:d:1''" 7 None]
    by (simp add: consistent_def)
  then show ?thesis using run by simp
qed

end
