(* ===== verification/Startup.thy ===== *)
theory Startup
  imports Cache Database Projection GrpcClient Wiring
begin

text \<open>
  The construction of the process's parts and their lifecycle hooks: \<^verbatim>\<open>internal/app/app.go\<close>,
  \<^verbatim>\<open>searchstore.New\<close>, \<^verbatim>\<open>internal/eventbus\<close>, \<^verbatim>\<open>internal/observability/tracing.go\<close>, \<^verbatim>\<open>internal/logging\<close>,
  \<^verbatim>\<open>internal/idempotency/manager.go\<close>, and the construction, start and stop of the two servers. A
  constructor appends its hooks to those of the application; running them is the fx library's part.
\<close>

record 'w Hook =
  hk_start :: "('w, err) call_err"
  hk_stop :: "('w, err) call_err"

definition no_hook :: "('w, err) call_err" where "no_hook w = (None, w)"

definition StopHook :: "('w, err) call_err \<Rightarrow> 'w Hook" where
  "StopHook f = \<lparr>hk_start = no_hook, hk_stop = f\<rparr>"

text \<open>A constructor: from the hooks so far and the state to a result, the hooks and the state.\<close>

type_synonym ('w, 'a) provider = "'w Hook list \<Rightarrow> 'w \<Rightarrow> (err + 'a) \<times> 'w Hook list \<times> 'w"

section \<open>Storage\<close>

definition newDatabase :: "'w DBLib \<Rightarrow> (Pool \<Rightarrow> ('w, err) call_err) \<Rightarrow> Config \<Rightarrow> ('w, Pool option) provider" where
  "newDatabase l closing cfg hooks w =
     (if \<not> db_Enabled (cfg_Database cfg) then (Inr None, hooks, w)
      else case OpenDatabase l background (cfg_Database cfg) w of
          (Inl e, w') \<Rightarrow> (Inl e, hooks, w')
        | (Inr db, w') \<Rightarrow> (Inr (Some db), hooks @ [StopHook (closing db)], w'))"

definition newRedis :: "'w RedisLib \<Rightarrow> ('w, err) call_err \<Rightarrow> ('w, err) call_err \<Rightarrow> bool \<Rightarrow> Config \<Rightarrow> ('w, RedisOptions option) provider" where
  "newRedis l instrument closing tracing cfg hooks w =
     (if \<not> redis_Enabled (cfg_Redis cfg) then (Inr None, hooks, w)
      else case OpenRedis l background (cfg_Redis cfg) w of
          (Inl e, w1) \<Rightarrow> (Inl e, hooks, w1)
        | (Inr client, w1) \<Rightarrow>
            (if tracing then
               (case instrument w1 of
                  (Some e, w2) \<Rightarrow> (Inl (prefixed ''instrument redis tracing'' e), hooks, rl_close l w2)
                | (None, w2) \<Rightarrow> (Inr (Some client), hooks @ [StopHook closing], w2))
             else (Inr (Some client), hooks @ [StopHook closing], w1)))"

definition newLocker :: "RedisOptions option \<Rightarrow> 'w Redsync \<Rightarrow> 'w Redsync option" where
  "newLocker client l = (case client of None \<Rightarrow> None | Some _ \<Rightarrow> Some l)"

section \<open>The event bus\<close>

record BusConfig =
  bc_URLs :: "string list"
  bc_ClientName :: string
  bc_StreamName :: string
  bc_Subjects :: "string list"
  bc_Storage :: string
  bc_MaxAge :: Duration
  bc_DuplicateWindow :: Duration
  bc_ConnectTimeout :: Duration
  bc_ReconnectWait :: Duration
  bc_PublishTimeout :: Duration
  bc_ConsumerAckWait :: Duration
  bc_ConsumerAckTimeout :: Duration
  bc_ConsumerHandlerTimeout :: Duration
  bc_ConsumerRetryDelay :: Duration
  bc_ConsumerMaxRetryDelay :: Duration
  bc_ConsumerMaxDeliver :: int
  bc_ConsumerMaxAckPending :: int
  bc_DeadLetterSubject :: string
  bc_DeadLetterMaxDataBytes :: int

record 'w BusLib =
  bl_new :: "BusConfig \<Rightarrow> ('w, err) call_err"
  bl_publish :: "Ctx \<Rightarrow> string \<Rightarrow> Envelope \<Rightarrow> ('w, err) call_err"
  bl_close :: "('w, err) call_err"

definition busConfig :: "Config \<Rightarrow> BusConfig" where
  "busConfig cfg = (let b = cfg_EventBus cfg in
     \<lparr>bc_URLs = bus_URLs b, bc_ClientName = app_Name (cfg_App cfg), bc_StreamName = bus_StreamName b,
      bc_Subjects = bus_Subjects b, bc_Storage = bus_Storage b, bc_MaxAge = bus_MaxAge b,
      bc_DuplicateWindow = bus_DuplicateWindow b, bc_ConnectTimeout = bus_ConnectTimeout b,
      bc_ReconnectWait = bus_ReconnectWait b, bc_PublishTimeout = bus_PublishTimeout b,
      bc_ConsumerAckWait = bus_ConsumerAckWait b, bc_ConsumerAckTimeout = bus_ConsumerAckTimeout b,
      bc_ConsumerHandlerTimeout = bus_ConsumerHandlerTimeout b, bc_ConsumerRetryDelay = bus_ConsumerRetryDelay b,
      bc_ConsumerMaxRetryDelay = bus_ConsumerMaxRetryDelay b, bc_ConsumerMaxDeliver = bus_ConsumerMaxDeliver b,
      bc_ConsumerMaxAckPending = bus_ConsumerMaxAckPending b, bc_DeadLetterSubject = bus_DeadLetterSubject b,
      bc_DeadLetterMaxDataBytes = bus_DeadLetterMaxDataBytes b\<rparr>)"

text \<open>The bus is \<^verbatim>\<open>None\<close> when it is disabled, and the library's operations on it otherwise.\<close>

definition NewBus :: "'w BusLib \<Rightarrow> Config \<Rightarrow> ('w, err, 'w BusLib option) call" where
  "NewBus l cfg w =
     (if \<not> bus_Enabled (cfg_EventBus cfg) then (Inr None, w)
      else case bl_new l (busConfig cfg) w of
          (Some e, w') \<Rightarrow> (Inl e, w')
        | (None, w') \<Rightarrow> (Inr (Some l), w'))"

definition PublishEvent :: "Ctx \<Rightarrow> 'w BusLib option \<Rightarrow> string \<Rightarrow> Envelope \<Rightarrow> ('w, err) call_err" where
  "PublishEvent ctx bus subject envelope w =
     (case bus of None \<Rightarrow> (Some (Plain ''event bus is disabled''), w) | Some b \<Rightarrow> bl_publish b ctx subject envelope w)"

definition CloseBus :: "'w BusLib option \<Rightarrow> ('w, err) call_err" where
  "CloseBus bus w = (case bus of None \<Rightarrow> (None, w) | Some b \<Rightarrow> bl_close b w)"

definition newBusProvider :: "'w BusLib \<Rightarrow> Config \<Rightarrow> ('w, 'w BusLib option) provider" where
  "newBusProvider l cfg hooks w =
     (case NewBus l cfg w of
        (Inl e, w') \<Rightarrow> (Inl e, hooks, w')
      | (Inr bus, w') \<Rightarrow> (Inr bus, hooks @ [StopHook (CloseBus bus)], w'))"

record IdempotencyConfig =
  ic_Enabled :: bool
  ic_Service :: string
  ic_ProcessingTTL :: Duration
  ic_ResultTTL :: Duration
  ic_FailureTTL :: Duration

definition idempotencyConfig :: "Config \<Rightarrow> IdempotencyConfig" where
  "idempotencyConfig cfg = (let i = cfg_Idempotency cfg in
     \<lparr>ic_Enabled = idem_Enabled i, ic_Service = app_Name (cfg_App cfg), ic_ProcessingTTL = idem_ProcessingTTL i,
      ic_ResultTTL = idem_ResultTTL i, ic_FailureTTL = idem_FailureTTL i\<rparr>)"

section \<open>The search engine\<close>

record EngineOptions =
  eo_Addresses :: "string list"
  eo_Username :: string
  eo_Password :: string
  eo_RequestTimeout :: Duration
  eo_MaxRetries :: int
  eo_EnableRetryOnTimeout :: bool
  eo_InsecureSkipVerify :: bool

definition engineOptions :: "OpenSearch \<Rightarrow> EngineOptions" where
  "engineOptions o' = \<lparr>eo_Addresses = os_Addresses o', eo_Username = os_Username o', eo_Password = os_Password o',
     eo_RequestTimeout = os_Timeout o', eo_MaxRetries = 2, eo_EnableRetryOnTimeout = True,
     eo_InsecureSkipVerify = os_InsecureSkipVerify o'\<rparr>"

definition NewEngine :: "(EngineOptions \<Rightarrow> err + 'w Wire) \<Rightarrow> ('w, err) call_err \<Rightarrow> Ctx \<Rightarrow> Config \<Rightarrow> ('w, 'w Store) provider" where
  "NewEngine newClient closeIdle ctx cfg hooks w =
     (if \<not> os_Enabled (cfg_OpenSearch cfg) then (Inl (Plain ''opensearch must be enabled for search-service''), hooks, w)
      else case newClient (engineOptions (cfg_OpenSearch cfg)) of
          Inl e \<Rightarrow> (Inl (prefixed ''create opensearch client'' e), hooks, w)
        | Inr client \<Rightarrow>
            (let engine = \<lparr>st_wire = client, st_index = os_Index (cfg_OpenSearch cfg)\<rparr>
             in (Inr engine, hooks @ [\<lparr>hk_start = ensureIndex engine ctx, hk_stop = no_hook\<rparr>, StopHook closeIdle], w)))"

section \<open>Tracing and logging\<close>

record TracingSettings =
  ts_Endpoint :: string
  ts_Service :: string
  ts_Version :: string
  ts_SampleRatio :: float64

definition NewTracing :: "(string \<Rightarrow> err option) \<Rightarrow> ('w, err) call_err \<Rightarrow> string \<Rightarrow> Config \<Rightarrow> ('w, TracingSettings option) provider" where
  "NewTracing newExporter shutdown version cfg hooks w =
     (let o' = cfg_Observability cfg in
      if \<not> obs_TracingEnabled o' then (Inr None, hooks, w)
      else case newExporter (obs_TracingEndpoint o') of
          Some e \<Rightarrow> (Inl (prefixed ''create OTLP trace exporter'' e), hooks, w)
        | None \<Rightarrow> (Inr (Some \<lparr>ts_Endpoint = obs_TracingEndpoint o', ts_Service = app_Name (cfg_App cfg), ts_Version = version,
              ts_SampleRatio = obs_TracingSampleRatio o'\<rparr>), hooks @ [StopHook shutdown], w))"

datatype LogHandler = TextHandler | JSONHandler

record LogSettings =
  ls_File :: string
  ls_MaxSize :: int
  ls_MaxBackups :: int
  ls_MaxAge :: int
  ls_Compress :: bool
  ls_Level :: string
  ls_Handler :: LogHandler

text \<open>\<^verbatim>\<open>level\<close> is the library's reading of a level's text.\<close>

definition NewLogging :: "(string \<Rightarrow> ('w, err) call_err) \<Rightarrow> (string \<Rightarrow> string) \<Rightarrow> (string \<Rightarrow> err option) \<Rightarrow> Log \<Rightarrow> ('w, err, LogSettings) call" where
  "NewLogging mkdirAll dir level cfg w =
     (case mkdirAll (dir (log_File cfg)) w of
        (Some e, w') \<Rightarrow> (Inl (prefixed ''create log directory'' e), w')
      | (None, w') \<Rightarrow>
          (case level (ToLower (log_Level cfg)) of
             Some e \<Rightarrow> (Inl (prefixed ''parse log level'' e), w')
           | None \<Rightarrow> (Inr \<lparr>ls_File = log_File cfg, ls_MaxSize = log_MaxSizeMB cfg, ls_MaxBackups = log_MaxBackups cfg,
                ls_MaxAge = log_MaxAgeDays cfg, ls_Compress = log_Compress cfg, ls_Level = ToLower (log_Level cfg),
                ls_Handler = (if log_Format cfg = ''text'' then TextHandler else JSONHandler)\<rparr>, w')))"

text \<open>The logger with the attributes it adds to every line.\<close>

definition newLogger ::
    "(Log \<Rightarrow> ('w, err, LogSettings) call) \<Rightarrow> ('w, err) call_err \<Rightarrow> Config \<Rightarrow> ('w, LogSettings \<times> (string \<times> string) list) provider" where
  "newLogger newLogging closing cfg hooks w =
     (case newLogging (cfg_Log cfg) w of
        (Inl e, w') \<Rightarrow> (Inl e, hooks, w')
      | (Inr logger, w') \<Rightarrow>
          (Inr (logger, [(''service'', app_Name (cfg_App cfg)), (''environment'', rt_ActiveProfile (cfg_Runtime cfg))]),
           hooks @ [StopHook closing], w'))"

section \<open>The servers\<close>

text \<open>The server's side of TLS 1.2 and later: its certificate and key, and the CAs that clients must be certified by.\<close>

record ServerTLS =
  sv_Certificate :: "string \<times> string"
  sv_ClientCAs :: "string option"
  sv_RequireClientCert :: bool

definition serverCredentials :: "Files \<Rightarrow> GRPCTLS \<Rightarrow> err + ServerTLS" where
  "serverCredentials fs cfg =
     (case fs_keypair fs (grpctls_CertFile cfg) (grpctls_KeyFile cfg) of
        Some e \<Rightarrow> Inl (prefixed ''load grpc certificate'' e)
      | None \<Rightarrow>
          (case rootCAs fs ''read grpc client CA'' ''parse grpc client CA'' (grpctls_ClientCAFile cfg) of
             Inl e \<Rightarrow> Inl e
           | Inr ca \<Rightarrow> Inr \<lparr>sv_Certificate = (grpctls_CertFile cfg, grpctls_KeyFile cfg), sv_ClientCAs = ca,
                sv_RequireClientCert = (ca \<noteq> None)\<rparr>))"

text \<open>
  What a server does with the network. \<^verbatim>\<open>sl_graceful\<close> waits for the calls in progress or for the end of
  the context, whose error it then returns.
\<close>

record 'w ServerLib =
  sl_listen :: "string \<Rightarrow> ('w, err) call_err"
  sl_serve :: "'w \<Rightarrow> 'w"
  sl_graceful :: "Ctx \<Rightarrow> ('w, err) call_err"
  sl_stop :: "'w \<Rightarrow> 'w"

definition grpcStart :: "'w ServerLib \<Rightarrow> string \<Rightarrow> bool \<Rightarrow> ('w, err) call_err" where
  "grpcStart l address enabled w =
     (if \<not> enabled then (None, w)
      else case sl_listen l address w of
          (Some e, w') \<Rightarrow> (Some (prefixed ''listen grpc'' e), w')
        | (None, w') \<Rightarrow> (None, sl_serve l w'))"

definition grpcStop :: "'w ServerLib \<Rightarrow> Ctx \<Rightarrow> ('w, err) call_err" where
  "grpcStop l ctx w =
     (case sl_graceful l ctx w of
        (None, w') \<Rightarrow> (None, w')
      | (Some e, w') \<Rightarrow> (Some e, sl_stop l w'))"

record GRPCServerOptions =
  go_MaxRecvMsgSize :: int
  go_Creds :: "ServerTLS option"
  go_Reflection :: bool
  go_Address :: string

definition NewGRPCServer :: "'w ServerLib \<Rightarrow> Files \<Rightarrow> Ctx \<Rightarrow> Config \<Rightarrow> ('w, GRPCServerOptions) provider" where
  "NewGRPCServer l fs ctx cfg hooks w =
     (let g = cfg_GRPC cfg;
          creds = (if grpctls_Enabled (grpc_TLS g)
                   then (case serverCredentials fs (grpc_TLS g) of Inl e \<Rightarrow> Inl e | Inr c \<Rightarrow> Inr (Some c)) else Inr None)
      in case creds of
          Inl e \<Rightarrow> (Inl e, hooks, w)
        | Inr c \<Rightarrow>
            (Inr \<lparr>go_MaxRecvMsgSize = grpc_MaxReceiveBytes g, go_Creds = c, go_Reflection = grpc_ReflectionEnabled g, go_Address = grpc_Address g\<rparr>,
             hooks @ [\<lparr>hk_start = grpcStart l (grpc_Address g) (grpc_Enabled g), hk_stop = grpcStop l ctx\<rparr>], w))"

record HTTPServerOptions =
  ho_Addr :: string
  ho_ReadTimeout :: Duration
  ho_WriteTimeout :: Duration
  ho_IdleTimeout :: Duration
  ho_TrustedProxies :: "string list"
  ho_ReleaseMode :: bool

definition httpStart :: "'w ServerLib \<Rightarrow> string \<Rightarrow> ('w, err) call_err" where
  "httpStart l address w =
     (case sl_listen l address w of
        (Some e, w') \<Rightarrow> (Some (prefixed ''listen http'' e), w')
      | (None, w') \<Rightarrow> (None, sl_serve l w'))"

definition NewHTTPServer :: "'w ServerLib \<Rightarrow> (string list \<Rightarrow> err option) \<Rightarrow> Ctx \<Rightarrow> Config \<Rightarrow> ('w, HTTPServerOptions) provider" where
  "NewHTTPServer l trustedProxies ctx cfg hooks w =
     (let h = cfg_HTTP cfg in
      case trustedProxies (http_TrustedProxies h) of
        Some e \<Rightarrow> (Inl (prefixed ''configure trusted proxies'' e), hooks, w)
      | None \<Rightarrow>
          (Inr \<lparr>ho_Addr = http_Address h, ho_ReadTimeout = http_ReadTimeout h, ho_WriteTimeout = http_WriteTimeout h,
              ho_IdleTimeout = http_IdleTimeout h, ho_TrustedProxies = http_TrustedProxies h,
              ho_ReleaseMode = (app_Env (cfg_App cfg) = ''production'')\<rparr>,
           hooks @ [\<lparr>hk_start = httpStart l (http_Address h), hk_stop = sl_graceful l ctx\<rparr>], w))"

section \<open>Nothing is left open\<close>

text \<open>A count of open clients that the library keeps: opening adds one, closing takes one, the rest nothing.\<close>

definition counts_open :: "'w RedisLib \<Rightarrow> ('w, err) call_err \<Rightarrow> ('w, err) call_err \<Rightarrow> ('w \<Rightarrow> int) \<Rightarrow> bool" where
  "counts_open l instrument closing n \<longleftrightarrow>
     (\<forall>w. (\<forall>opts. n (rl_open l opts w) = n w + 1) \<and> (\<forall>ctx. n (snd (rl_ping l ctx w)) = n w)
        \<and> n (rl_close l w) = n w - 1 \<and> n (snd (instrument w)) = n w \<and> n (snd (closing w)) = n w - 1)"

lemma OpenRedis_count:
  assumes "counts_open l instrument closing n" and "OpenRedis l ctx cfg w = (r, w')"
  shows "n w' = n w + (case r of Inl _ \<Rightarrow> 0 | Inr _ \<Rightarrow> 1)"
proof -
  have laws: "n (rl_open l opts v) = n v + 1" "n (snd (rl_ping l ctx v)) = n v" "n (rl_close l v) = n v - 1" for opts v
    using assms(1) by (simp_all add: counts_open_def)
  obtain e w1 where "rl_ping l ctx (rl_open l (redisOptions cfg) w) = (e, w1)" by (rule prod.exhaust)
  then show ?thesis using assms(2) laws(1) [of "redisOptions cfg" w] laws(2) [of "rl_open l (redisOptions cfg) w"] laws(3) [of w1]
    by (cases e) (auto simp: OpenRedis_def)
qed

text \<open>The Redis client and its stop hook. Either the application gets a client, which is open, and one more hook
  that closes it; or it gets none, by configuration or by an error, no client is left open and no
  hook is added.\<close>

theorem newRedis_closed:
  assumes "counts_open l instrument closing n" and "newRedis l instrument closing tracing cfg hooks w = (r, hooks', w')"
  shows "(\<exists>client. r = Inr (Some client) \<and> n w' = n w + 1 \<and> hooks' = hooks @ [StopHook closing] \<and> n (snd (hk_stop (last hooks') w')) = n w)
    \<or> ((\<exists>e. r = Inl e) \<or> r = Inr None) \<and> n w' = n w \<and> hooks' = hooks"
proof -
  have laws: "n (snd (instrument v)) = n v" "n (rl_close l v) = n v - 1" "n (snd (closing v)) = n v - 1" for v
    using assms(1) by (simp_all add: counts_open_def)
  obtain q w1 where opened: "OpenRedis l background (cfg_Redis cfg) w = (q, w1)" by (rule prod.exhaust)
  note count = OpenRedis_count [OF assms(1) opened]
  obtain e w2 where traced: "instrument w1 = (e, w2)" by (rule prod.exhaust)
  have "n w2 = n w1" using laws(1) [of w1] traced by simp
  then show ?thesis using assms(2) count laws(2) [of w2] laws(3)
    by (cases q; cases e) (auto simp: newRedis_def opened traced StopHook_def split: if_splits)
qed

definition counted_redis :: "int RedisLib" where
  "counted_redis = \<lparr>rl_open = (\<lambda>_ n. n + 1), rl_ping = (\<lambda>_ n. (None, n)), rl_close = (\<lambda>n. n - 1)\<rparr>"

definition redis_config :: Config where
  "redis_config = example_config\<lparr>cfg_Redis := (cfg_Redis example_config)\<lparr>redis_Enabled := True\<rparr>\<rparr>"

theorem newRedis_closed_witness:
  "newRedis counted_redis (\<lambda>n. (Some (Plain ''no provider''), n)) (\<lambda>n. (None, n - 1)) True redis_config [] 0
     = (Inl (prefixed ''instrument redis tracing'' (Plain ''no provider'')), [], 0)"
proof -
  let ?i = "\<lambda>n :: int. (Some (Plain ''no provider''), n)" and ?c = "\<lambda>n :: int. (None :: err option, n - 1)"
  have law: "counts_open counted_redis ?i ?c (\<lambda>n. n)" by (simp add: counts_open_def counted_redis_def)
  obtain r h w where run: "newRedis counted_redis ?i ?c True redis_config [] 0 = (r, h, w)" by (metis prod_cases3)
  have r: "r = Inl (prefixed ''instrument redis tracing'' (Plain ''no provider''))"
    using run by (auto simp: newRedis_def OpenRedis_def counted_redis_def redis_config_def)
  from newRedis_closed [OF law run] r have "w = 0 \<and> h = []" by auto
  then show ?thesis using run r by simp
qed

section \<open>Starting the projection\<close>

text \<open>Consuming events. With an accepted configuration the projection's start hook cannot fail. If the database
  and the bus could be constructed, then with the bus enabled the events of the configured subject are
  consumed under the configured durable name, against an Inbox; with the bus disabled nothing is.\<close>

theorem projection_starts:
  assumes "Validate cfg = None"
    and "newDatabase dl closeDB cfg hooks w = (Inr db, hooks1, w1)"
    and "NewBus bl cfg w1 = (Inr bus, w2)"
  shows "startSearchProjection (bus \<noteq> None) (newSearchInbox (db \<noteq> None) cfg \<noteq> None) cfg =
      Inr (if bus_Enabled (cfg_EventBus cfg) then Some (proj_Durable (cfg_Projection cfg), proj_Subject (cfg_Projection cfg)) else None)
    \<and> (bus_Enabled (cfg_EventBus cfg) \<longrightarrow> db \<noteq> None \<and> proj_Durable (cfg_Projection cfg) \<noteq> [] \<and> proj_Subject (cfg_Projection cfg) \<noteq> []
        \<and> newSearchInboxRetentionCleaner (newSearchInbox (db \<noteq> None) cfg \<noteq> None) cfg \<noteq> None)"
proof -
  have search: "validateSearch cfg = None" using assms(1) by (simp add: Validate_None)
  note search [unfolded validateSearch_def first_error_append first_error_Cons refuse_None]
  then have needs: "bus_Enabled (cfg_EventBus cfg) \<Longrightarrow> db_Enabled (cfg_Database cfg) \<and> proj_Durable (cfg_Projection cfg) \<noteq> []
      \<and> proj_Subject (cfg_Projection cfg) \<noteq> []" by simp
  have bus: "bus \<noteq> None \<longleftrightarrow> bus_Enabled (cfg_EventBus cfg)"
    using assms(3) by (auto simp: NewBus_def split: if_splits prod.splits option.splits)
  have db: "db \<noteq> None \<longleftrightarrow> db_Enabled (cfg_Database cfg)"
    using assms(2) by (auto simp: newDatabase_def split: if_splits prod.splits sum.splits)
  show ?thesis using needs bus db
    by (simp add: startSearchProjection_def newSearchInbox_def newSearchInboxRetentionCleaner_def Let_def)
qed

definition counted_db :: "int DBLib" where
  "counted_db = \<lparr>dl_parse_pgx = (\<lambda>_. Inr \<lparr>pg_Database = [], pg_RuntimeParams = Map.empty, pg_Rest = []\<rparr>),
     dl_parse_mysql = (\<lambda>_. Inl (Plain [])), dl_format_mysql = my_Rest, dl_load_location = (\<lambda>_. None), dl_open = (\<lambda>_ _. None),
     dl_ping = (\<lambda>_ _ _ n. (None, n + 1)), dl_close = (\<lambda>_ n. n - 1)\<rparr>"

definition counted_bus :: "int BusLib" where
  "counted_bus = \<lparr>bl_new = (\<lambda>_ n. (None, n + 1)), bl_publish = (\<lambda>_ _ _ n. (None, n)), bl_close = (\<lambda>n. (None, n - 1))\<rparr>"

theorem projection_starts_witness:
  "\<exists>db hooks w1 bus w2. newDatabase counted_db (\<lambda>_ n. (None, n - 1)) example_config [] 0 = (Inr db, hooks, w1)
     \<and> NewBus counted_bus example_config w1 = (Inr bus, w2)
     \<and> startSearchProjection (bus \<noteq> None) (newSearchInbox (db \<noteq> None) example_config \<noteq> None) example_config =
         Inr (Some (proj_Durable (cfg_Projection example_config), proj_Subject (cfg_Projection example_config)))"
proof -
  have on: "bus_Enabled (cfg_EventBus example_config)" by (simp add: example_config_def)
  then have db: "db_Enabled (cfg_Database example_config)" using example_config_valid
    by (simp add: example_config_def)
  have "isDBType (db_Type (cfg_Database example_config))"
    by (simp add: example_config_def isDBType_def setDefaults_def)
  then obtain driver where driver: "driverName (db_Type (cfg_Database example_config)) = Inr driver"
    unfolding isDBType_driver by (elim exE)
  moreover from this have "driver = ''pgx''" by (auto simp: driverName_def example_config_def setDefaults_def split: if_splits)
  ultimately have "\<exists>pool. OpenDatabase counted_db background (cfg_Database example_config) 0 = (Inr pool, 1)"
    by (simp add: OpenDatabase_def openSource_def counted_db_def Let_def)
  then obtain pool where "OpenDatabase counted_db background (cfg_Database example_config) 0 = (Inr pool, 1)" by (elim exE)
  then have opened: "newDatabase counted_db (\<lambda>_ n. (None, n - 1)) example_config [] 0 = (Inr (Some pool), [StopHook (\<lambda>n. (None, n - 1))], 1)"
    using db by (simp add: newDatabase_def)
  have bus: "NewBus counted_bus example_config 1 = (Inr (Some counted_bus), 2)" using on by (simp add: NewBus_def counted_bus_def)
  from projection_starts [OF example_config_valid opened bus] on
  have "startSearchProjection (Some counted_bus \<noteq> None) (newSearchInbox (Some pool \<noteq> None) example_config \<noteq> None) example_config =
      Inr (Some (proj_Durable (cfg_Projection example_config), proj_Subject (cfg_Projection example_config)))" by simp
  with opened bus show ?thesis by (intro exI conjI)
qed

end
