(* ===== verification/Metrics.thy ===== *)
theory Metrics
  imports Prelude
begin

text \<open>
  \<^verbatim>\<open>internal/observability/metrics.go\<close>: the collectors that are registered, with their labels. The
  registry and the collectors of the Prometheus library are opaque; its rules that matter are written
  out: registering two metrics of one name panics, and so does giving a vector another number of label
  values than it has labels.
\<close>

text \<open>\<^verbatim>\<open>redis.PoolStats\<close>: the statistics that are read.\<close>

record PoolStats =
  ps_Hits :: "32 word"
  ps_Misses :: "32 word"
  ps_Timeouts :: "32 word"
  ps_TotalConns :: "32 word"
  ps_IdleConns :: "32 word"

text \<open>A gauge function is called with the statistics of the moment; a \<^verbatim>\<open>float64\<close> holds every \<^verbatim>\<open>uint32\<close> exactly.\<close>

datatype collector =
    CounterVec string string "string list"
  | HistogramVec string string "string list"
  | GaugeFunc string string "PoolStats \<Rightarrow> int"
  | GoCollector
  | ProcessCollector
  | DBStatsCollector string

record Metrics =
  mt_enabled :: bool
  mt_registry :: "collector list"

definition HTTPRequests :: collector where
  "HTTPRequests = CounterVec ''http_requests_total'' ''Total HTTP requests.'' [''method'', ''route'', ''status'']"
definition HTTPDuration :: collector where
  "HTTPDuration = HistogramVec ''http_request_duration_seconds'' ''HTTP request latency.'' [''method'', ''route'']"
definition CronRuns :: collector where
  "CronRuns = CounterVec ''cron_runs_total'' ''Total cron executions.'' [''job'', ''status'']"
definition CronDuration :: collector where
  "CronDuration = HistogramVec ''cron_run_duration_seconds'' ''Cron execution latency.'' [''job'']"
definition GRPCRequests :: collector where
  "GRPCRequests = CounterVec ''grpc_server_requests_total'' ''Total gRPC requests.'' [''method'', ''code'']"
definition GRPCDuration :: collector where
  "GRPCDuration = HistogramVec ''grpc_server_duration_seconds'' ''gRPC request latency.'' [''method'']"
definition OutboundRequests :: collector where
  "OutboundRequests = CounterVec ''outbound_requests_total'' ''Total outbound requests.'' [''protocol'', ''client'', ''status'']"
definition OutboundDuration :: collector where
  "OutboundDuration = HistogramVec ''outbound_request_duration_seconds'' ''Outbound request latency.'' [''protocol'', ''client'']"

definition redisMetrics :: "collector list" where
  "redisMetrics =
     [GaugeFunc ''redis_pool_hits_total'' ''Redis pool hits.'' (\<lambda>stats. uint (ps_Hits stats)),
      GaugeFunc ''redis_pool_misses_total'' ''Redis pool misses.'' (\<lambda>stats. uint (ps_Misses stats)),
      GaugeFunc ''redis_pool_timeouts_total'' ''Redis pool timeouts.'' (\<lambda>stats. uint (ps_Timeouts stats)),
      GaugeFunc ''redis_pool_connections'' ''Current Redis connections.'' (\<lambda>stats. uint (ps_TotalConns stats)),
      GaugeFunc ''redis_pool_idle_connections'' ''Current idle Redis connections.'' (\<lambda>stats. uint (ps_IdleConns stats))]"

definition NewMetrics :: "bool \<Rightarrow> bool \<Rightarrow> bool \<Rightarrow> Metrics" where
  "NewMetrics enabled hasDB hasRedis =
     \<lparr>mt_enabled = enabled,
      mt_registry = [GoCollector, ProcessCollector, HTTPRequests, HTTPDuration, CronRuns, CronDuration, GRPCRequests,
          GRPCDuration, OutboundRequests, OutboundDuration]
        @ (if hasDB then [DBStatsCollector ''primary''] else [])
        @ (if hasRedis then redisMetrics else [])\<rparr>"

text \<open>One observation: a vector and the label values; \<^verbatim>\<open>None\<close> is the panic of \<^verbatim>\<open>WithLabelValues\<close>.\<close>

fun labels :: "collector \<Rightarrow> string list" where
  "labels (CounterVec _ _ ls) = ls"
| "labels (HistogramVec _ _ ls) = ls"
| "labels _ = []"

definition WithLabelValues :: "collector \<Rightarrow> string list \<Rightarrow> (collector \<times> string list) option" where
  "WithLabelValues c values = (if length values = length (labels c) then Some (c, values) else None)"

definition observations :: "Metrics \<Rightarrow> (collector \<times> string list) list \<Rightarrow> (collector \<times> string list) list option" where
  "observations m vs = (if \<not> mt_enabled m then Some [] else those (map (\<lambda>(c, values). WithLabelValues c values) vs))"

definition ObserveCron :: "Metrics \<Rightarrow> string \<Rightarrow> string \<Rightarrow> (collector \<times> string list) list option" where
  "ObserveCron m job status = observations m [(CronRuns, [job, status]), (CronDuration, [job])]"

definition ObserveHTTP :: "Metrics \<Rightarrow> string \<Rightarrow> string \<Rightarrow> string \<Rightarrow> (collector \<times> string list) list option" where
  "ObserveHTTP m verb route status = observations m [(HTTPRequests, [verb, route, status]), (HTTPDuration, [verb, route])]"

definition ObserveGRPC :: "Metrics \<Rightarrow> string \<Rightarrow> string \<Rightarrow> (collector \<times> string list) list option" where
  "ObserveGRPC m verb code = observations m [(GRPCRequests, [verb, code]), (GRPCDuration, [verb])]"

definition ObserveOutbound :: "Metrics \<Rightarrow> string \<Rightarrow> string \<Rightarrow> string \<Rightarrow> (collector \<times> string list) list option" where
  "ObserveOutbound m protocol client status =
     observations m [(OutboundRequests, [protocol, client, status]), (OutboundDuration, [protocol, client])]"

text \<open>What \<^verbatim>\<open>Handler\<close> serves of the gauge functions: each is called when the registry is gathered.\<close>

fun gauge :: "PoolStats \<Rightarrow> collector \<Rightarrow> (string \<times> int) list" where
  "gauge stats (GaugeFunc n _ f) = [(n, f stats)]"
| "gauge _ _ = []"

definition Handler_gauges :: "Metrics \<Rightarrow> PoolStats \<Rightarrow> (string \<times> int) list" where
  "Handler_gauges m stats = concat (map (gauge stats) (mt_registry m))"

fun metricName :: "collector \<Rightarrow> string option" where
  "metricName (CounterVec n _ _) = Some n"
| "metricName (HistogramVec n _ _) = Some n"
| "metricName (GaugeFunc n _ _) = Some n"
| "metricName _ = None"

lemmas vector_defs = HTTPRequests_def HTTPDuration_def CronRuns_def CronDuration_def GRPCRequests_def GRPCDuration_def
  OutboundRequests_def OutboundDuration_def

text \<open>The pool gauges are served exactly when there is a Redis client, each with its own statistic.\<close>

lemma Handler_gauges_NewMetrics:
  "map_of (Handler_gauges (NewMetrics enabled hasDB hasRedis) stats) =
     (if hasRedis then
        [''redis_pool_hits_total'' \<mapsto> uint (ps_Hits stats), ''redis_pool_misses_total'' \<mapsto> uint (ps_Misses stats),
         ''redis_pool_timeouts_total'' \<mapsto> uint (ps_Timeouts stats), ''redis_pool_connections'' \<mapsto> uint (ps_TotalConns stats),
         ''redis_pool_idle_connections'' \<mapsto> uint (ps_IdleConns stats)]
      else Map.empty)"
  by (cases hasDB) (auto simp: Handler_gauges_def NewMetrics_def vector_defs redisMetrics_def fun_eq_iff)

text \<open>Metrics never panic. Whatever the configuration, the names registered are distinct and outside the prefixes
  of the library's own collectors, and every observation of the HTTP and gRPC servers, of the outbound
  clients and of cron runs gives its vectors as many values as they have labels.\<close>

theorem metrics_never_panic:
  "distinct (map metricName (filter (\<lambda>c. metricName c \<noteq> None) (mt_registry (NewMetrics enabled hasDB hasRedis))))
   \<and> list_all (\<lambda>c. case metricName c of None \<Rightarrow> True | Some n \<Rightarrow> take 3 n \<noteq> ''go_'' \<and> take 8 n \<noteq> ''process_'') (mt_registry (NewMetrics enabled hasDB hasRedis))
   \<and> ObserveCron (NewMetrics enabled hasDB hasRedis) job status \<noteq> None
   \<and> ObserveHTTP (NewMetrics enabled hasDB hasRedis) verb route status \<noteq> None
   \<and> ObserveGRPC (NewMetrics enabled hasDB hasRedis) verb code \<noteq> None
   \<and> ObserveOutbound (NewMetrics enabled hasDB hasRedis) protocol client status \<noteq> None"
proof (intro conjI)
  show "distinct (map metricName (filter (\<lambda>c. metricName c \<noteq> None) (mt_registry (NewMetrics enabled hasDB hasRedis))))"
    by (cases hasRedis; cases hasDB) (simp_all add: NewMetrics_def vector_defs redisMetrics_def)
  show "list_all (\<lambda>c. case metricName c of None \<Rightarrow> True | Some n \<Rightarrow> take 3 n \<noteq> ''go_'' \<and> take 8 n \<noteq> ''process_'') (mt_registry (NewMetrics enabled hasDB hasRedis))"
    by (cases hasRedis; cases hasDB) (simp_all add: NewMetrics_def vector_defs redisMetrics_def)
qed (simp_all add: ObserveCron_def ObserveHTTP_def ObserveGRPC_def ObserveOutbound_def observations_def WithLabelValues_def
    vector_defs)

end
