(* ===== verification/ProjectionWorker.thy ===== *)
theory ProjectionWorker
  imports Projection
begin

text \<open>
  The goroutines of \<^verbatim>\<open>startSearchProjection\<close> (\<^verbatim>\<open>internal/app/search_projection.go\<close>) as a step relation: the
  consumer, the retention cleaner of the Inbox, and the start and stop hooks with the context and the
  wait group they share. The bus delivers what it likes, in any order; a delivery, and a run of the
  cleaner, is one step.
\<close>

section \<open>States and hooks\<close>

datatype goroutine = Absent | Running | Returned

text \<open>
  \<^verbatim>\<open>wk_cancel\<close> is the variable \<^verbatim>\<open>cancel\<close>: nil, or a function whose context is done or not.
  \<^verbatim>\<open>wk_log\<close> records the deliveries and their results.
\<close>

record 'w worker =
  wk_cancel :: "bool option"
  wk_consumer :: goroutine
  wk_cleaner :: goroutine
  wk_stopping :: bool
  wk_stopped :: bool
  wk_log :: "(Envelope \<times> err option) list"
  wk_world :: 'w

definition newWorker :: "'w \<Rightarrow> 'w worker" where
  "newWorker w = \<lparr>wk_cancel = None, wk_consumer = Absent, wk_cleaner = Absent, wk_stopping = False, wk_stopped = False,
     wk_log = [], wk_world = w\<rparr>"

definition onStart :: "bool \<Rightarrow> bool \<Rightarrow> bool \<Rightarrow> 'w worker \<Rightarrow> err option \<times> 'w worker" where
  "onStart hasBus hasInbox hasCleaner k =
     (if \<not> hasBus then (None, k)
      else if \<not> hasInbox then (Some (Plain ''search projection requires Inbox database''), k)
      else (None, k\<lparr>wk_cancel := Some False, wk_consumer := Running,
              wk_cleaner := (if hasCleaner then Running else Absent)\<rparr>))"

lemma onStart_subscribes:
  "onStart hasBus hasInbox hasCleaner k = (None, k') \<Longrightarrow>
     (\<exists>s. startSearchProjection hasBus hasInbox cfg = Inr s \<and> (s \<noteq> None \<longleftrightarrow> hasBus))"
  by (auto simp: onStart_def startSearchProjection_def split: if_splits)

text \<open>The first half of \<^verbatim>\<open>OnStop\<close>; the second, \<^verbatim>\<open>worker.Wait()\<close>, is the step \<^verbatim>\<open>wait\<close>.\<close>

definition cancelWorker :: "'w worker \<Rightarrow> 'w worker" where
  "cancelWorker k = k\<lparr>wk_stopping := True, wk_cancel := map_option (\<lambda>_. True) (wk_cancel k)\<rparr>"

section \<open>Steps\<close>

text \<open>
  The consumer returns when the bus's \<^verbatim>\<open>ConsumeWithOptions\<close> does, with or without an error; the cleaner only
  returns once the context is done, whatever its runs report.
\<close>

inductive worker_step ::
    "(Envelope \<Rightarrow> ('w, err) call_err) \<Rightarrow> ('w, err) call_err \<Rightarrow> 'w worker \<Rightarrow> 'w worker \<Rightarrow> bool"
  for handle :: "Envelope \<Rightarrow> ('w, err) call_err" and clean :: "('w, err) call_err" where
  deliver: "wk_consumer k = Running \<Longrightarrow> handle en (wk_world k) = (r, w') \<Longrightarrow>
     worker_step handle clean k (k\<lparr>wk_world := w', wk_log := wk_log k @ [(en, r)]\<rparr>)"
| consumed: "wk_consumer k = Running \<Longrightarrow> worker_step handle clean k (k\<lparr>wk_consumer := Returned\<rparr>)"
| clean: "wk_cleaner k = Running \<Longrightarrow> clean (wk_world k) = (r, w') \<Longrightarrow> worker_step handle clean k (k\<lparr>wk_world := w'\<rparr>)"
| cleaned: "wk_cleaner k = Running \<Longrightarrow> wk_cancel k = Some True \<Longrightarrow> worker_step handle clean k (k\<lparr>wk_cleaner := Returned\<rparr>)"
| cancel: "\<not> wk_stopping k \<Longrightarrow> worker_step handle clean k (cancelWorker k)"
| wait: "wk_stopping k \<Longrightarrow> wk_consumer k \<noteq> Running \<Longrightarrow> wk_cleaner k \<noteq> Running \<Longrightarrow>
     worker_step handle clean k (k\<lparr>wk_stopped := True\<rparr>)"

inductive worker_run ::
    "(Envelope \<Rightarrow> ('w, err) call_err) \<Rightarrow> ('w, err) call_err \<Rightarrow> 'w worker \<Rightarrow> 'w worker \<Rightarrow> bool"
  for handle :: "Envelope \<Rightarrow> ('w, err) call_err" and clean :: "('w, err) call_err" and k0 :: "'w worker" where
  idle: "worker_run handle clean k0 k0"
| more: "worker_run handle clean k0 k \<Longrightarrow> worker_step handle clean k k' \<Longrightarrow> worker_run handle clean k0 k'"

inductive_cases worker_stepE: "worker_step handle clean k k'"

section \<open>Stopping\<close>

text \<open>What holds from the start on: the goroutines exist only with a cancel function, and a stop cancels it.\<close>

definition worker_inv :: "'w worker \<Rightarrow> bool" where
  "worker_inv k \<longleftrightarrow>
     (wk_consumer k = Running \<or> wk_cleaner k = Running \<longrightarrow> wk_cancel k \<noteq> None)
     \<and> (wk_stopping k \<longrightarrow> wk_cancel k \<noteq> Some False) \<and> (\<not> wk_stopping k \<longrightarrow> wk_cancel k \<noteq> Some True)
     \<and> (wk_stopped k \<longrightarrow> wk_stopping k \<and> wk_consumer k \<noteq> Running \<and> wk_cleaner k \<noteq> Running)"

lemma onStart_inv: "onStart hasBus hasInbox hasCleaner (newWorker w) = (r, k) \<Longrightarrow> worker_inv k"
  by (auto simp: onStart_def newWorker_def worker_inv_def split: if_splits)

lemma worker_step_inv: "worker_step handle clean k k' \<Longrightarrow> worker_inv k \<Longrightarrow> worker_inv k'"
  by (induction rule: worker_step.induct) (auto simp: worker_inv_def cancelWorker_def)

lemma worker_run_inv: "worker_run handle clean k k' \<Longrightarrow> worker_inv k \<Longrightarrow> worker_inv k'"
  by (induction rule: worker_run.induct) (auto intro: worker_step_inv)

lemma worker_run_trans:
  assumes "worker_run handle clean k1 k2" and "worker_run handle clean k2 k3"
  shows "worker_run handle clean k1 k3"
  using assms(2,1) by (induction rule: worker_run.induct) (auto intro: worker_run.more)

lemma stopped_step:
  "worker_step handle clean k k' \<Longrightarrow> worker_inv k \<Longrightarrow> wk_stopped k \<Longrightarrow>
     wk_stopped k' \<and> wk_world k' = wk_world k \<and> wk_log k' = wk_log k"
  by (erule worker_stepE) (auto simp: worker_inv_def)

lemma stopped_run:
  assumes "worker_run handle clean k k'" and "worker_inv k" and "wk_stopped k"
  shows "wk_stopped k' \<and> wk_world k' = wk_world k \<and> wk_log k' = wk_log k"
  using assms
proof (induction rule: worker_run.induct)
  case (more k1 k2)
  have "worker_inv k1" by (rule worker_run_inv [OF more.hyps(1) more.prems(1)])
  then show ?case using more stopped_step [OF more.hyps(2)] by auto
qed simp

text \<open>From every state with the invariant in which the stop has begun, three steps at most end it.\<close>

lemma worker_run_one: "worker_step handle clean k k' \<Longrightarrow> worker_run handle clean k k'"
  by (rule worker_run.more [OF worker_run.idle])

lemma consumer_ends:
  "\<exists>k'. worker_run handle clean k k' \<and> wk_consumer k' \<noteq> Running \<and> wk_stopping k' = wk_stopping k \<and> wk_world k' = wk_world k"
proof (cases "wk_consumer k = Running")
  case True
  then have "worker_run handle clean k (k\<lparr>wk_consumer := Returned\<rparr>)" by (intro worker_run_one worker_step.consumed)
  then show ?thesis by (intro exI [of _ "k\<lparr>wk_consumer := Returned\<rparr>"]) simp
qed (auto intro: worker_run.idle)

lemma cleaner_ends:
  assumes "worker_inv k" and "wk_stopping k"
  shows "\<exists>k'. worker_run handle clean k k' \<and> wk_cleaner k' \<noteq> Running \<and> wk_consumer k' = wk_consumer k
    \<and> wk_stopping k' \<and> wk_world k' = wk_world k"
proof (cases "wk_cleaner k = Running")
  case True
  then have "wk_cancel k = Some True" using assms by (cases "wk_cancel k") (auto simp: worker_inv_def)
  with True have "worker_run handle clean k (k\<lparr>wk_cleaner := Returned\<rparr>)" by (intro worker_run_one worker_step.cleaned)
  then show ?thesis using assms(2) by (intro exI [of _ "k\<lparr>wk_cleaner := Returned\<rparr>"]) simp
qed (use assms(2) in \<open>auto intro: worker_run.idle\<close>)

lemma stop_completes:
  assumes "worker_inv k" and "wk_stopping k"
  shows "\<exists>k'. worker_run handle clean k k' \<and> wk_stopped k' \<and> wk_world k' = wk_world k"
proof -
  obtain k1 where 1: "worker_run handle clean k k1" "wk_consumer k1 \<noteq> Running" "wk_stopping k1 = wk_stopping k" "wk_world k1 = wk_world k"
    using consumer_ends [of handle clean k] by (elim exE conjE)
  have inv1: "worker_inv k1" by (rule worker_run_inv [OF 1(1) assms(1)])
  obtain k2 where 2: "worker_run handle clean k1 k2" "wk_cleaner k2 \<noteq> Running" "wk_consumer k2 = wk_consumer k1" "wk_stopping k2"
      "wk_world k2 = wk_world k1"
    using cleaner_ends [OF inv1, of handle clean] 1(3) assms(2) by auto
  have "worker_run handle clean k2 (k2\<lparr>wk_stopped := True\<rparr>)"
    by (intro worker_run_one worker_step.wait) (use 1 2 in auto)
  then have "worker_run handle clean k (k2\<lparr>wk_stopped := True\<rparr>)"
    by (rule worker_run_trans [OF 1(1) worker_run_trans [OF 2(1)]])
  then show ?thesis using 1 2 by (intro exI [of _ "k2\<lparr>wk_stopped := True\<rparr>"]) simp
qed

lemma cleaner_step:
  "worker_step handle clean k k' \<Longrightarrow> worker_inv k \<Longrightarrow> wk_cleaner k = Running \<or> wk_stopping k \<Longrightarrow>
     wk_cleaner k' = Running \<or> wk_stopping k'"
  by (induction rule: worker_step.induct) (auto simp: worker_inv_def cancelWorker_def)

text \<open>C38: Starting and stopping the projection. In every state that the projection can reach, once the stop hook
  has returned no event is handled and the Inbox is not cleaned any more, whatever steps follow; and
  once the stop hook has begun, it can return from every state, without another delivery. Until then
  the cleaner keeps running.\<close>

theorem projection_stops:
  assumes "onStart hasBus hasInbox hasCleaner (newWorker w) = (None, k0)" and "worker_run handle clean k0 k"
  shows "(wk_stopped k \<longrightarrow> (\<forall>k'. worker_run handle clean k k' \<longrightarrow> wk_world k' = wk_world k \<and> wk_log k' = wk_log k))
    \<and> (wk_stopping k \<longrightarrow> (\<exists>k'. worker_run handle clean k k' \<and> wk_stopped k' \<and> wk_world k' = wk_world k))
    \<and> (hasBus \<and> hasCleaner \<and> \<not> wk_stopping k \<longrightarrow> wk_cleaner k = Running)"
proof (intro conjI impI allI)
  have inv: "worker_inv k" by (rule worker_run_inv [OF assms(2) onStart_inv [OF assms(1)]])
  show "wk_world k' = wk_world k" "wk_log k' = wk_log k" if "wk_stopped k" "worker_run handle clean k k'" for k'
    using stopped_run [OF that(2) inv that(1)] by simp_all
  show "\<exists>k'. worker_run handle clean k k' \<and> wk_stopped k' \<and> wk_world k' = wk_world k" if "wk_stopping k"
    by (rule stop_completes [OF inv that])
  show "wk_cleaner k = Running" if "hasBus \<and> hasCleaner \<and> \<not> wk_stopping k"
  proof -
    have start: "wk_cleaner k0 = Running" "worker_inv k0"
      using assms(1) that onStart_inv [OF assms(1)] by (auto simp: onStart_def split: if_splits)
    have "worker_inv k \<and> (wk_cleaner k = Running \<or> wk_stopping k)" using assms(2)
    proof (induction rule: worker_run.induct)
      case (more k1 k2)
      then show ?case using worker_step_inv [OF more.hyps(2)] cleaner_step [OF more.hyps(2)] by blast
    qed (use start in simp)
    then show ?thesis using that by simp
  qed
qed

section \<open>Convergence with the cleaner\<close>

text \<open>What the cleaner may do: forget completed events, and nothing to the index.\<close>

definition cleaner_contract ::
    "('w, err) call_err \<Rightarrow> ('w \<Rightarrow> (string \<times> string) set) \<Rightarrow> ('w \<Rightarrow> stored index_view) \<Rightarrow> bool" where
  "cleaner_contract clean finished view \<longleftrightarrow>
     (\<forall>w. view (snd (clean w)) = view w \<and> finished (snd (clean w)) \<subseteq> finished w)"

lemma projection_forgetful:
  assumes "forgetful_gte e view" and "inbox_contract process finished view" and "cleaner_contract clean finished view"
    and "inj_on en_EventId U"
  shows "forgetful_index (handleEvent process de (store_service e check) durable ctx) view
    (event_key de) (event_version de) (event_payload e de)
    (\<lambda>w en. (durable, en_EventId en) \<in> finished w) (\<lambda>en. en \<in> U) (\<lambda>w. snd (clean w))"
proof
  fix en w r w'
  assume en: "en \<in> U" and run: "handleEvent process de (store_service e check) durable ctx en w = (r, w')"
  have same: "d = en" if "d \<in> U" "en_EventId d = en_EventId en" for d using assms(4) en that by (auto dest: inj_onD)
  from handle_forgetful [OF assms(1,2) run]
  show "(forgets (view w) (view w') \<and> (\<forall>d. d \<in> U \<longrightarrow> (durable, en_EventId d) \<in> finished w' \<longrightarrow> (durable, en_EventId d) \<in> finished w)
        \<and> (r = None \<longrightarrow> (durable, en_EventId en) \<in> finished w))
      \<or> (\<exists>m. forgets (view w) m \<and> view w' = absorbEvent e de en m
           \<and> (\<forall>d. d \<in> U \<longrightarrow> (durable, en_EventId d) \<in> finished w' \<longrightarrow> (durable, en_EventId d) \<in> finished w \<or> (d = en \<and> r = None)))"
  proof (elim disjE exE conjE)
    fix m
    assume m: "forgets (view w) m" "view w' = absorbEvent e de en m" and "r \<noteq> None \<longrightarrow> finished w' = finished w"
      and "r = None \<longrightarrow> finished w' = insert (durable, en_EventId en) (finished w)"
    then have "\<forall>d. d \<in> U \<longrightarrow> (durable, en_EventId d) \<in> finished w' \<longrightarrow> (durable, en_EventId d) \<in> finished w \<or> (d = en \<and> r = None)"
      using same by (cases r) auto
    then show ?thesis using m by blast
  qed simp
next
  fix w d
  show "forgets (view w) (view (snd (clean w)))
      \<and> (d \<in> U \<longrightarrow> (durable, en_EventId d) \<in> finished (snd (clean w)) \<longrightarrow> (durable, en_EventId d) \<in> finished w)"
    using assms(3) by (auto simp: cleaner_contract_def)
qed

text \<open>The reference world with a cleaner that forgets every completed event.\<close>

definition ref_clean :: "(world, err) call_err" where
  "ref_clean w = (None, ({}, snd w))"

lemma ref_clean_contract: "cleaner_contract ref_clean fst snd"
  by (simp add: cleaner_contract_def ref_clean_def)

text \<open>A world whose index forgets every deletion before the next write, as OpenSearch may when the writes are further apart
  than \<^verbatim>\<open>index.gc_deletes\<close>.\<close>

definition fade :: "stored index_view \<Rightarrow> stored index_view" where
  "fade m = (\<lambda>k. case m k of Some (v, None) \<Rightarrow> None | x \<Rightarrow> x)"

lemma forgets_fade: "forgets m (fade m)"
  by (simp add: forgets_def fade_def split: option.split)

definition fading_store :: "world Store" where
  "fading_store = (world_store ''i'' sd_Title)\<lparr>st_wire := (st_wire (world_store ''i'' sd_Title))\<lparr>
     wi_perform := (\<lambda>ctx rq w. case ref_perform ''i'' ctx rq (fade (snd w)) of (res, m) \<Rightarrow> (res, (fst w, m)))\<rparr>\<rparr>"

lemma fading_simps [simp]:
  "st_index fading_store = ''i''" "wi_marshal (st_wire fading_store) = (\<lambda>d. Inr (sd_Title d))"
  "observe fading_store status w = w"
  "wi_perform (st_wire fading_store) ctx rq w = (case ref_perform ''i'' ctx rq (fade (snd w)) of (res, m) \<Rightarrow> (res, (fst w, m)))"
  by (simp_all add: fading_store_def world_store_def observe_def)

lemma fading_parse [simp]: "parse_document_path ''i'' (document_path fading_store k v) = Some (k, sint v)"
  using parse_document_path [of fading_store k v] by (simp del: parse_document_path)

lemma fading_forgetful: "forgetful_gte fading_store snd"
  unfolding forgetful_gte_def
  by (auto simp: ref_perform_def intro!: exI [of _ "fade m" for m] forgets_fade ref_write_outcome split: prod.splits)

interpretation fading: forgetful_index
    "handleEvent ref_process de (store_service fading_store check) durable ctx" snd
    "event_key de" "event_version de" "event_payload fading_store de"
    "\<lambda>w d. (durable, en_EventId d) \<in> fst w" "\<lambda>d. d \<in> {en}" "\<lambda>w. snd (ref_clean w)"
  for de check durable ctx en
  by (rule projection_forgetful [OF fading_forgetful ref_process_contract ref_clean_contract]) simp

lemma worker_run_history:
  assumes laws: "forgetful_index handle view key ver payload known (\<lambda>en. en \<in> U) (\<lambda>w. snd (clean w))"
    and run: "worker_run handle clean k0 k" and start: "wk_log k0 = []"
    and log: "fst ` set (wk_log k) \<subseteq> U"
  shows "forgetful_index.history handle (\<lambda>en. en \<in> U) (\<lambda>w. snd (clean w)) (wk_world k0) (wk_log k) (wk_world k)"
  using run log
proof (induction rule: worker_run.induct)
  case idle
  show ?case unfolding start by (rule forgetful_index.history.start [OF laws])
next
  case (more k1 k2)
  show ?case using more.hyps(2)
  proof (cases rule: worker_step.cases)
    case (deliver en r w')
    have "en \<in> U" "fst ` set (wk_log k1) \<subseteq> U" using more.prems deliver(1) by auto
    then show ?thesis using forgetful_index.history.delivered [OF laws more.IH _ deliver(3)] deliver(1) by simp
  next
    case (clean r w')
    then show ?thesis using forgetful_index.history.tended [OF laws more.IH] more.prems by simp
  qed (use more in \<open>simp_all add: cancelWorker_def\<close>)
qed

text \<open>A run of the projection from its start: its deliveries are a history of the index.\<close>

lemma worker_run_projects:
  assumes "forgetful_gte e view" and "inbox_contract process finished view" and "cleaner_contract clean finished view"
    and "onStart True True hasCleaner (newWorker w) = (None, k0)" and "finished w = {}"
    and "worker_run (handleEvent process de (store_service e check) durable ctx) clean k0 k"
    and "inj_on en_EventId (fst ` set (wk_log k))"
  shows "forgetful_index (handleEvent process de (store_service e check) durable ctx) view
      (event_key de) (event_version de) (event_payload e de)
      (\<lambda>w en. (durable, en_EventId en) \<in> finished w) (\<lambda>en. en \<in> fst ` set (wk_log k)) (\<lambda>w. snd (clean w))"
    and "forgetful_index.history (handleEvent process de (store_service e check) durable ctx)
      (\<lambda>en. en \<in> fst ` set (wk_log k)) (\<lambda>w. snd (clean w)) w (wk_log k) (wk_world k)"
    and "\<And>en. \<not> (durable, en_EventId en) \<in> finished w"
proof -
  show laws: "forgetful_index (handleEvent process de (store_service e check) durable ctx) view
      (event_key de) (event_version de) (event_payload e de)
      (\<lambda>w en. (durable, en_EventId en) \<in> finished w) (\<lambda>en. en \<in> fst ` set (wk_log k)) (\<lambda>w. snd (clean w))"
    by (rule projection_forgetful [OF assms(1-3,7)])
  have "wk_world k0 = w" "wk_log k0 = []" using assms(4) by (auto simp: onStart_def newWorker_def)
  then show "forgetful_index.history (handleEvent process de (store_service e check) durable ctx)
      (\<lambda>en. en \<in> fst ` set (wk_log k)) (\<lambda>w. snd (clean w)) w (wk_log k) (wk_world k)"
    using worker_run_history [OF laws assms(6) _ subset_refl] by simp
  show "\<And>en. \<not> (durable, en_EventId en) \<in> finished w" using assms(5) by simp
qed

text \<open>C6: The projection with its cleaner, over an index that may forget deletions at any time. In every state that the
  running projection can reach, with deliveries in any order and as often as the bus likes, failures, and
  the retention cleaner making the Inbox forget completed events in between, once each delivered event was
  handled without an error at least once: what applying every event once, in any order, would leave as a
  document is in the index, as that document; where it would leave nothing, nothing is remembered; and where
  the newest event is a deletion, no document is left, if after the first success of that deletion only
  deletions were delivered for the document. Without that last condition it need not hold: an older upsert
  that comes when the deletion is forgotten is taken.\<close>

theorem projection_worker_converges:
  assumes "forgetful_gte e view" and "inbox_contract process finished view" and "cleaner_contract clean finished view"
    and "onStart True True hasCleaner (newWorker w) = (None, k0)" and "finished w = {}"
    and "worker_run (handleEvent process de (store_service e check) durable ctx) clean k0 k"
    and "consistent (event_key de) (event_version de) (event_payload e de) (fst ` set (wk_log k))"
    and "inj_on en_EventId (fst ` set (wk_log k))"
    and "\<forall>en \<in> fst ` set (wk_log k). (en, None) \<in> set (wk_log k)" and "set events = fst ` set (wk_log k)"
  shows "case fold (absorb (event_key de) (event_version de) (event_payload e de)) events (view w) ident of
      None \<Rightarrow> view (wk_world k) ident = None
    | Some (v, Some data) \<Rightarrow> view (wk_world k) ident = Some (v, Some data)
    | Some (v, None) \<Rightarrow> \<forall>en \<in> set events. event_key de en = ident \<and> event_version de en = v
        \<and> list_all (\<lambda>(en', r). event_key de en' = ident \<longrightarrow> event_payload e de en' = None) (after_success en (wk_log k))
        \<longrightarrow> gone (view (wk_world k)) ident"
  using forgetful_index.history_converges [OF worker_run_projects(1,2) [OF assms(1-6,8)]
      worker_run_projects(3) [OF assms(1-6,8)] refl assms(7,9,10)] .

text \<open>A run that delivers a list of events, and what it leaves.\<close>

lemma run_delivers:
  assumes "deliver handle ens (wk_world k0) = (rs, w')" and "wk_consumer k0 = Running"
  shows "\<exists>k. worker_run handle clean k0 k \<and> wk_consumer k = Running \<and> wk_world k = w' \<and> wk_log k = wk_log k0 @ zip ens rs"
  using assms
proof (induction ens arbitrary: k0 rs w')
  case Nil
  then show ?case by (intro exI [of _ k0]) (simp add: worker_run.idle)
next
  case (Cons en ens)
  obtain r w1 where first: "handle en (wk_world k0) = (r, w1)" by (cases "handle en (wk_world k0)")
  let ?k1 = "k0\<lparr>wk_world := w1, wk_log := wk_log k0 @ [(en, r)]\<rparr>"
  obtain rs' where rest: "deliver handle ens (wk_world ?k1) = (rs', w')" and rs: "rs = r # rs'"
    using Cons.prems(1) first by (auto split: prod.splits)
  have "wk_consumer ?k1 = Running" using Cons.prems(2) by simp
  from Cons.IH [OF rest this] obtain k where k: "worker_run handle clean ?k1 k" "wk_consumer k = Running" "wk_world k = w'"
      "wk_log k = wk_log ?k1 @ zip ens rs'" by (elim exE conjE)
  have "worker_run handle clean k0 ?k1" by (rule worker_run_one [OF worker_step.deliver [where handle = handle and clean = clean, OF Cons.prems(2) first]])
  from worker_run_trans [OF this k(1)] k(2-4) show ?case by (intro exI [of _ k]) (simp add: rs)
qed

definition example_handle :: "Envelope \<Rightarrow> (world, err) call_err" where
  "example_handle = handleEvent ref_process example_decoders
     (store_service fading_store allowAllApplications_Check) ''d'' background"

definition example_started :: "world worker" where
  "example_started = snd (onStart True True True (newWorker ({}, Map.empty)))"

lemma example_started:
  "onStart True True True (newWorker ({}, Map.empty)) = (None, example_started)"
  "wk_consumer example_started = Running" "wk_cleaner example_started = Running" "wk_log example_started = []"
  "wk_world example_started = ({}, Map.empty)"
  by (simp_all add: example_started_def onStart_def newWorker_def)

lemma fading_applyChange:
  "applyChange fading_store ctx c w
     = (None, (fst w, absorb change_key change_version (change_payload fading_store) c (fade (snd w))))"
  by (cases c)
    (auto simp: Upsert_one Delete_one upsertOne_def deleteOne_def doJSON_def ref_perform_def ref_write_def
      success_def no_target_def absorb_def latest_def key_id_def [symmetric] Let_def
      simp del: Upsert.simps Delete.simps)

lemma example_handle:
  assumes "en \<in> {example_upserted, example_deleted}"
  shows "example_handle en w =
    (None, if (''d'', en_EventId en) \<in> fst w then w
       else (insert (''d'', en_EventId en) (fst w), absorbEvent fading_store example_decoders en (fade (snd w))))"
proof -
  obtain c where c: "event_change example_decoders en = Some c" using assms example_changes by auto
  moreover have "en_SchemaVersion en = 1" using assms by (auto simp: example_upserted_def example_deleted_def)
  ultimately show ?thesis
    using apply_cases [of example_decoders background fading_store allowAllApplications_Check en w]
    by (simp add: example_handle_def handleEvent_def ref_process_def fading_applyChange absorb_def event_key_def
        event_version_def event_payload_def)
qed

lemma example_payload: "event_payload fading_store example_decoders example_upserted = Some ''title''"
  by (simp add: event_payload_def example_changes withCanonicalID_def)

lemma example_ids: "en_EventId example_upserted = ''e1''" "en_EventId example_deleted = ''e2''"
  by (simp_all add: example_upserted_def example_deleted_def)

text \<open>The upsert, the deletion, and the deletion again, which the Inbox knows.\<close>

theorem projection_worker_converges_witness:
  "\<exists>k. worker_run example_handle ref_clean example_started k
     \<and> wk_log k = [(example_upserted, None), (example_deleted, None), (example_deleted, None)]
     \<and> gone (snd (wk_world k)) ''t:s:d:1''"
proof -
  let ?ens = "[example_upserted, example_deleted, example_deleted]"
  obtain w' where out: "deliver example_handle ?ens (wk_world example_started) = ([None, None, None], w')"
    by (simp add: example_handle)
  obtain k where run: "worker_run example_handle ref_clean example_started k"
    and log: "wk_log k = [(example_upserted, None), (example_deleted, None), (example_deleted, None)]"
    using run_delivers [where clean = ref_clean, OF out example_started(2)] by (auto simp: example_started)
  have fresh: "fst ({} :: (string \<times> string) set, Map.empty :: stored index_view) = {}" by simp
  have all: "fst ` set (wk_log k) = {example_upserted, example_deleted}" by (auto simp: log)
  have cons: "consistent (event_key example_decoders) (event_version example_decoders)
      (event_payload fading_store example_decoders) (fst ` set (wk_log k))"
    unfolding all by (simp add: consistent_def example_key)
  have inj: "inj_on en_EventId (fst ` set (wk_log k))" unfolding all by (auto simp: inj_on_def example_ids)
  have succ: "\<forall>en \<in> fst ` set (wk_log k). (en, None) \<in> set (wk_log k)" unfolding all by (simp add: log)
  have events: "set [example_upserted, example_deleted] = fst ` set (wk_log k)" unfolding all by simp
  have differ: "example_upserted \<noteq> example_deleted" using example_ids by force
  have once: "fold (absorb (event_key example_decoders) (event_version example_decoders) (event_payload fading_store example_decoders))
      [example_upserted, example_deleted] (snd ({} :: (string \<times> string) set, Map.empty)) ''t:s:d:1'' = Some (3, None)"
    by (simp add: absorb_def latest_def admissible_def example_key)
  have last: "list_all (\<lambda>(en', r). event_key example_decoders en' = ''t:s:d:1'' \<longrightarrow> event_payload fading_store example_decoders en' = None)
      (after_success example_deleted (wk_log k))"
    using differ by (simp add: log after_success_def example_key)
  have "\<forall>en \<in> set [example_upserted, example_deleted]. event_key example_decoders en = ''t:s:d:1'' \<and> event_version example_decoders en = 3
        \<and> list_all (\<lambda>(en', r). event_key example_decoders en' = ''t:s:d:1'' \<longrightarrow> event_payload fading_store example_decoders en' = None)
            (after_success en (wk_log k)) \<longrightarrow> gone (snd (wk_world k)) ''t:s:d:1''"
    using projection_worker_converges [OF fading_forgetful ref_process_contract ref_clean_contract example_started(1) fresh
        run [unfolded example_handle_def] cons inj succ events, of "''t:s:d:1''"]
    unfolding once option.case prod.case .
  then have "gone (snd (wk_world k)) ''t:s:d:1''" using last by (simp add: example_key)
  with run log show ?thesis by blast
qed

text \<open>A delayed upsert restores what was deleted. The engine is meant to apply versions monotonically, so that a delayed
  event cannot overwrite a newer one. With the deletion delivered first and forgotten, as OpenSearch
  does after \<^verbatim>\<open>index.gc_deletes\<close>, the older upsert is taken and the deleted document is there again; the
  deletion delivered again does not help, since the Inbox knows it.\<close>

theorem stale_upsert_restores_deleted:
  "event_version example_decoders example_upserted < event_version example_decoders example_deleted
   \<and> (\<exists>k. worker_run example_handle ref_clean example_started k
        \<and> wk_log k = [(example_deleted, None), (example_upserted, None), (example_deleted, None)]
        \<and> snd (wk_world k) ''t:s:d:1'' = Some (2, Some ''title''))"
proof -
  let ?ens = "[example_deleted, example_upserted, example_deleted]"
  obtain w' where out: "deliver example_handle ?ens (wk_world example_started) = ([None, None, None], w')"
    and there: "snd w' ''t:s:d:1'' = Some (2, Some ''title'')"
    by (simp add: example_handle example_started example_ids absorb_def latest_def admissible_def fade_def example_key example_payload)
  show ?thesis
    using run_delivers [where clean = ref_clean, OF out example_started(2)] there
    by (auto simp: example_started example_key)
qed

theorem projection_stops_witness:
  "\<exists>k. worker_run example_handle ref_clean (cancelWorker example_started) k \<and> wk_stopped k \<and> snd (wk_world k) = Map.empty"
proof -
  have started: "onStart True True True (newWorker ({}, Map.empty)) = (None, example_started)"
    by (simp add: example_started_def onStart_def)
  have "\<not> wk_stopping example_started" by (simp add: example_started_def onStart_def newWorker_def)
  then have "worker_run example_handle ref_clean example_started (cancelWorker example_started)"
    by (intro worker_run_one worker_step.cancel)
  from projection_stops [OF started this]
  obtain k where "worker_run example_handle ref_clean (cancelWorker example_started) k" "wk_stopped k"
      "wk_world k = wk_world (cancelWorker example_started)"
    by (auto simp: cancelWorker_def)
  moreover have "snd (wk_world (cancelWorker example_started)) = Map.empty"
    by (simp add: cancelWorker_def example_started_def onStart_def newWorker_def)
  ultimately show ?thesis by auto
qed

end
