(* ===== verification/Breaker.thy ===== *)
theory Breaker
  imports HttpClient
begin

text \<open>
  What the circuit breakers of the outbound clients count, given how the breaker library uses the
  settings of \<^verbatim>\<open>breakerInterceptor\<close> (\<^verbatim>\<open>internal/grpcclient/client.go\<close>) and \<^verbatim>\<open>NewHTTPClient\<close>
  (\<^verbatim>\<open>internal/outbound/http.go\<close>).
\<close>

section \<open>The library's rule\<close>

text \<open>
  The documented behaviour of a closed breaker: it runs the call and passes its result on. A result that
  \<^verbatim>\<open>IsExcluded\<close> holds of, asked for every result, is neither a success nor a failure and changes no
  count; any other nil error is a success and resets the consecutive failures; any other error adds
  one, and the breaker opens if \<^verbatim>\<open>ReadyToTrip\<close> holds of the new count. The counter wraps at 32 bits.
\<close>

definition counting_breaker ::
    "'w ClientLib \<Rightarrow> BreakerSettings \<Rightarrow> ('w \<Rightarrow> uint32) \<Rightarrow> ('w \<Rightarrow> bool) \<Rightarrow> bool" where
  "counting_breaker l s failures isOpen \<longleftrightarrow>
     (\<forall>call w e w1. \<not> isOpen w \<longrightarrow> call w = (e, w1) \<longrightarrow> failures w1 = failures w \<and> \<not> isOpen w1 \<longrightarrow>
        (\<exists>w2. cl_breaker l s call w = (e, w2)
           \<and> (if bs_IsExcluded s e then failures w2 = failures w \<and> \<not> isOpen w2
              else if e = None then failures w2 = 0 \<and> \<not> isOpen w2
              else failures w2 = failures w + 1 \<and> (isOpen w2 \<longleftrightarrow> bs_ReadyToTrip s (failures w + 1)))))"

lemma counting_rule:
  assumes "counting_breaker l s failures isOpen" and "\<not> isOpen w"
  shows "\<exists>w2. cl_breaker l s (\<lambda>v. (e, v)) w = (e, w2)
     \<and> (if bs_IsExcluded s e then failures w2 = failures w \<and> \<not> isOpen w2
        else if e = None then failures w2 = 0 \<and> \<not> isOpen w2
        else failures w2 = failures w + 1 \<and> (isOpen w2 \<longleftrightarrow> bs_ReadyToTrip s (failures w + 1)))"
proof -
  note rule = assms(1) [unfolded counting_breaker_def, THEN spec, of "\<lambda>v. (e, v)", THEN spec, of w, THEN spec, of e, THEN spec, of w]
  show ?thesis by (rule rule [rule_format]) (simp_all add: assms(2))
qed

text \<open>Calls one after the other, by their results; the states they leave are those of the breaker.\<close>

primrec breakerCalls :: "'w ClientLib \<Rightarrow> string \<Rightarrow> Breaker \<Rightarrow> Ctx \<Rightarrow> string \<Rightarrow> err option list \<Rightarrow> 'w \<Rightarrow> 'w" where
  "breakerCalls l name cfg ctx verb [] w = w"
| "breakerCalls l name cfg ctx verb (e # es) w =
     breakerCalls l name cfg ctx verb es (snd (breakerInterceptor l name cfg (\<lambda>_ _ v. (e, v)) ctx verb w))"

lemma breakerCalls_append:
  "breakerCalls l name cfg ctx verb (es @ fs) w = breakerCalls l name cfg ctx verb fs (breakerCalls l name cfg ctx verb es w)"
  by (induction es arbitrary: w) simp_all

section \<open>The settings\<close>

text \<open>The gRPC settings exclude success; the HTTP settings do not.\<close>

lemma grpc_excludes_success: "bs_IsExcluded (breakerSettings name cfg) None"
  by (simp add: breakerSettings_def)

lemma http_counts_success: "\<not> hb_IsExcluded (httpBreakerSettings name cfg) None"
  by (simp add: httpBreakerSettings_def)

definition unavailable_count :: "err option list \<Rightarrow> nat" where
  "unavailable_count es = length (filter (\<lambda>e. e \<noteq> None) es)"

lemma guarded_success:
  assumes "counting_breaker l (breakerSettings name cfg) failures isOpen" and "\<not> isOpen w"
    and "breakerInterceptor l name cfg (\<lambda>_ _ v. (None, v)) ctx verb w = (r, w2)"
  shows "r = None \<and> failures w2 = failures w \<and> \<not> isOpen w2"
proof -
  obtain w3 where "cl_breaker l (breakerSettings name cfg) (\<lambda>v. (None, v)) w = (None, w3)" "failures w3 = failures w" "\<not> isOpen w3"
    using counting_rule [OF assms(1,2), of None] grpc_excludes_success [of name cfg] by (simp only: if_True) (elim exE conjE)
  then show ?thesis using assms(3) by (simp add: breakerInterceptor_def)
qed

lemma guarded_failure:
  assumes "counting_breaker l (breakerSettings name cfg) failures isOpen" and "\<not> isOpen w" and "status_code (Some x) = CUnavailable"
    and "breakerInterceptor l name cfg (\<lambda>_ _ v. (Some x, v)) ctx verb w = (r, w2)"
  shows "r = Some x \<and> failures w2 = failures w + 1 \<and> (isOpen w2 \<longleftrightarrow> failures w + 1 \<ge> breaker_FailureThreshold cfg)"
proof -
  have counted: "\<not> bs_IsExcluded (breakerSettings name cfg) (Some x)"
    "bs_ReadyToTrip (breakerSettings name cfg) n \<longleftrightarrow> n \<ge> breaker_FailureThreshold cfg" for n
    using assms(3) by (simp_all add: breakerSettings_def)
  obtain w3 where "cl_breaker l (breakerSettings name cfg) (\<lambda>v. (Some x, v)) w = (Some x, w3)" "failures w3 = failures w + 1"
      "isOpen w3 \<longleftrightarrow> failures w + 1 \<ge> breaker_FailureThreshold cfg"
    using counting_rule [OF assms(1,2), of "Some x"] counted by auto
  then show ?thesis using assms(4) by (simp add: breakerInterceptor_def)
qed

lemma below_threshold:
  assumes "counting_breaker l (breakerSettings name cfg) failures isOpen" and "\<not> isOpen w"
    and "list_all (\<lambda>e. e = None \<or> status_code e = CUnavailable) es"
    and "unat (failures w) + unavailable_count es < unat (breaker_FailureThreshold cfg)"
  shows "\<not> isOpen (breakerCalls l name cfg ctx verb es w)
    \<and> unat (failures (breakerCalls l name cfg ctx verb es w)) = unat (failures w) + unavailable_count es"
  using assms(2-4)
proof (induction es arbitrary: w)
  case Nil
  then show ?case by (simp add: unavailable_count_def)
next
  case (Cons e es)
  obtain r w2 where step: "breakerInterceptor l name cfg (\<lambda>_ _ v. (e, v)) ctx verb w = (r, w2)" by (rule prod.exhaust)
  show ?case
  proof (cases e)
    case None
    from guarded_success [OF assms(1) Cons.prems(1) step [unfolded None]] show ?thesis
      using Cons.IH [of w2] Cons.prems step None by (simp add: unavailable_count_def)
  next
    case (Some x)
    have code: "status_code (Some x) = CUnavailable" using Cons.prems(2) Some by simp
    note one = guarded_failure [OF assms(1) Cons.prems(1) code step [unfolded Some]]
    have "unat (failures w) + 1 < unat (breaker_FailureThreshold cfg)" using Cons.prems(3) Some by (simp add: unavailable_count_def)
    then have count: "unat (failures w + 1) = unat (failures w) + 1"
      using unsigned_less [of "breaker_FailureThreshold cfg", where 'a = nat] by (simp add: unat_word_ariths)
    have "\<not> isOpen w2" using one count Cons.prems(3) Some by (simp add: word_le_nat_alt unavailable_count_def)
    then show ?thesis using Cons.IH [of w2] Cons.prems step Some one count by (simp add: unavailable_count_def)
  qed
qed

text \<open>C37: The breaker of a gRPC connection opens by the number of failures, however many successes lie between. With a
  breaker that follows the library's rule, after calls of which all but the last were answered or
  unavailable, it opens with the last one exactly when as many calls as the threshold failed in all,
  because the settings exclude a success from the counts and so never reset them. The HTTP settings
  do count a success.\<close>

theorem grpc_breaker_ignores_success:
  assumes "counting_breaker l (breakerSettings name cfg) failures isOpen" and "\<not> isOpen w" and "failures w = 0"
    and "list_all (\<lambda>e. e = None \<or> status_code e = CUnavailable) es" and "status_code (Some x) = CUnavailable"
    and "unavailable_count es < unat (breaker_FailureThreshold cfg)"
  shows "\<not> isOpen (breakerCalls l name cfg ctx verb es w)
    \<and> (isOpen (breakerCalls l name cfg ctx verb (es @ [Some x]) w)
        \<longleftrightarrow> unavailable_count (es @ [Some x]) = unat (breaker_FailureThreshold cfg))
    \<and> \<not> hb_IsExcluded (httpBreakerSettings name cfg) None"
proof -
  let ?w = "breakerCalls l name cfg ctx verb es w"
  have below: "\<not> isOpen ?w" "unat (failures ?w) = unavailable_count es"
    using below_threshold [OF assms(1,2,4), of ctx verb] assms(3,6) by simp_all
  obtain r w2 where step: "breakerInterceptor l name cfg (\<lambda>_ _ v. (Some x, v)) ctx verb ?w = (r, w2)" by (rule prod.exhaust)
  note final = guarded_failure [OF assms(1) below(1) assms(5) step]
  have "unat (failures ?w) + 1 < 2 ^ 32"
  proof -
    have "unat (breaker_FailureThreshold cfg) < 2 ^ 32" using unsigned_less [of "breaker_FailureThreshold cfg", where 'a = nat] by simp
    then show ?thesis using below(2) assms(6) by linarith
  qed
  then have "unat (failures ?w + 1) = unat (failures ?w) + 1" by (simp add: unat_word_ariths)
  then have "isOpen w2 \<longleftrightarrow> unavailable_count (es @ [Some x]) = unat (breaker_FailureThreshold cfg)"
    using final below(2) assms(6) by (auto simp: word_le_nat_alt unavailable_count_def)
  then show ?thesis using below(1) step http_counts_success by (simp add: breakerCalls_append)
qed

text \<open>A breaker on its count and its state, and an upstream that fails every second call.\<close>

definition breaker_lib :: "(uint32 \<times> bool) ClientLib" where
  "breaker_lib = \<lparr>cl_clock = (\<lambda>w. (0, w)), cl_wait = (\<lambda>_ _ w. (None, w)),
     cl_breaker = (\<lambda>s call w.
       if snd w then (Some (Plain ''circuit breaker is open''), w)
       else case call w of (e, w1) \<Rightarrow>
         (e, if bs_IsExcluded s e then w1
             else if e = None then (0, False)
             else (fst w1 + 1, bs_ReadyToTrip s (fst w1 + 1))))\<rparr>"

lemma breaker_lib_counts: "counting_breaker breaker_lib s fst snd"
  unfolding counting_breaker_def breaker_lib_def by auto

theorem grpc_breaker_ignores_success_witness:
  "snd (breakerCalls breaker_lib [] \<lparr>breaker_Enabled = True, breaker_FailureThreshold = 3, breaker_OpenTimeout = second\<rparr>
     background [] [Some (StatusError CUnavailable []), None, Some (StatusError CUnavailable []), None,
       Some (StatusError CUnavailable [])] (0, False))"
proof -
  let ?e = "StatusError CUnavailable []"
  let ?cfg = "\<lparr>breaker_Enabled = True, breaker_FailureThreshold = 3, breaker_OpenTimeout = second\<rparr>"
  from grpc_breaker_ignores_success [where failures = fst and isOpen = snd and w = "(0, False)" and cfg = ?cfg and name = "[]"
      and es = "[Some ?e, None, Some ?e, None]" and x = ?e and ctx = background and verb = "[]", OF breaker_lib_counts]
  show ?thesis by (simp add: unavailable_count_def)
qed

end
