(* ===== verification/Entry.thy ===== *)
theory Entry
  imports Startup HttpTypes ConfigLoad
begin

text \<open>
  The process: \<^verbatim>\<open>cmd/api/main.go\<close>, with the build information of \<^verbatim>\<open>internal/buildinfo\<close> it prints and the
  version route reports. The flags arrive parsed; the application's run is a parameter that gives the
  exit code.
\<close>

section \<open>Build information\<close>

text \<open>The variables the linker sets.\<close>

record LinkedBuild =
  lb_Version :: string
  lb_Commit :: string
  lb_BuildTime :: string

definition defaultBuild :: LinkedBuild where
  "defaultBuild = \<lparr>lb_Version = ''dev'', lb_Commit = ''unknown'', lb_BuildTime = ''unknown''\<rparr>"

text \<open>\<^verbatim>\<open>time.Duration.Round\<close>: to the nearest multiple, halves away from zero, saturating at 64 bits.\<close>

definition maxDuration :: Duration where "maxDuration = 2 ^ 63 - 1"
definition minDuration :: Duration where "minDuration = - (2 ^ 63)"

definition roundDuration :: "Duration \<Rightarrow> Duration \<Rightarrow> Duration" where
  "roundDuration d m =
     (if m \<le> 0 then d
      else if d < 0 then
        (let r = (- d) mod m in if 2 * r < m then d + r else max minDuration (d - m + r))
      else
        (let r = d mod m in if 2 * r < m then d - r else min maxDuration (d + m - r)))"

lemma round_near:
  assumes "0 < m" and "0 \<le> d" and "d + m \<le> maxDuration"
  shows "m dvd roundDuration d m \<and> 2 * \<bar>roundDuration d m - d\<bar> \<le> m"
proof -
  have range: "0 \<le> d mod m" "d mod m < m" using assms(1) by simp_all
  have whole: "m dvd d - d mod m" by (simp add: minus_mod_eq_mult_div)
  then have "m dvd d + m - d mod m" using dvd_add [OF whole dvd_refl] by (simp add: algebra_simps)
  then show ?thesis using assms range whole by (auto simp: roundDuration_def Let_def)
qed

text \<open>\<^verbatim>\<open>Current\<close>, with the texts of a time and a duration; \<^verbatim>\<open>time.Since\<close> saturates.\<close>

definition Current_build ::
    "LinkedBuild \<Rightarrow> (int \<Rightarrow> string) \<Rightarrow> (Duration \<Rightarrow> string) \<Rightarrow> int \<Rightarrow> int \<Rightarrow> BuildInfo" where
  "Current_build b timeText durationText startedAt now =
     \<lparr>bi_Version = lb_Version b, bi_Commit = lb_Commit b, bi_BuildTime = lb_BuildTime b, bi_StartedAt = timeText startedAt,
      bi_Uptime = durationText (roundDuration (max minDuration (min maxDuration (now - startedAt))) second)\<rparr>"

section \<open>The entry point\<close>

text \<open>What the process printed and how it ended.\<close>

record ProcessEnd =
  pe_Stdout :: string
  pe_Stderr :: string
  pe_Exit :: int

definition versionLine :: "LinkedBuild \<Rightarrow> string" where
  "versionLine b = ''version='' @ lb_Version b @ '' commit='' @ lb_Commit b @ '' build_time='' @ lb_BuildTime b @ [CHR 0x0A]"

definition apiMain ::
    "LinkedBuild \<Rightarrow> 'w Viper \<Rightarrow> (Config \<Rightarrow> 'w \<Rightarrow> int \<times> 'w) \<Rightarrow> string \<Rightarrow> string \<Rightarrow> bool \<Rightarrow> 'w \<Rightarrow> ProcessEnd \<times> 'w" where
  "apiMain b v run configPath profile showVersion w =
     (if showVersion then (\<lparr>pe_Stdout = versionLine b, pe_Stderr = [], pe_Exit = 0\<rparr>, w)
      else case LoadWithProfile v configPath profile w of
          (Inl e, w') \<Rightarrow>
            (\<lparr>pe_Stdout = [], pe_Stderr = ''load configuration: '' @ err_text e @ [CHR 0x0A], pe_Exit = 1\<rparr>, w')
        | (Inr cfg, w') \<Rightarrow>
            (case run cfg w' of (code, w'') \<Rightarrow> (\<lparr>pe_Stdout = [], pe_Stderr = [], pe_Exit = code\<rparr>, w'')))"

text \<open>The process either stops before the application or runs it with the configuration that was loaded.\<close>

lemma apiMain_runs:
  "(\<exists>ended w'. apiMain b v run path profile showVersion w = (ended, w') \<and> pe_Exit ended = (if showVersion then 0 else 1)
      \<and> (showVersion \<longrightarrow> w' = w))
   \<or> (\<exists>cfg w' code w''. \<not> showVersion \<and> LoadWithProfile v path profile w = (Inr cfg, w') \<and> run cfg w' = (code, w'')
      \<and> apiMain b v run path profile showVersion w = (\<lparr>pe_Stdout = [], pe_Stderr = [], pe_Exit = code\<rparr>, w''))"
  by (auto simp: apiMain_def split: prod.split sum.split)

end
