(* ===== verification/Lifecycle.thy ===== *)
theory Lifecycle
  imports Startup Migration Metrics Auth
begin

text \<open>
  The application put together: \<^verbatim>\<open>app.New\<close> (\<^verbatim>\<open>internal/app/app.go\<close>) with the modules it lists. The fx library
  constructs what the invoked functions need, each part once and after the parts its constructor
  takes; it runs the start hooks in the order in which the constructors appended them. The order among
  parts that do not depend on each other is the library's, so what is shown holds for every order.
\<close>

section \<open>Parts\<close>

datatype Part =
    PLogger | PTracing | PMigration | PDatabase | PTransactor | PRedis | PLocker | PBus | PIdempotency | PMetrics
  | PRegistry | PVerifier | PAuthorizer | PAccess | PEngine | PService | PInbox | PCleaner | PProjection
  | PAuth | PHealth | PLimiter | PHandler | PGrpcServer | PHttpServer

text \<open>The parameters of each constructor, but for the configuration and the lifecycle.\<close>

primrec needs :: "Part \<Rightarrow> Part list" where
  "needs PLogger = []"
| "needs PTracing = []"
| "needs PMigration = [PLogger]"
| "needs PDatabase = []"
| "needs PTransactor = [PDatabase]"
| "needs PRedis = [PTracing]"
| "needs PLocker = [PRedis]"
| "needs PBus = []"
| "needs PIdempotency = [PRedis]"
| "needs PMetrics = [PDatabase, PRedis]"
| "needs PRegistry = [PMetrics]"
| "needs PVerifier = [PRegistry]"
| "needs PAuthorizer = [PRegistry]"
| "needs PAccess = [PRegistry]"
| "needs PEngine = [PMetrics]"
| "needs PService = [PEngine, PVerifier]"
| "needs PInbox = [PDatabase]"
| "needs PCleaner = [PInbox]"
| "needs PProjection = [PBus, PInbox, PCleaner, PService, PLogger]"
| "needs PAuth = []"
| "needs PHealth = [PDatabase, PRedis, PService]"
| "needs PLimiter = [PRedis]"
| "needs PHandler = [PHealth, PService, PAccess, PLogger]"
| "needs PGrpcServer = [PAuth, PAuthorizer, PHealth, PService, PAccess, PIdempotency, PMetrics, PLogger]"
| "needs PHttpServer = [PHandler, PAuth, PAuthorizer, PLimiter, PMetrics, PTracing, PLogger]"

text \<open>What the modules invoke, in the order of \<^verbatim>\<open>New\<close>; invoking a part's type constructs it.\<close>

definition invoked :: "Part list" where
  "invoked = [PMigration, PDatabase, PLogger, PRedis, PBus, PRegistry, PProjection, PGrpcServer, PHttpServer]"

text \<open>An order in which every part comes once, after those it needs.\<close>

fun wired :: "Part list \<Rightarrow> Part list \<Rightarrow> bool" where
  "wired built [] = True"
| "wired built (p # ps) = (p \<notin> set built \<and> set (needs p) \<subseteq> set built \<and> wired (p # built) ps)"

definition possible_order :: "Part list \<Rightarrow> bool" where
  "possible_order order \<longleftrightarrow> wired [] order \<and> set invoked \<subseteq> set order"

text \<open>Using a part, directly or through others.\<close>

inductive uses :: "Part \<Rightarrow> Part \<Rightarrow> bool" where
  direct: "p \<in> set (needs q) \<Longrightarrow> uses q p"
| through: "r \<in> set (needs q) \<Longrightarrow> uses r p \<Longrightarrow> uses q p"

section \<open>Construction\<close>

text \<open>The libraries behind the constructors.\<close>

record 'w Env =
  ev_logging :: "Log \<Rightarrow> ('w, err, LogSettings) call"
  ev_log_close :: "('w, err) call_err"
  ev_url :: URLLib
  ev_sql :: "'w SQLLib"
  ev_migrate :: "'w MigrateLib"
  ev_exporter :: "string \<Rightarrow> err option"
  ev_trace_shutdown :: "('w, err) call_err"
  ev_version :: string
  ev_db :: "'w DBLib"
  ev_db_close :: "Pool \<Rightarrow> ('w, err) call_err"
  ev_redis :: "'w RedisLib"
  ev_redis_instrument :: "('w, err) call_err"
  ev_redis_close :: "('w, err) call_err"
  ev_bus :: "'w BusLib"
  ev_outlets :: "'w Outlets"
  ev_verifier :: "'w ClientConn \<Rightarrow> Duration \<Rightarrow> 'w ApplicationAccess"
  ev_bindings :: "'w ClientConn \<Rightarrow> 'w BindingsClient"
  ev_opensearch :: "EngineOptions \<Rightarrow> err + 'w Wire"
  ev_idle :: "('w, err) call_err"
  ev_auth :: "Config \<Rightarrow> 'w AuthService"
  ev_jwks :: "string \<Rightarrow> string \<Rightarrow> string \<Rightarrow> err + (Ctx \<Rightarrow> string \<Rightarrow> ('w, err, Principal) call)"
  ev_jwks_close :: "('w, err) call_err"
  ev_consume :: "string \<times> string \<Rightarrow> bool \<Rightarrow> 'w Service \<Rightarrow> 'w \<Rightarrow> 'w"  \<comment> \<open>starts the goroutines; with a cleaner or not\<close>
  ev_wait :: "('w, err) call_err"
  ev_files :: Files
  ev_grpc :: "'w ServerLib"
  ev_http :: "'w ServerLib"
  ev_proxies :: "string list \<Rightarrow> err option"
  ev_ctx :: Ctx

text \<open>What was constructed; a pointer that Go may hold as nil is \<^verbatim>\<open>None\<close>, as is a part that is not there yet.\<close>

record 'w App =
  ap_logger :: "(LogSettings \<times> (string \<times> string) list) option"
  ap_tracing :: "TracingSettings option"
  ap_database :: "Pool option"
  ap_redis :: "RedisOptions option"
  ap_bus :: "'w BusLib option"
  ap_metrics :: "Metrics option"
  ap_registry :: "'w Registry option"
  ap_verifier :: "'w ApplicationAccess option"
  ap_access :: "'w BindingsClient option option option"
  ap_engine :: "'w Store option"
  ap_service :: "'w Service option"
  ap_inbox :: "(dialect \<times> string) option"
  ap_cleaner :: "(Duration \<times> int) option"
  ap_auth :: "'w AuthService option"
  ap_grpc :: "GRPCServerOptions option"
  ap_http :: "HTTPServerOptions option"
  ap_hooks :: "(Part \<times> 'w Hook) list"  \<comment> \<open>with the part that appended it\<close>

definition newApp :: "'w App" where
  "newApp = \<lparr>ap_logger = None, ap_tracing = None, ap_database = None, ap_redis = None, ap_bus = None, ap_metrics = None,
     ap_registry = None, ap_verifier = None, ap_access = None, ap_engine = None, ap_service = None, ap_inbox = None,
     ap_cleaner = None, ap_auth = None, ap_grpc = None, ap_http = None, ap_hooks = []\<rparr>"

datatype failure =
    Failed err
  | MigrationFailed string "err list"
  | Missing  \<comment> \<open>a part is constructed before one it takes\<close>

text \<open>A constructor run by the library: its result is stored, its hooks come after those so far.\<close>

definition provide ::
    "Part \<Rightarrow> ('w, 'a) provider \<Rightarrow> ('a \<Rightarrow> 'w App \<Rightarrow> 'w App) \<Rightarrow> 'w App \<Rightarrow> 'w \<Rightarrow> (failure + 'w App) \<times> 'w" where
  "provide p constructor store a w =
     (case constructor [] w of
        (Inl e, _, w') \<Rightarrow> (Inl (Failed e), w')
      | (Inr x, hooks, w') \<Rightarrow> (Inr (store x (a\<lparr>ap_hooks := ap_hooks a @ map (Pair p) hooks\<rparr>)), w'))"

definition hookless :: "err + 'a \<Rightarrow> ('w, 'a) provider" where
  "hookless r hooks w = (r, hooks, w)"

definition taken :: "'a option \<Rightarrow> ('a \<Rightarrow> 'w \<Rightarrow> (failure + 'b) \<times> 'w) \<Rightarrow> 'w \<Rightarrow> (failure + 'b) \<times> 'w" where
  "taken x f w = (case x of None \<Rightarrow> (Inl Missing, w) | Some v \<Rightarrow> f v w)"

definition newAuthProvider :: "'w Env \<Rightarrow> Config \<Rightarrow> ('w, 'w AuthService) provider" where
  "newAuthProvider E cfg hooks w =
     (NewAuthRuntime (ev_jwks E) (ev_auth E cfg) cfg,
      (if auth_JWKSURL (cfg_Auth cfg) = [] then hooks else hooks @ [StopHook (ev_jwks_close E)]), w)"

definition newRegistryProvider :: "'w Outlets \<Rightarrow> Config \<Rightarrow> ('w, 'w Registry) provider" where
  "newRegistryProvider out cfg hooks w =
     (case NewRegistry out cfg w of
        (Inl e, w') \<Rightarrow> (Inl e, hooks, w')
      | (Inr r, w') \<Rightarrow> (Inr r, hooks @ [StopHook (closeRegistry out r)], w'))"

text \<open>The projection's hook on the application's state; \<^verbatim>\<open>ProjectionWorker\<close> has its goroutines.\<close>

definition projectionHook :: "'w Env \<Rightarrow> Config \<Rightarrow> bool \<Rightarrow> bool \<Rightarrow> bool \<Rightarrow> 'w Service \<Rightarrow> 'w Hook" where
  "projectionHook E cfg hasBus hasInbox hasCleaner service =
     \<lparr>hk_start = (\<lambda>w.
        case startSearchProjection hasBus hasInbox cfg of
          Inl e \<Rightarrow> (Some e, w)
        | Inr None \<Rightarrow> (None, w)
        | Inr (Some subscription) \<Rightarrow> (None, ev_consume E subscription hasCleaner service w)),
      hk_stop = ev_wait E\<rparr>"

primrec construct :: "'w Env \<Rightarrow> Config \<Rightarrow> Part \<Rightarrow> 'w App \<Rightarrow> 'w \<Rightarrow> (failure + 'w App) \<times> 'w" where
  "construct E cfg PLogger a = provide PLogger (newLogger (ev_logging E) (ev_log_close E) cfg)
     (\<lambda>x a. a\<lparr>ap_logger := Some x\<rparr>) a"
| "construct E cfg PTracing a = provide PTracing (NewTracing (ev_exporter E) (ev_trace_shutdown E) (ev_version E) cfg)
     (\<lambda>x a. a\<lparr>ap_tracing := x\<rparr>) a"
| "construct E cfg PMigration a = (\<lambda>w.
     case runStartupMigration (ev_url E) (ev_sql E) (ev_migrate E) cfg w of
       (Some (m, es), w') \<Rightarrow> (Inl (MigrationFailed m es), w')
     | (None, w') \<Rightarrow> (Inr a, w'))"
| "construct E cfg PDatabase a = provide PDatabase (newDatabase (ev_db E) (ev_db_close E) cfg)
     (\<lambda>x a. a\<lparr>ap_database := x\<rparr>) a"
| "construct E cfg PTransactor a = Pair (Inr a)"
| "construct E cfg PRedis a = provide PRedis
     (newRedis (ev_redis E) (ev_redis_instrument E) (ev_redis_close E) (ap_tracing a \<noteq> None) cfg) (\<lambda>x a. a\<lparr>ap_redis := x\<rparr>) a"
| "construct E cfg PLocker a = Pair (Inr a)"
| "construct E cfg PBus a = provide PBus (newBusProvider (ev_bus E) cfg) (\<lambda>x a. a\<lparr>ap_bus := x\<rparr>) a"
| "construct E cfg PIdempotency a = Pair (Inr a)"
| "construct E cfg PMetrics a = Pair (Inr (a\<lparr>ap_metrics :=
     Some (NewMetrics (obs_MetricsEnabled (cfg_Observability cfg)) (ap_database a \<noteq> None) (ap_redis a \<noteq> None))\<rparr>))"
| "construct E cfg PRegistry a = taken (ap_metrics a) (\<lambda>_.
     provide PRegistry (newRegistryProvider (ev_outlets E) cfg) (\<lambda>x a. a\<lparr>ap_registry := Some x\<rparr>) a)"
| "construct E cfg PVerifier a = taken (ap_registry a) (\<lambda>r.
     provide PVerifier (hookless (newApplicationVerifier (ev_verifier E) cfg (Some r))) (\<lambda>x a. a\<lparr>ap_verifier := Some x\<rparr>) a)"
| "construct E cfg PAuthorizer a = taken (ap_registry a) (\<lambda>_. Pair (Inr a))"
| "construct E cfg PAccess a = taken (ap_registry a) (\<lambda>r.
     provide PAccess (hookless (newSearchAccessResolver (ev_bindings E) cfg r)) (\<lambda>x a. a\<lparr>ap_access := Some x\<rparr>) a)"
| "construct E cfg PEngine a = taken (ap_metrics a) (\<lambda>_.
     provide PEngine (NewEngine (ev_opensearch E) (ev_idle E) (ev_ctx E) cfg) (\<lambda>x a. a\<lparr>ap_engine := Some x\<rparr>) a)"
| "construct E cfg PService a = taken (ap_engine a) (\<lambda>e. taken (ap_verifier a) (\<lambda>v.
     provide PService (hookless (NewRuntime (store_engine e) (Some v))) (\<lambda>x a. a\<lparr>ap_service := Some x\<rparr>) a))"
| "construct E cfg PInbox a = Pair (Inr (a\<lparr>ap_inbox := newSearchInbox (ap_database a \<noteq> None) cfg\<rparr>))"
| "construct E cfg PCleaner a = Pair (Inr (a\<lparr>ap_cleaner := newSearchInboxRetentionCleaner (ap_inbox a \<noteq> None) cfg\<rparr>))"
| "construct E cfg PProjection a = taken (ap_service a) (\<lambda>s.
     provide PProjection (\<lambda>hooks w. (Inr (), hooks @
       [projectionHook E cfg (ap_bus a \<noteq> None) (ap_inbox a \<noteq> None) (ap_cleaner a \<noteq> None) s], w)) (\<lambda>_ a. a) a)"
| "construct E cfg PAuth a = provide PAuth (newAuthProvider E cfg) (\<lambda>x a. a\<lparr>ap_auth := Some x\<rparr>) a"
| "construct E cfg PHealth a = taken (ap_service a) (\<lambda>_. Pair (Inr a))"
| "construct E cfg PLimiter a = Pair (Inr a)"
| "construct E cfg PHandler a = taken (ap_service a) (\<lambda>_. taken (ap_access a) (\<lambda>_. Pair (Inr a)))"
| "construct E cfg PGrpcServer a = taken (ap_service a) (\<lambda>_. taken (ap_access a) (\<lambda>_. taken (ap_auth a) (\<lambda>_.
     provide PGrpcServer (NewGRPCServer (ev_grpc E) (ev_files E) (ev_ctx E) cfg) (\<lambda>x a. a\<lparr>ap_grpc := Some x\<rparr>) a)))"
| "construct E cfg PHttpServer a = taken (ap_auth a) (\<lambda>_.
     provide PHttpServer (NewHTTPServer (ev_http E) (ev_proxies E) (ev_ctx E) cfg) (\<lambda>x a. a\<lparr>ap_http := Some x\<rparr>) a)"

fun assemble :: "'w Env \<Rightarrow> Config \<Rightarrow> Part list \<Rightarrow> 'w App \<Rightarrow> 'w \<Rightarrow> (failure + 'w App) \<times> 'w" where
  "assemble E cfg [] a w = (Inr a, w)"
| "assemble E cfg (p # ps) a w =
     (case construct E cfg p a w of (Inl f, w') \<Rightarrow> (Inl f, w') | (Inr a', w') \<Rightarrow> assemble E cfg ps a' w')"

section \<open>Orders of construction\<close>

lemma wired_append: "wired built (as @ bs) \<longleftrightarrow> wired built as \<and> wired (rev as @ built) bs"
  by (induction as arbitrary: built) auto

lemma wired_needs:
  assumes "wired [] (as @ q # bs)" and "p \<in> set (needs q)"
  shows "p \<in> set as"
  using assms by (auto simp: wired_append)

lemma wired_distinct: "wired built ps \<Longrightarrow> distinct ps \<and> set built \<inter> set ps = {}"
proof (induction ps arbitrary: built)
  case (Cons p ps)
  then show ?case using Cons.IH [of "p # built"] by auto
qed simp

text \<open>A part comes after every part it uses, however far away.\<close>

lemma wired_uses:
  assumes "uses q p" and "wired [] (as @ q # bs)"
  shows "p \<in> set as"
  using assms
proof (induction arbitrary: as bs rule: uses.induct)
  case (direct p q)
  show ?case by (rule wired_needs [OF direct.prems direct.hyps])
next
  case (through r q p)
  have "r \<in> set as" using through.prems through.hyps(1) by (rule wired_needs)
  then obtain cs ds where as: "as = cs @ r # ds" unfolding in_set_conv_decomp by (elim exE)
  have "p \<in> set cs" using through.IH [of cs "ds @ q # bs"] through.prems as by simp
  then show ?case by (simp add: as)
qed

section \<open>The hooks of an assembly\<close>

lemma provide_hooks:
  assumes "provide p constructor store a w = (Inr a', w')" and "\<And>x b. ap_hooks (store x b) = ap_hooks b"
  shows "\<exists>hooks. ap_hooks a' = ap_hooks a @ map (Pair p) hooks"
  using assms by (auto simp: provide_def split: prod.splits sum.splits)

lemma construct_hooks:
  assumes "construct E cfg p a w = (Inr a', w')"
  shows "\<exists>hooks. ap_hooks a' = ap_hooks a @ map (Pair p) hooks"
proof -
  have none: "\<exists>hooks. ap_hooks a = ap_hooks a @ map (Pair p) hooks" by (intro exI [of _ "[]"]) simp
  show ?thesis using assms
    by (cases p) (auto simp: taken_def none elim!: provide_hooks split: option.splits prod.splits)
qed

lemma assemble_append:
  "assemble E cfg (ps @ qs) a w =
     (case assemble E cfg ps a w of (Inl f, w') \<Rightarrow> (Inl f, w') | (Inr a', w') \<Rightarrow> assemble E cfg qs a' w')"
  by (induction ps arbitrary: a w) (simp_all split: prod.split sum.split)

lemma assemble_hooks:
  assumes "assemble E cfg ps a w = (Inr a', w')"
  shows "\<exists>added. ap_hooks a' = ap_hooks a @ added \<and> fst ` set added \<subseteq> set ps"
  using assms
proof (induction ps arbitrary: a w)
  case Nil
  then show ?case by simp
next
  case (Cons p ps)
  obtain a1 w1 where one: "construct E cfg p a w = (Inr a1, w1)" and rest: "assemble E cfg ps a1 w1 = (Inr a', w')"
    using Cons.prems by (auto split: prod.splits sum.splits)
  obtain hooks where "ap_hooks a1 = ap_hooks a @ map (Pair p) hooks" using construct_hooks [OF one] by (elim exE)
  moreover obtain added where "ap_hooks a' = ap_hooks a1 @ added" "fst ` set added \<subseteq> set ps"
    using Cons.IH [OF rest] by (elim exE conjE)
  ultimately show ?case by (intro exI [of _ "map (Pair p) hooks @ added"]) auto
qed

text \<open>Around one part of an order: the hooks of the parts before it, its own, and those of the parts after.\<close>

lemma assemble_at:
  assumes "assemble E cfg (as @ q # bs) newApp w = (Inr a, w')"
  obtains a1 w1 a2 w2 before own behind where "assemble E cfg as newApp w = (Inr a1, w1)"
    and "construct E cfg q a1 w1 = (Inr a2, w2)" and "assemble E cfg bs a2 w2 = (Inr a, w')"
    and "ap_hooks a1 = before" and "ap_hooks a2 = before @ map (Pair q) own"
    and "ap_hooks a = before @ map (Pair q) own @ behind"
    and "fst ` set before \<subseteq> set as" and "fst ` set behind \<subseteq> set bs"
proof -
  obtain a1 w1 where one: "assemble E cfg as newApp w = (Inr a1, w1)" and rest: "assemble E cfg (q # bs) a1 w1 = (Inr a, w')"
    using assms by (auto simp: assemble_append split: prod.splits sum.splits)
  obtain a2 w2 where two: "construct E cfg q a1 w1 = (Inr a2, w2)" and three: "assemble E cfg bs a2 w2 = (Inr a, w')"
    using rest by (auto split: prod.splits sum.splits)
  have "fst ` set (ap_hooks a1) \<subseteq> set as" using assemble_hooks [OF one] by (auto simp: newApp_def)
  moreover obtain own where "ap_hooks a2 = ap_hooks a1 @ map (Pair q) own" using construct_hooks [OF two] by (elim exE)
  moreover obtain behind where "ap_hooks a = ap_hooks a2 @ behind" "fst ` set behind \<subseteq> set bs"
    using assemble_hooks [OF three] by (elim exE conjE)
  ultimately show thesis using that [OF one two three refl] by simp
qed

text \<open>The hooks of a part that is used come before those of the part that uses it.\<close>

lemma hooks_follow_uses:
  assumes "wired [] order" and "assemble E cfg order newApp w = (Inr a, w')" and "uses q p"
    and "i < length (ap_hooks a)" and "fst (ap_hooks a ! i) = p"
    and "j < length (ap_hooks a)" and "fst (ap_hooks a ! j) = q"
  shows "i < j"
proof -
  have inside: "fst (ap_hooks a ! k) \<in> set order" if "k < length (ap_hooks a)" for k
    using assemble_hooks [OF assms(2)] that by (auto simp: newApp_def)
  obtain as bs where order: "order = as @ q # bs"
    using inside [OF assms(6)] unfolding assms(7) in_set_conv_decomp by (elim exE)
  note split = assms(1) [unfolded order]
  from assms(2) [unfolded order] obtain before own behind where hooks: "ap_hooks a = before @ map (Pair q) own @ behind"
    and parts: "fst ` set before \<subseteq> set as" "fst ` set behind \<subseteq> set bs" by (rule assemble_at)
  have "p \<in> set as" using assms(3) split by (rule wired_uses)
  then have other: "p \<noteq> q" "p \<notin> set bs" "q \<notin> set as" using wired_distinct [OF split] by auto
  have "\<not> length before \<le> i"
  proof
    assume "length before \<le> i"
    then have "ap_hooks a ! i = (map (Pair q) own @ behind) ! (i - length before)"
      and "i - length before < length (map (Pair q) own @ behind)"
      using assms(4) by (simp_all add: hooks nth_append)
    then have "ap_hooks a ! i \<in> set (map (Pair q) own @ behind)" using nth_mem by metis
    then show False using assms(5) other parts(2) by auto
  qed
  moreover have "\<not> j < length before"
  proof
    assume "j < length before"
    then have "ap_hooks a ! j \<in> set before" by (simp add: hooks nth_append)
    then show False using assms(7) other(3) parts(1) by auto
  qed
  ultimately show ?thesis by simp
qed

section \<open>Nothing is missing\<close>

text \<open>The result of a part, where a later constructor takes one that cannot be nil, is there.\<close>

definition available :: "'w App \<Rightarrow> Part \<Rightarrow> bool" where
  "available a p =
     (case p of
        PMetrics \<Rightarrow> ap_metrics a \<noteq> None | PRegistry \<Rightarrow> ap_registry a \<noteq> None | PVerifier \<Rightarrow> ap_verifier a \<noteq> None
      | PAccess \<Rightarrow> ap_access a \<noteq> None | PEngine \<Rightarrow> ap_engine a \<noteq> None | PService \<Rightarrow> ap_service a \<noteq> None
      | PAuth \<Rightarrow> ap_auth a \<noteq> None | _ \<Rightarrow> True)"

definition supplied :: "Part list \<Rightarrow> 'w App \<Rightarrow> bool" where
  "supplied built a \<longleftrightarrow> list_all (available a) built"

lemma provide_not_missing [simp]: "fst (provide p constructor store a w) \<noteq> Inl Missing"
  by (simp add: provide_def split: prod.split sum.split)

lemma provide_result:
  assumes "provide p constructor store a w = (Inr a', w')"
  shows "\<exists>x hooks. a' = store x (a\<lparr>ap_hooks := hooks\<rparr>)"
  using assms by (auto simp: provide_def split: prod.splits sum.splits)

lemma taken_not_missing:
  "x \<noteq> None \<Longrightarrow> (\<And>v. fst (f v w) \<noteq> Inl Missing) \<Longrightarrow> fst (taken x f w) \<noteq> Inl Missing"
  by (auto simp: taken_def)

lemma construct_not_missing:
  assumes "supplied built a" and "set (needs p) \<subseteq> set built"
  shows "fst (construct E cfg p a w) \<noteq> Inl Missing"
proof -
  have there: "list_all (available a) (needs p)" using assms by (auto simp: supplied_def list_all_iff)
  have migration: "fst (case r of (None, w') \<Rightarrow> (Inr a, w') | (Some (m, es), w') \<Rightarrow> (Inl (MigrationFailed m es), w')) \<noteq> Inl Missing" for r
    by (simp split: prod.split option.split)
  show ?thesis using there by (cases p) (simp_all add: available_def taken_not_missing migration)
qed

lemma construct_available:
  assumes "construct E cfg p a w = (Inr a', w')"
  shows "available a' p"
  using assms
  by (cases p) (auto simp: available_def taken_def split: option.splits dest!: provide_result)

text \<open>A constructor stores its own result only.\<close>

lemma construct_keeps:
  assumes "construct E cfg p a w = (Inr a', w')"
  shows "ap_metrics a \<noteq> None \<Longrightarrow> ap_metrics a' \<noteq> None" and "ap_registry a \<noteq> None \<Longrightarrow> ap_registry a' \<noteq> None"
    and "ap_verifier a \<noteq> None \<Longrightarrow> ap_verifier a' \<noteq> None" and "ap_access a \<noteq> None \<Longrightarrow> ap_access a' \<noteq> None"
    and "ap_engine a \<noteq> None \<Longrightarrow> ap_engine a' \<noteq> None" and "ap_service a \<noteq> None \<Longrightarrow> ap_service a' \<noteq> None"
    and "ap_auth a \<noteq> None \<Longrightarrow> ap_auth a' \<noteq> None"
  using assms
  by (cases p; (auto simp: taken_def split: option.splits prod.splits dest!: provide_result; fail))+

lemma construct_supplied:
  assumes "supplied built a" and "construct E cfg p a w = (Inr a', w')"
  shows "supplied (p # built) a'"
proof -
  have "available a q \<Longrightarrow> available a' q" for q
    using construct_keeps [OF assms(2)] by (cases q) (simp_all add: available_def)
  then show ?thesis using assms construct_available by (auto simp: supplied_def list_all_iff)
qed

text \<open>Every constructor finds what it takes, in every order that respects the parameters.\<close>

lemma assemble_supplied:
  assumes "wired built ps" and "supplied built a"
  shows "fst (assemble E cfg ps a w) \<noteq> Inl Missing"
    and "assemble E cfg ps a w = (Inr a', w') \<Longrightarrow> supplied (rev ps @ built) a'"
proof -
  have "fst (assemble E cfg ps a w) \<noteq> Inl Missing
      \<and> (\<forall>a' w'. assemble E cfg ps a w = (Inr a', w') \<longrightarrow> supplied (rev ps @ built) a')"
    using assms
  proof (induction ps arbitrary: built a w)
    case (Cons p ps)
    then have parts: "set (needs p) \<subseteq> set built" "wired (p # built) ps" by simp_all
    note one = construct_not_missing [OF Cons.prems(2) parts(1), of E cfg w] construct_supplied [OF Cons.prems(2)]
    obtain r w1 where run: "construct E cfg p a w = (r, w1)" by (rule prod.exhaust)
    show ?case
    proof (cases r)
      case (Inl f)
      then show ?thesis using one(1) run by simp
    next
      case (Inr a1)
      then show ?thesis using one(2) run Cons.IH [OF parts(2), of a1 w1] by simp
    qed
  qed simp
  then show "fst (assemble E cfg ps a w) \<noteq> Inl Missing"
    and "assemble E cfg ps a w = (Inr a', w') \<Longrightarrow> supplied (rev ps @ built) a'" by simp_all
qed

section \<open>Starting\<close>

text \<open>
  The documented behaviour of the library: the start hooks run one after the other, in the order in which
  they were appended, and none runs after one that failed. \<^verbatim>\<open>start\<close> gives the results of those that ran.
\<close>

definition starts_in_order :: "('w Hook list \<Rightarrow> 'w \<Rightarrow> err option list \<times> 'w) \<Rightarrow> bool" where
  "starts_in_order start \<longleftrightarrow>
     (\<forall>hooks w results w'. start hooks w = (results, w') \<longrightarrow>
        length results \<le> length hooks
      \<and> list_all (\<lambda>r. r = None) (butlast results)
      \<and> (\<forall>i < length results. \<exists>w1 w2. hk_start (hooks ! i) w1 = (results ! i, w2)))"

primrec startHooks :: "'w Hook list \<Rightarrow> 'w \<Rightarrow> err option list \<times> 'w" where
  "startHooks [] w = ([], w)"
| "startHooks (h # hs) w =
     (case hk_start h w of
        (Some e, w') \<Rightarrow> ([Some e], w')
      | (None, w') \<Rightarrow> (case startHooks hs w' of (results, w'') \<Rightarrow> (None # results, w'')))"

lemma startHooks_in_order: "starts_in_order startHooks"
  unfolding starts_in_order_def
proof (intro allI impI)
  fix hooks :: "'w Hook list" and w results w'
  assume "startHooks hooks w = (results, w')"
  then show "length results \<le> length hooks \<and> list_all (\<lambda>r. r = None) (butlast results)
      \<and> (\<forall>i < length results. \<exists>w1 w2. hk_start (hooks ! i) w1 = (results ! i, w2))"
  proof (induction hooks arbitrary: w results)
    case Nil
    then show ?case by simp
  next
    case (Cons h hs)
    obtain r w1 where one: "hk_start h w = (r, w1)" by (rule prod.exhaust)
    show ?case
    proof (cases r)
      case (Some e)
      then show ?thesis using Cons.prems one by (auto intro: exI [of _ w] exI [of _ w'])
    next
      case None
      obtain rs where rest: "startHooks hs w1 = (rs, w')" and results: "results = None # rs"
        using Cons.prems one None by (auto split: prod.splits)
      show ?thesis using Cons.IH [OF rest] one None
        by (auto simp: results nth_Cons split: nat.splits)
    qed
  qed
qed

text \<open>The engine appends the hook that ensures its index, and it is kept to the end.\<close>

lemma construct_engine:
  assumes "construct E cfg p a w = (Inr a', w')" and "p \<noteq> PEngine"
  shows "ap_engine a' = ap_engine a"
  using assms by (cases p) (auto simp: taken_def split: option.splits prod.splits dest!: provide_result)

lemma assemble_engine:
  assumes "assemble E cfg ps a w = (Inr a', w')" and "PEngine \<notin> set ps"
  shows "ap_engine a' = ap_engine a"
  using assms
proof (induction ps arbitrary: a w)
  case (Cons p ps)
  obtain a1 w1 where "construct E cfg p a w = (Inr a1, w1)" and "assemble E cfg ps a1 w1 = (Inr a', w')"
    using Cons.prems(1) by (auto split: prod.splits sum.splits)
  then show ?case using Cons.IH construct_engine Cons.prems(2) by fastforce
qed simp

lemma construct_PEngine:
  assumes "construct E cfg PEngine a w = (Inr a', w')"
  shows "\<exists>engine. ap_engine a' = Some engine \<and> ap_hooks a' = ap_hooks a
     @ map (Pair PEngine) [\<lparr>hk_start = ensureIndex engine (ev_ctx E), hk_stop = no_hook\<rparr>, StopHook (ev_idle E)]"
  using assms by (auto simp: taken_def provide_def NewEngine_def Let_def split: option.splits prod.splits sum.splits if_splits)

lemma engine_hooks:
  assumes "wired [] order" and "PEngine \<in> set order" and "assemble E cfg order newApp w = (Inr a, w')"
  shows "\<exists>engine i. ap_engine a = Some engine \<and> i < length (ap_hooks a)
     \<and> ap_hooks a ! i = (PEngine, \<lparr>hk_start = ensureIndex engine (ev_ctx E), hk_stop = no_hook\<rparr>)"
proof -
  obtain as bs where order: "order = as @ PEngine # bs" using assms(2) unfolding in_set_conv_decomp by (elim exE)
  have "PEngine \<notin> set bs" using wired_distinct [OF assms(1)] by (simp add: order)
  obtain a1 w1 a2 w2 before own behind where one: "construct E cfg PEngine a1 w1 = (Inr a2, w2)"
    and rest: "assemble E cfg bs a2 w2 = (Inr a, w')" and before: "ap_hooks a1 = before"
    and own: "ap_hooks a2 = before @ map (Pair PEngine) own" and hooks: "ap_hooks a = before @ map (Pair PEngine) own @ behind"
    using assms(3) [unfolded order] by (rule assemble_at)
  obtain engine where engine: "ap_engine a2 = Some engine"
    and mine: "own = [\<lparr>hk_start = ensureIndex engine (ev_ctx E), hk_stop = no_hook\<rparr>, StopHook (ev_idle E)]"
    using construct_PEngine [OF one] own before by (auto simp: inj_map_eq_map inj_on_def)
  have "ap_engine a = Some engine" using assemble_engine [OF rest \<open>PEngine \<notin> set bs\<close>] engine by simp
  then show ?thesis by (intro exI [of _ engine] exI [of _ "length before"]) (simp add: hooks mine)
qed

lemma traffic_uses_engine:
  "q \<in> {PProjection, PGrpcServer, PHttpServer} \<Longrightarrow> uses q PEngine"
proof -
  have service: "uses PService PEngine" by (rule uses.direct) simp
  have "uses PHandler PEngine" by (rule uses.through [OF _ service]) simp
  moreover have "uses PProjection PEngine" "uses PGrpcServer PEngine" by (rule uses.through [OF _ service], simp)+
  ultimately show "q \<in> {PProjection, PGrpcServer, PHttpServer} \<Longrightarrow> uses q PEngine"
    using uses.through [of PHandler PHttpServer PEngine] by auto
qed

text \<open>C19: Starting up. In whatever order the library constructs the parts, if it respects the parameters of the
  constructors, then no event is consumed and no server listens before OpenSearch has confirmed the
  index: the start of the projection, of the gRPC server or of the HTTP server only runs after the
  engine's start succeeded. The hooks of every part they use, directly or through others, come before
  theirs, so these parts, the database, the clients and the verifier among them, are stopped after them.\<close>

theorem no_traffic_before_index:
  assumes "wired [] order" and "assemble E cfg order newApp w = (Inr a, w1)" and "starts_in_order start"
    and "start (map snd (ap_hooks a)) w1 = (results, w2)"
    and "j < length results" and "fst (ap_hooks a ! j) \<in> {PProjection, PGrpcServer, PHttpServer}"
  shows "(\<exists>i engine wa wb. i < j \<and> fst (ap_hooks a ! i) = PEngine \<and> ap_engine a = Some engine \<and> results ! i = None
        \<and> ensureIndex engine (ev_ctx E) wa = (None, wb))
    \<and> (\<forall>i < length (ap_hooks a). uses (fst (ap_hooks a ! j)) (fst (ap_hooks a ! i)) \<longrightarrow> i < j)"
proof -
  note law = assms(3) [unfolded starts_in_order_def, THEN spec, THEN spec, THEN spec, THEN spec, THEN mp, OF assms(4)]
  have j: "j < length (ap_hooks a)" using law assms(5) by simp
  have "ap_hooks a ! j \<in> set (ap_hooks a)" using j by (rule nth_mem)
  then have "fst (ap_hooks a ! j) \<in> set order" using assemble_hooks [OF assms(2)] by (auto simp: newApp_def)
  then obtain as bs where order: "order = as @ fst (ap_hooks a ! j) # bs" unfolding in_set_conv_decomp by (elim exE)
  have engine: "PEngine \<in> set order"
    using wired_uses [OF traffic_uses_engine [OF assms(6)] assms(1) [unfolded order]] by (subst order) simp
  obtain e i where e: "ap_engine a = Some e" and i: "i < length (ap_hooks a)"
    and hook: "ap_hooks a ! i = (PEngine, \<lparr>hk_start = ensureIndex e (ev_ctx E), hk_stop = no_hook\<rparr>)"
    using engine_hooks [OF assms(1) engine assms(2)] by (elim exE conjE)
  have before: "i < j"
    using hooks_follow_uses [OF assms(1,2) traffic_uses_engine [OF assms(6)] i _ j refl] hook by simp
  then have "results ! i = None" using law assms(5) by (auto simp: list_all_length nth_butlast)
  moreover obtain wa wb where "hk_start (map snd (ap_hooks a) ! i) wa = (results ! i, wb)"
    using law before assms(5) by (meson less_trans)
  ultimately have "ensureIndex e (ev_ctx E) wa = (None, wb)" using hook i by simp
  then have "\<exists>i engine wa wb. i < j \<and> fst (ap_hooks a ! i) = PEngine \<and> ap_engine a = Some engine \<and> results ! i = None
      \<and> ensureIndex engine (ev_ctx E) wa = (None, wb)"
    using before e hook \<open>results ! i = None\<close> by (intro exI [of _ i] exI [of _ e] exI [of _ wa] exI [of _ wb]) simp
  moreover have "k < j" if "k < length (ap_hooks a)" and "uses (fst (ap_hooks a ! j)) (fst (ap_hooks a ! k))" for k
    using hooks_follow_uses [OF assms(1,2) that(2,1) refl j refl] .
  ultimately show ?thesis by simp
qed

section \<open>An application\<close>

text \<open>An application without database, Redis and bus, whose OpenSearch has the index.\<close>

definition small_config :: Config where
  "small_config = example_config\<lparr>cfg_Database := (cfg_Database example_config)\<lparr>db_Enabled := False\<rparr>,
     cfg_EventBus := (cfg_EventBus example_config)\<lparr>bus_Enabled := False\<rparr>\<rparr>"

definition small_env :: "HTTPRequest list Env" where
  "small_env =
     (let ok = (\<lambda>w. (None, w)); server = \<lparr>sl_listen = (\<lambda>_ w. (None, w)), sl_serve = (\<lambda>w. w), sl_graceful = (\<lambda>_ w. (None, w)), sl_stop = (\<lambda>w. w)\<rparr> in
      \<lparr>ev_logging = (\<lambda>cfg. NewLogging (\<lambda>_. ok) (\<lambda>_. ''logs'') (\<lambda>_. None) cfg), ev_log_close = ok,
       ev_url = \<lparr>ul_parse = (\<lambda>_. Inl (Plain [])), ul_String = pl_Rest\<rparr>,
       ev_sql = \<lparr>sq_open = (\<lambda>_. ok), sq_close = (\<lambda>w. w), sq_begin = ok, sq_exec = (\<lambda>_ _. ok), sq_commit = ok, sq_rollback = (\<lambda>w. w)\<rparr>,
       ev_migrate = \<lparr>ml_abs = Inr, ml_source = (\<lambda>p. p), ml_new = (\<lambda>_ _. ok), ml_steps = (\<lambda>_. ok), ml_down = ok, ml_up = ok,
         ml_close = (\<lambda>w. ((None, None), w))\<rparr>,
       ev_exporter = (\<lambda>_. None), ev_trace_shutdown = ok, ev_version = ''dev'',
       ev_db = \<lparr>dl_parse_pgx = (\<lambda>_. Inl (Plain [])), dl_parse_mysql = (\<lambda>_. Inl (Plain [])), dl_format_mysql = my_Rest,
         dl_load_location = (\<lambda>_. None), dl_open = (\<lambda>_ _. None), dl_ping = (\<lambda>_ _ _. ok), dl_close = (\<lambda>_ w. w)\<rparr>,
       ev_db_close = (\<lambda>_. ok), ev_redis = \<lparr>rl_open = (\<lambda>_ w. w), rl_ping = (\<lambda>_. ok), rl_close = (\<lambda>w. w)\<rparr>,
       ev_redis_instrument = ok, ev_redis_close = ok,
       ev_bus = \<lparr>bl_new = (\<lambda>_. ok), bl_publish = (\<lambda>_ _ _. ok), bl_close = ok\<rparr>,
       ev_outlets = example_outlets, ev_verifier = (\<lambda>_ _. disabledApplicationVerifier_Check),
       ev_bindings = (\<lambda>_ _ _ w. (Inl (Plain []), w)),
       ev_opensearch = (\<lambda>_. Inr \<lparr>wi_perform = (\<lambda>_ _ w. (Inr \<lparr>rs_status = 200, rs_body = []\<rparr>, w)), wi_marshal = (\<lambda>_. Inr []),
         wi_unmarshal = (\<lambda>_. Inl (Plain [])), wi_decode = (\<lambda>_. Inl (Plain [])), wi_observe = None\<rparr>), ev_idle = ok,
       ev_auth = NewAuth (\<lambda>_ _ _ w. (Inl (Plain []), w)) (\<lambda>_ _ _ _ _ w. (Inl (Plain []), w)) (\<lambda>w. (Inr [], w)),
       ev_jwks = (\<lambda>_ _ _. Inr (\<lambda>_ _ w. (Inl (Plain []), w))), ev_jwks_close = ok,
       ev_consume = (\<lambda>_ _ _ w. w), ev_wait = ok, ev_files = example_files, ev_grpc = server, ev_http = server,
       ev_proxies = (\<lambda>_. None), ev_ctx = background\<rparr>)"

definition small_order :: "Part list" where
  "small_order = [PLogger, PMigration, PDatabase, PTracing, PRedis, PBus, PMetrics, PRegistry, PInbox, PCleaner, PEngine,
     PVerifier, PService, PProjection, PAuth, PAuthorizer, PHealth, PAccess, PIdempotency, PGrpcServer, PLimiter, PHandler,
     PHttpServer]"

lemma small_possible: "possible_order small_order"
  by (simp add: possible_order_def small_order_def invoked_def)

lemmas small_providers = newLogger_def NewLogging_def NewTracing_def runStartupMigration_def newDatabase_def newRedis_def
  newBusProvider_def NewBus_def newAuthProvider_def NewAuthRuntime_def NewGRPCServer_def serverCredentials_def rootCAs_def
  example_files_def newRegistryProvider_def NewRegistry_def newApplicationVerifier_def newSearchAccessResolver_def
  NewResolver_def RegistryGRPC_def hookless_def NewEngine_def NewRuntime_def NewHTTPServer_def projectionHook_def
  newSearchInbox_def newSearchInboxRetentionCleaner_def startSearchProjection_def

lemmas small_upstreams = example_upstream_def clientConfig_def Dial_def transportCredentials_def example_outlets_def second_def

lemma small_starts:
  "\<exists>a. assemble small_env small_config small_order newApp [] = (Inr a, [])
     \<and> map fst (ap_hooks a) = [PLogger, PBus, PRegistry, PEngine, PEngine, PProjection, PAuth, PGrpcServer, PHttpServer]
     \<and> startHooks (map snd (ap_hooks a)) [] = (replicate 9 None, [])"
  by (simp add: small_order_def small_env_def small_config_def example_config_def setDefaults_def newApp_def Let_def provide_def
      taken_def small_providers small_upstreams StopHook_def no_hook_def grpcStart_def httpStart_def ensureIndex_def success_def
      numeral_eq_Suc)

theorem no_traffic_before_index_witness:
  "\<exists>a results (i :: nat) engine wa wb. assemble small_env small_config small_order newApp [] = (Inr a, [])
     \<and> startHooks (map snd (ap_hooks a)) [] = (results, []) \<and> fst (ap_hooks a ! 8) = PHttpServer
     \<and> i < 8 \<and> ap_engine a = Some engine \<and> ensureIndex engine (ev_ctx small_env) wa = (None, wb)"
proof -
  obtain a where run: "assemble small_env small_config small_order newApp [] = (Inr a, [])"
    and parts: "map fst (ap_hooks a) = [PLogger, PBus, PRegistry, PEngine, PEngine, PProjection, PAuth, PGrpcServer, PHttpServer]"
    and starts: "startHooks (map snd (ap_hooks a)) [] = (replicate 9 None, [])"
    using small_starts by (elim exE conjE)
  have "length (ap_hooks a) = 9" using arg_cong [OF parts, of length] by simp
  then have server: "fst (ap_hooks a ! 8) = PHttpServer" using arg_cong [OF parts, of "\<lambda>ps. ps ! 8"] by simp
  have "wired [] small_order" using small_possible by (simp add: possible_order_def)
  from no_traffic_before_index [OF this run startHooks_in_order starts, of 8] server
  obtain i :: nat and engine wa wb where "i < 8" "ap_engine a = Some engine" "ensureIndex engine (ev_ctx small_env) wa = (None, wb)"
    by auto
  with run starts server show ?thesis by blast
qed

text \<open>No constructor of the application lacks what it takes, whatever order the library chooses.\<close>

lemma possible_order_complete:
  assumes "possible_order order"
  shows "fst (assemble E cfg order newApp w) \<noteq> Inl Missing
    \<and> (\<forall>a w'. assemble E cfg order newApp w = (Inr a, w') \<longrightarrow>
         list_all (available a) order \<and> {PService, PEngine, PAuth, PAccess} \<subseteq> set order)"
proof -
  have order: "wired [] order" and invoked: "set invoked \<subseteq> set order" using assms by (simp_all add: possible_order_def)
  have start: "supplied [] newApp" by (simp add: supplied_def)
  have used: "p \<in> set order" if "q \<in> set invoked" "p \<in> set (needs q)" for p q
  proof -
    have "q \<in> set order" using that(1) invoked by blast
    then obtain as bs where "order = as @ q # bs" unfolding in_set_conv_decomp by (elim exE)
    then show ?thesis using wired_needs [OF _ that(2)] order by auto
  qed
  have "PService \<in> set order" by (rule used [of PProjection]) (simp_all add: invoked_def)
  moreover have "PAccess \<in> set order" "PAuth \<in> set order" by (rule used [of PGrpcServer], simp_all add: invoked_def)+
  moreover have "PEngine \<in> set order"
  proof -
    obtain as bs where "order = as @ PService # bs" using \<open>PService \<in> set order\<close> unfolding in_set_conv_decomp by (elim exE)
    then show ?thesis using wired_needs [of as PService bs PEngine] order by auto
  qed
  ultimately show ?thesis using assemble_supplied [OF order start, of E cfg w] by (auto simp: supplied_def)
qed

end
