(* ===== verification/Readback.thy ===== *)
theory Readback
  imports ProjectionWorker IndexQueries GrpcServer
begin

text \<open>
  Reading what was written: the queries of \<^verbatim>\<open>internal/searchstore/opensearch.go\<close> against the index that
  the writes leave, from the events of the bus to the answer of \<^verbatim>\<open>GetDocument\<close>.
\<close>

section \<open>A searchable index\<close>

text \<open>The document that the index holds under an identifier, if it holds one that decodes.\<close>

definition live :: "'w Store \<Rightarrow> ('w \<Rightarrow> stored index_view) \<Rightarrow> 'w \<Rightarrow> string \<Rightarrow> SearchDocument option" where
  "live e view w k =
     (case view w k of
        Some (v, Some data) \<Rightarrow> (case wi_unmarshal (st_wire e) data of Inr d \<Rightarrow> Some d | Inl _ \<Rightarrow> None)
      | _ \<Rightarrow> None)"

definition found :: "'w Store \<Rightarrow> ('w \<Rightarrow> stored index_view) \<Rightarrow> 'w \<Rightarrow> json \<Rightarrow> string \<Rightarrow> SearchDocument \<Rightarrow> bool" where
  "found e view w body k d \<longleftrightarrow> live e view w k = Some d \<and> list_all (filter_holds d) (query_filters body)"

text \<open>
  The keyword fields of the mapping that a document always has. A value longer than \<^verbatim>\<open>ignore_above\<close> (2048) is
  not indexed, and a \<^verbatim>\<open>terms\<close> clause has at most \<^verbatim>\<open>index.max_terms_count\<close> (65536) values.
\<close>

definition keywordFields :: "string list" where
  "keywordFields = [''id'', ''tenantId'', ''sourceService'', ''documentType'', ''applicationId'', ''permissionCode'', ''visibilityTokens'']"

definition indexable :: "SearchDocument \<Rightarrow> bool" where
  "indexable d \<longleftrightarrow> list_all (\<lambda>field. list_all (\<lambda>x. length x \<le> 2048) (doc_values d field)) keywordFields"

fun keyword_clause :: "json \<Rightarrow> bool" where
  "keyword_clause (JObj [(oper, JObj [(field, JStr x)])]) = (oper = ''term'' \<and> field \<in> set keywordFields)"
| "keyword_clause (JObj [(oper, JObj [(field, JArr xs)])]) =
     (oper = ''terms'' \<and> field \<in> set keywordFields \<and> length xs \<le> 65536)"
| "keyword_clause _ = False"

text \<open>A query for everything that passes its filter, from the first hit on, within the window of results.\<close>

definition query_must :: "json \<Rightarrow> json option" where
  "query_must body = Option.bind (Option.bind (jfield ''query'' body) (jfield ''bool'')) (jfield ''must'')"

definition query_size :: "json \<Rightarrow> int" where
  "query_size body = (case jfield ''size'' body of Some (JInt n) \<Rightarrow> n | _ \<Rightarrow> 10)"

definition plain_query :: "json \<Rightarrow> bool" where
  "plain_query body \<longleftrightarrow> query_must body = Some (JArr [JObj [(''match_all'', JObj [])]]) \<and> jfield ''from'' body = Some (JInt 0)
     \<and> query_size body \<le> 10000 \<and> list_all keyword_clause (query_filters body)"

text \<open>
  The documented behaviour of \<^verbatim>\<open>_search\<close> on an index that is available and was refreshed since its last
  write, which \<^verbatim>\<open>settled\<close> says of a state: such a query is answered; every hit is a document of the index that
  passes the filter; and if the documents that pass are no more than the size asked for, each of them
  whose keywords are indexed is among the hits.
\<close>

definition finds_documents :: "'w Store \<Rightarrow> ('w \<Rightarrow> stored index_view) \<Rightarrow> ('w \<Rightarrow> bool) \<Rightarrow> bool" where
  "finds_documents e view settled \<longleftrightarrow>
     (\<forall>ctx request visibility w body. settled w \<longrightarrow> body = buildSearchQuery request visibility \<longrightarrow> plain_query body \<longrightarrow>
        (\<exists>r w' raw. wi_perform (st_wire e) ctx
             \<lparr>rq_method = POST, rq_path = index_path e @ ''/_search'', rq_body = Some body\<rparr> w = (Inr r, w')
         \<and> success (rs_status r) \<and> wi_decode (st_wire e) (rs_body r) = Inr raw
         \<and> (\<forall>h \<in> set (rw_Hits raw). \<exists>k d. wi_unmarshal (st_wire e) (rh_Source h) = Inr d \<and> found e view w body k d)
         \<and> (finite {k. \<exists>d. found e view w body k d} \<longrightarrow> int (card {k. \<exists>d. found e view w body k d}) \<le> query_size body \<longrightarrow>
              (\<forall>k d. found e view w body k d \<longrightarrow> indexable d \<longrightarrow>
                 (\<exists>h \<in> set (rw_Hits raw). wi_unmarshal (st_wire e) (rh_Source h) = Inr d)))))"

text \<open>Documents are stored under their own identifiers.\<close>

definition own_ids :: "'w Store \<Rightarrow> ('w \<Rightarrow> stored index_view) \<Rightarrow> 'w \<Rightarrow> bool" where
  "own_ids e view w \<longleftrightarrow> (\<forall>k d. live e view w k = Some d \<longrightarrow> sd_Id d = k)"

section \<open>Get is a lookup\<close>

definition getRequest :: "string \<Rightarrow> string \<Rightarrow> SearchRequest" where
  "getRequest tenantID ident = empty_request\<lparr>sr_TenantId := tenantID, sr_Filters := [(''id'', Some [ident])],
     sr_Page := 1, sr_PageSize := 1\<rparr>"

lemma getRequest_plain:
  assumes "length visibility \<le> 65536"
  shows "plain_query (buildSearchQuery (getRequest tenantID ident) visibility)"
    and "query_size (buildSearchQuery (getRequest tenantID ident) visibility) = 1"
proof -
  have filters: "filterClauses (getRequest tenantID ident) visibility
      = [term1 ''tenantId'' tenantID, terms ''visibilityTokens'' visibility, terms ''id'' [ident]]"
    by (simp add: filterClauses_def getRequest_def empty_request_def allowedFilter_def)
  show "query_size (buildSearchQuery (getRequest tenantID ident) visibility) = 1"
    by (simp add: query_size_def buildSearchQuery_def Let_def getRequest_def)
  then show "plain_query (buildSearchQuery (getRequest tenantID ident) visibility)"
    using assms
    by (simp add: plain_query_def filters term1_def terms_def jstrs_def keywordFields_def)
      (simp add: query_must_def buildSearchQuery_def mustClause_def pageOffset_def getRequest_def empty_request_def Let_def)
qed

lemma found_get:
  assumes "tenantID \<noteq> []" and "ident \<noteq> []"
  shows "found e view w (buildSearchQuery (getRequest tenantID ident) visibility) k d \<longleftrightarrow>
     live e view w k = Some d \<and> sd_TenantId d = tenantID \<and> list_ex (\<lambda>t. t \<in> set visibility) (sd_VisibilityTokens d) \<and> sd_Id d = ident"
  using assms by (auto simp: found_def filterClauses_hold admitted_def getRequest_def empty_request_def allowedFilter_def doc_values_def)

text \<open>What a caller with some tokens may see under an identifier.\<close>

definition visible_at :: "'w Store \<Rightarrow> ('w \<Rightarrow> stored index_view) \<Rightarrow> 'w \<Rightarrow> string \<Rightarrow> string list \<Rightarrow> string \<Rightarrow> SearchDocument option" where
  "visible_at e view w tenantID visibility ident =
     (case live e view w ident of
        None \<Rightarrow> None
      | Some d \<Rightarrow> if sd_TenantId d = tenantID \<and> list_ex (\<lambda>t. t \<in> set visibility) (sd_VisibilityTokens d) then Some d else None)"

lemma decodeHits_same:
  "\<forall>h \<in> set hs. unmarshal (rh_Source h) = Inr d \<Longrightarrow>
     \<exists>hits. decodeHits unmarshal hs = Inr hits \<and> length hits = length hs \<and> (\<forall>h \<in> set hits. sh_Document h = d)"
  by (induction hs) auto

lemma Get_visible:
  assumes "finds_documents e view settled" and "settled w" and "own_ids e view w" and "length visibility \<le> 65536"
    and "case live e view w ident of None \<Rightarrow> True | Some d \<Rightarrow> indexable d"
    and "tenantID \<noteq> []" and "ident \<noteq> []"
  shows "\<exists>w'. Get e ctx tenantID ident visibility w
     = (case visible_at e view w tenantID visibility ident of None \<Rightarrow> Inl (Sentinel SearchNotFound) | Some d \<Rightarrow> Inr d, w')"
proof -
  let ?q = "getRequest tenantID ident"
  let ?body = "buildSearchQuery ?q visibility"
  have at: "found e view w ?body k d \<longleftrightarrow> k = ident \<and> visible_at e view w tenantID visibility ident = Some d" for k d
    using assms(3) by (auto simp: found_get [OF assms(6,7)] own_ids_def visible_at_def split: option.splits)
  have "{k. \<exists>d. found e view w ?body k d} \<subseteq> {ident}" using at by auto
  then have few: "finite {k. \<exists>d. found e view w ?body k d}" "card {k. \<exists>d. found e view w ?body k d} \<le> card {ident}"
    by (rule finite_subset, simp) (rule card_mono [OF _ \<open>{k. \<exists>d. found e view w ?body k d} \<subseteq> {ident}\<close>], simp)
  then have size: "int (card {k. \<exists>d. found e view w ?body k d}) \<le> query_size ?body"
    by (simp add: getRequest_plain(2) [OF assms(4)])
  note law = assms(1) [unfolded finds_documents_def, THEN spec, of ctx, THEN spec, of ?q, THEN spec, of visibility,
      THEN spec, of w, THEN spec, of ?body, THEN mp, OF assms(2), THEN mp, OF refl, THEN mp, OF getRequest_plain(1) [OF assms(4)]]
  obtain r w1 raw where answer: "wi_perform (st_wire e) ctx
        \<lparr>rq_method = POST, rq_path = index_path e @ ''/_search'', rq_body = Some ?body\<rparr> w = (Inr r, w1)"
      "success (rs_status r)" "wi_decode (st_wire e) (rs_body r) = Inr raw"
    and sound: "\<forall>h \<in> set (rw_Hits raw). \<exists>k d. wi_unmarshal (st_wire e) (rh_Source h) = Inr d \<and> found e view w ?body k d"
    and complete: "\<And>k d. found e view w ?body k d \<Longrightarrow> indexable d \<Longrightarrow>
        \<exists>h \<in> set (rw_Hits raw). wi_unmarshal (st_wire e) (rh_Source h) = Inr d"
    using law few(1) size by blast
  let ?visible = "visible_at e view w tenantID visibility ident"
  have hits: "\<forall>h \<in> set (rw_Hits raw). \<exists>d. wi_unmarshal (st_wire e) (rh_Source h) = Inr d \<and> ?visible = Some d"
    using sound at by fastforce
  obtain w2 where json: "doJSON e ctx POST (index_path e @ ''/_search'') (Some ?body) (wi_decode (st_wire e)) w = (Inr raw, w2)"
    using answer by (auto simp: doJSON_def success_def)
  show ?thesis
  proof (cases ?visible)
    case None
    then have "rw_Hits raw = []" using hits by (cases "rw_Hits raw") auto
    then show ?thesis using json None by (simp add: Get_def Search_def getRequest_def)
  next
    case (Some d)
    then have live: "live e view w ident = Some d" by (auto simp: visible_at_def split: option.splits if_splits)
    have same: "\<forall>h \<in> set (rw_Hits raw). wi_unmarshal (st_wire e) (rh_Source h) = Inr d" using hits Some by auto
    obtain hs where decoded: "decodeHits (wi_unmarshal (st_wire e)) (rw_Hits raw) = Inr hs"
      and docs: "length hs = length (rw_Hits raw)" "\<forall>h \<in> set hs. sh_Document h = d"
      using decodeHits_same [OF same] by (elim exE conjE)
    have "found e view w ?body ident d" using at Some by simp
    then have "rw_Hits raw \<noteq> []" using complete assms(5) live by fastforce
    then obtain h rest where "hs = h # rest" using docs(1) by (cases hs) auto
    then show ?thesis using json decoded docs(2) Some by (simp add: Get_def Search_def getRequest_def)
  qed
qed

lemma addVisibility_length: "length (addVisibility vs seen result) \<le> length result + length vs"
proof (induction vs seen result rule: addVisibility.induct)
  case (2 v vs seen result)
  then show ?case by (cases "TrimSpace v = []"; cases "TrimSpace v \<in> seen") (simp_all add: Let_def)
qed simp

lemma normalizeVisibility_length: "length (normalizeVisibility tenantID vs) \<le> length vs + 1"
  using addVisibility_length [of vs "{tenantToken tenantID}" "[tenantToken tenantID]"] by (simp add: normalizeVisibility_def)

lemma Service_Get_lookup:
  assumes "finds_documents e view settled" and "settled w" and "own_ids e view w"
    and "TrimSpace tenantID \<noteq> []" and "TrimSpace ident \<noteq> []" and "length visibility < 65536"
    and "case live e view w ident of None \<Rightarrow> True | Some d \<Rightarrow> indexable d"
  shows "\<exists>w1. Service_Get (store_service e check) ctx tenantID ident visibility w
     = (case visible_at e view w tenantID (normalizeVisibility tenantID visibility) ident of
          None \<Rightarrow> (Inl (Sentinel SearchNotFound), w1)
        | Some d \<Rightarrow>
            if sd_ApplicationId d = [] then (Inr d, w1)
            else (case authorizeApplications (store_service e check) ctx tenantID [sd_ApplicationId d] w1 of
                (Inl err, w2) \<Rightarrow> (Inl err, w2)
              | (Inr _, w2) \<Rightarrow> (Inr d, w2)))"
proof -
  have size: "length (normalizeVisibility tenantID visibility) \<le> 65536"
    using normalizeVisibility_length [of tenantID visibility] assms(6) by simp
  have "tenantID \<noteq> []" "ident \<noteq> []" using assms(4,5) by auto
  then obtain w1 where "Get e ctx tenantID ident (normalizeVisibility tenantID visibility) w
     = (case visible_at e view w tenantID (normalizeVisibility tenantID visibility) ident of
          None \<Rightarrow> Inl (Sentinel SearchNotFound) | Some d \<Rightarrow> Inr d, w1)"
    using Get_visible [OF assms(1-3) size, where ident = ident and ctx = ctx and tenantID = tenantID, OF assms(7)] by blast
  then show ?thesis using assms(4,5)
    by (intro exI [of _ w1]) (simp add: Service_Get_def store_engine_def split: option.split)
qed

text \<open>C11: Get is a lookup. On an index that is available and refreshed, whose documents are stored under their
  identifiers, a get through the service answers what a look into the index would: the document under
  the identifier, if it is of the tenant and carries the tenant-wide token or one of the caller's,
  and not found otherwise; a document of an application additionally needs the grant.\<close>

theorem Get_refines_lookup:
  assumes "finds_documents e view settled" and "settled w" and "own_ids e view w"
    and "TrimSpace tenantID \<noteq> []" and "TrimSpace ident \<noteq> []" and "length visibility < 65536"
    and "case live e view w ident of None \<Rightarrow> True | Some d \<Rightarrow> indexable d"
  shows "\<exists>w1. Service_Get (store_service e check) ctx tenantID ident visibility w
     = (case visible_at e view w tenantID (normalizeVisibility tenantID visibility) ident of
          None \<Rightarrow> (Inl (Sentinel SearchNotFound), w1)
        | Some d \<Rightarrow>
            if sd_ApplicationId d = [] then (Inr d, w1)
            else (case authorizeApplications (store_service e check) ctx tenantID [sd_ApplicationId d] w1 of
                (Inl err, w2) \<Rightarrow> (Inl err, w2)
              | (Inr _, w2) \<Rightarrow> (Inr d, w2)))"
  using assms by (rule Service_Get_lookup)

text \<open>The two ends of a lookup.\<close>

lemma Get_answer:
  assumes "finds_documents e view settled" and "settled w" and "own_ids e view w"
    and "TrimSpace tenantID \<noteq> []" and "TrimSpace ident \<noteq> []" and "length visibility < 65536"
    and "case live e view w ident of None \<Rightarrow> True | Some d \<Rightarrow> indexable d"
    and "visible_at e view w tenantID (normalizeVisibility tenantID visibility) ident = Some d"
    and "sd_ApplicationId d = [] \<or> (\<forall>v. mayUse (store_service e check) ctx tenantID [sd_ApplicationId d] v)"
  shows "\<exists>w'. Service_Get (store_service e check) ctx tenantID ident visibility w = (Inr d, w')"
proof -
  obtain w1 where get: "Service_Get (store_service e check) ctx tenantID ident visibility w
      = (if sd_ApplicationId d = [] then (Inr d, w1)
         else (case authorizeApplications (store_service e check) ctx tenantID [sd_ApplicationId d] w1 of
             (Inl err, w2) \<Rightarrow> (Inl err, w2)
           | (Inr _, w2) \<Rightarrow> (Inr d, w2)))"
    using Service_Get_lookup [OF assms(1-7), of check ctx] unfolding assms(8) option.case by (elim exE)
  show ?thesis
  proof (cases "sd_ApplicationId d = []")
    case False
    then have "mayUse (store_service e check) ctx tenantID [sd_ApplicationId d] w1" using assms(9) by blast
    then show ?thesis using get False authorizeApplications_iff [of "store_service e check" ctx tenantID "[sd_ApplicationId d]" w1] by auto
  qed (use get in simp)
qed

lemma Get_missing:
  assumes "finds_documents e view settled" and "settled w" and "own_ids e view w"
    and "TrimSpace tenantID \<noteq> []" and "TrimSpace ident \<noteq> []" and "length visibility < 65536"
    and "live e view w ident = None"
  shows "\<exists>w'. Service_Get (store_service e check) ctx tenantID ident visibility w = (Inl (Sentinel SearchNotFound), w')"
  using Service_Get_lookup [OF assms(1-6), of check ctx] assms(7) by (simp add: visible_at_def)

section \<open>A search lists what is admitted\<close>

lemma decodeHits_all:
  "\<forall>h \<in> set hs. \<exists>d. unmarshal (rh_Source h) = Inr d \<Longrightarrow>
     \<exists>hits. decodeHits unmarshal hs = Inr hits \<and> sh_Document ` set hits = {d. \<exists>h \<in> set hs. unmarshal (rh_Source h) = Inr d}"
proof (induction hs)
  case (Cons h hs)
  obtain d where d: "unmarshal (rh_Source h) = Inr d" using Cons.prems by auto
  obtain hits where "decodeHits unmarshal hs = Inr hits" "sh_Document ` set hits = {d. \<exists>h \<in> set hs. unmarshal (rh_Source h) = Inr d}"
    using Cons.IH Cons.prems by auto
  with d show ?case by auto
qed simp

definition matching :: "'w Store \<Rightarrow> ('w \<Rightarrow> stored index_view) \<Rightarrow> 'w \<Rightarrow> SearchRequest \<Rightarrow> string list \<Rightarrow> string \<Rightarrow> SearchDocument \<Rightarrow> bool" where
  "matching e view w request visibility k d \<longleftrightarrow> live e view w k = Some d \<and> admitted request visibility d"

lemma found_matching: "found e view w (buildSearchQuery r visibility) k d \<longleftrightarrow> matching e view w r visibility k d"
  by (simp add: found_def matching_def filterClauses_hold)

lemma Search_matching:
  assumes "finds_documents e view settled" and "settled w" and "plain_query (buildSearchQuery r visibility)"
    and "finite {k. \<exists>d. matching e view w r visibility k d}"
    and "card {k. \<exists>d. matching e view w r visibility k d} \<le> unat (sr_PageSize r)"
    and "\<And>k d. matching e view w r visibility k d \<Longrightarrow> indexable d"
  shows "\<exists>response w'. Search e ctx r visibility w = (Inr response, w')
    \<and> sh_Document ` set (sp_Hits response) = {d. \<exists>k. matching e view w r visibility k d}"
proof -
  let ?body = "buildSearchQuery r visibility"
  have size: "query_size ?body = int (unat (sr_PageSize r))" by (simp add: query_size_def buildSearchQuery_def Let_def)
  have few: "finite {k. \<exists>d. found e view w ?body k d}" "int (card {k. \<exists>d. found e view w ?body k d}) \<le> query_size ?body"
    unfolding found_matching size of_nat_le_iff by (rule assms(4), rule assms(5))
  note law = assms(1) [unfolded finds_documents_def, THEN spec, of ctx, THEN spec, of r, THEN spec, of visibility,
      THEN spec, of w, THEN spec, of ?body, THEN mp, OF assms(2), THEN mp, OF refl, THEN mp, OF assms(3)]
  obtain rs w1 raw where answer: "wi_perform (st_wire e) ctx
        \<lparr>rq_method = POST, rq_path = index_path e @ ''/_search'', rq_body = Some ?body\<rparr> w = (Inr rs, w1)"
      "success (rs_status rs)" "wi_decode (st_wire e) (rs_body rs) = Inr raw"
    and sound: "\<forall>h \<in> set (rw_Hits raw). \<exists>k d. wi_unmarshal (st_wire e) (rh_Source h) = Inr d \<and> matching e view w r visibility k d"
    and complete: "\<forall>k d. matching e view w r visibility k d \<longrightarrow> indexable d \<longrightarrow>
        (\<exists>h \<in> set (rw_Hits raw). wi_unmarshal (st_wire e) (rh_Source h) = Inr d)"
    using law few unfolding found_matching by blast
  obtain w2 where json: "doJSON e ctx POST (index_path e @ ''/_search'') (Some ?body) (wi_decode (st_wire e)) w = (Inr raw, w2)"
    using answer by (auto simp: doJSON_def success_def)
  obtain hits where hits: "decodeHits (wi_unmarshal (st_wire e)) (rw_Hits raw) = Inr hits"
    and docs: "sh_Document ` set hits = {d. \<exists>h \<in> set (rw_Hits raw). wi_unmarshal (st_wire e) (rh_Source h) = Inr d}"
    using decodeHits_all [of "rw_Hits raw" "wi_unmarshal (st_wire e)"] sound by blast
  have "sh_Document ` set hits = {d. \<exists>k. matching e view w r visibility k d}"
    unfolding docs using sound complete assms(6) by fastforce
  then show ?thesis using json hits by (simp add: Search_def)
qed


text \<open>Tokens are checked without the space around them and stored with it. A document can be accepted whose only
  token no query ever asks for.\<close>

theorem padded_token_unreachable:
  "acceptableDocument (example_document\<lparr>sd_VisibilityTokens := ['' user:u'']\<rparr>)
   \<and> \<not> admitted r (normalizeVisibility (sr_TenantId r) visibility) (example_document\<lparr>sd_VisibilityTokens := ['' user:u'']\<rparr>)"
proof -
  have "TrimSpace '' user:u'' \<noteq> '' user:u''" by (simp add: trim_eval)
  then have "'' user:u'' \<noteq> TrimSpace v" for v by (metis TrimSpace_idem)
  moreover have "'' user:u'' \<noteq> tenantToken t" for t by (simp add: tenantToken_def)
  ultimately have "'' user:u'' \<notin> set (normalizeVisibility (sr_TenantId r) visibility)" by (auto simp: set_normalizeVisibility)
  then have "\<not> admitted r (normalizeVisibility (sr_TenantId r) visibility) (example_document\<lparr>sd_VisibilityTokens := ['' user:u'']\<rparr>)"
    by (simp add: admitted_def)
  moreover have "acceptableDocument (example_document\<lparr>sd_VisibilityTokens := ['' user:u'']\<rparr>)"
    by (simp add: acceptableDocument_def completeDocument_def validateVisibility_def validToken_def subjectPrefixes_def
        example_document_def empty_document_def Let_def trim_eval)
  ultimately show ?thesis by (rule conjI [rotated])
qed

section \<open>From the events to the answers\<close>

text \<open>A colon survives the trimming of spaces, so no canonical identifier is blank.\<close>

lemma trim_with_keeps:
  assumes "c \<in> set s" and "\<not> ascii_space c"
    and "\<forall>a b. p2 a b \<longrightarrow> c \<noteq> a \<and> c \<noteq> b" and "\<forall>a b d. p3 a b d \<longrightarrow> c \<noteq> a \<and> c \<noteq> b \<and> c \<noteq> d"
  shows "c \<in> set (trim_with p2 p3 s)"
  using assms by (induction p2 p3 s rule: trim_with.induct) (auto split: if_splits, blast+)

lemma TrimSpace_colon:
  assumes "CHR '':'' \<in> set s"
  shows "TrimSpace s \<noteq> []"
proof -
  have "CHR '':'' \<in> set (trim_left s)" unfolding trim_left_def
    by (rule trim_with_keeps [OF assms]) (auto simp: ascii_space_def space2_def space3_def)
  then have "CHR '':'' \<in> set (rev (trim_left s))" by simp
  then have "CHR '':'' \<in> set (trim_with (\<lambda>b a. space2 a b) (\<lambda>c b a. space3 a b c) (rev (trim_left s)))"
    by (rule trim_with_keeps) (auto simp: ascii_space_def space2_def space3_def)
  then show ?thesis by (auto simp: TrimSpace_def trim_right_def)
qed

lemma CanonicalID_not_blank: "TrimSpace (CanonicalID a b c d) \<noteq> []"
  by (rule TrimSpace_colon) (simp add: CanonicalID_append)

text \<open>What a codec promises: a document that was encoded decodes to itself.\<close>

definition faithful_codec :: "'w Store \<Rightarrow> bool" where
  "faithful_codec e \<longleftrightarrow> (\<forall>d data. wi_marshal (st_wire e) d = Inr data \<longrightarrow> wi_unmarshal (st_wire e) data = Inr d)"

lemma event_document:
  assumes "faithful_codec e" and "event_payload e de en = Some data"
  shows "\<exists>d. event_change de en = Some (Upserted d) \<and> sd_Id d = event_key de en \<and> wi_unmarshal (st_wire e) data = Inr d"
proof -
  obtain c where c: "event_change de en = Some c" using assms(2) by (auto simp: event_payload_def split: option.splits)
  moreover from this obtain d where "c = Upserted d" "wi_marshal (st_wire e) d = Inr data"
    using assms(2) by (cases c) (auto simp: event_payload_def split: sum.splits)
  ultimately show ?thesis using assms(1) by (simp add: event_key_def faithful_codec_def)
qed

text \<open>
  A run of the projection in which every delivered event was handled without an error at least once, with
  unique event identifiers and one content for each document and version.
\<close>

definition projected ::
    "'w Store \<Rightarrow> 'w ApplicationAccess \<Rightarrow> 'w Process \<Rightarrow> Decoders \<Rightarrow> string \<Rightarrow> Ctx \<Rightarrow> ('w, err) call_err \<Rightarrow> 'w \<Rightarrow> 'w worker \<Rightarrow> bool" where
  "projected e check process de durable ctx clean w k \<longleftrightarrow>
     (\<exists>hasCleaner k0. onStart True True hasCleaner (newWorker w) = (None, k0)
        \<and> worker_run (handleEvent process de (store_service e check) durable ctx) clean k0 k)
     \<and> consistent (event_key de) (event_version de) (event_payload e de) (fst ` set (wk_log k))
     \<and> inj_on en_EventId (fst ` set (wk_log k)) \<and> (\<forall>en \<in> fst ` set (wk_log k). (en, None) \<in> set (wk_log k))"

text \<open>No event of a list is newer than this one for the same document.\<close>

definition newest :: "Decoders \<Rightarrow> Envelope list \<Rightarrow> Envelope \<Rightarrow> bool" where
  "newest de events en \<longleftrightarrow> en \<in> set events
     \<and> list_all (\<lambda>en'. event_key de en' = event_key de en \<longrightarrow> event_version de en' \<le> event_version de en) events"

text \<open>After its first success only deletions were delivered for the document of an event.\<close>

definition nothing_after :: "'w Store \<Rightarrow> Decoders \<Rightarrow> Envelope \<Rightarrow> (Envelope \<times> err option) list \<Rightarrow> bool" where
  "nothing_after e de en log \<longleftrightarrow>
     list_all (\<lambda>(en', r). event_key de en' = event_key de en \<longrightarrow> event_payload e de en' = None) (after_success en log)"

text \<open>What is in an index that such a run built from nothing.\<close>

lemma projected_view:
  assumes "forgetful_gte e view" and "inbox_contract process finished view" and "cleaner_contract clean finished view"
    and "projected e check process de durable ctx clean w k" and "view w = Map.empty" and "finished w = {}"
    and "set events = fst ` set (wk_log k)"
  shows "view (wk_world k) j = Some (v, p) \<Longrightarrow> \<exists>en \<in> set events. event_key de en = j \<and> event_payload e de en = p"
    and "newest de events en \<Longrightarrow> event_payload e de en = Some data \<Longrightarrow>
      view (wk_world k) (event_key de en) = Some (event_version de en, Some data)"
    and "newest de events en \<Longrightarrow> event_payload e de en = None \<Longrightarrow> nothing_after e de en (wk_log k) \<Longrightarrow>
      gone (view (wk_world k)) (event_key de en)"
proof -
  obtain hasCleaner k0 where run: "onStart True True hasCleaner (newWorker w) = (None, k0)"
      "worker_run (handleEvent process de (store_service e check) durable ctx) clean k0 k"
    and log: "consistent (event_key de) (event_version de) (event_payload e de) (fst ` set (wk_log k))"
      "inj_on en_EventId (fst ` set (wk_log k))" "\<forall>en \<in> fst ` set (wk_log k). (en, None) \<in> set (wk_log k)"
    using assms(4) unfolding projected_def by blast
  note projects = worker_run_projects [OF assms(1-3) run(1) assms(6) run(2) log(2)]
  show "view (wk_world k) j = Some (v, p) \<Longrightarrow> \<exists>en \<in> set events. event_key de en = j \<and> event_payload e de en = p"
    using forgetful_index.history_origin [OF projects(1,2), of j v p] by (auto simp: assms(5,7))
  assume new: "newest de events en"
  then have en: "en \<in> fst ` set (wk_log k)" and handled: "(en, None) \<in> set (wk_log k)"
    and bound: "\<And>d. d \<in> fst ` set (wk_log k) \<Longrightarrow> event_key de d = event_key de en \<Longrightarrow> event_version de d \<le> event_version de en"
    using log(3) unfolding newest_def assms(7) list_all_iff by blast+
  have empty: "\<And>v p. view w (event_key de en) = Some (v, p) \<Longrightarrow> v \<le> event_version de en" by (simp add: assms(5))
  have older: "event_version de d < event_version de en
      \<or> (event_version de d = event_version de en \<and> event_payload e de d = event_payload e de en)"
    if "d \<in> fst ` set (wk_log k)" "event_key de d = event_key de en" for d
    using bound [OF that] log(1) en that unfolding consistent_def by (metis order_le_less)
  show "event_payload e de en = Some data \<Longrightarrow> view (wk_world k) (event_key de en) = Some (event_version de en, Some data)"
    using forgetful_index.history_live [OF projects(1,2) projects(3) en _ empty older handled] .
  show "event_payload e de en = None \<Longrightarrow> nothing_after e de en (wk_log k) \<Longrightarrow> gone (view (wk_world k)) (event_key de en)"
    unfolding nothing_after_def
    using forgetful_index.history_gone [OF projects(1,2) projects(3) en _ empty bound handled] .
qed

lemma projected_own_ids:
  assumes "forgetful_gte e view" and "inbox_contract process finished view" and "cleaner_contract clean finished view"
    and "projected e check process de durable ctx clean w k" and "view w = Map.empty" and "finished w = {}"
    and "set events = fst ` set (wk_log k)" and "faithful_codec e" and "view w2 = view (wk_world k)"
  shows "own_ids e view w2"
  unfolding own_ids_def
proof (intro allI impI)
  fix j d
  assume "live e view w2 j = Some d"
  then obtain v data where at: "view (wk_world k) j = Some (v, Some data)" and d: "wi_unmarshal (st_wire e) data = Inr d"
    by (auto simp: live_def assms(9) split: option.splits sum.splits)
  obtain en where "event_key de en = j" "event_payload e de en = Some data"
    using projected_view(1) [OF assms(1-7) at] by blast
  then show "sd_Id d = j" using event_document [OF assms(8)] d by fastforce
qed

lemma upserted_canonical:
  assumes "event_change de en = Some (Upserted d)"
  shows "sd_Id d = CanonicalID (sd_TenantId d) (sd_SourceService d) (sd_DocumentType d) (sd_SourceId d)"
  using assms by (auto simp: event_change_def withCanonicalID_def split: if_splits sum.splits option.splits)

lemma upserted_live:
  assumes "faithful_codec e" and "event_change de en = Some (Upserted d)" and "wi_marshal (st_wire e) d = Inr data"
    and "view w (event_key de en) = Some (event_version de en, Some data)"
  shows "live e view w (sd_Id d) = Some d"
  using assms by (simp add: live_def event_key_def faithful_codec_def)



section \<open>A world that can be searched\<close>

text \<open>
  A world with a codec for one document and a search that finds it, whose index forgets every deletion before the
  next write; its index is settled while it holds nothing else.
\<close>

definition shelf_document :: SearchDocument where
  "shelf_document = withCanonicalID (empty_document\<lparr>sd_TenantId := ''t'', sd_SourceService := ''s'', sd_DocumentType := ''d'',
     sd_SourceId := ''1'', sd_Title := ''title'', sd_SourceVersion := 2, sd_VisibilityTokens := [''user:u'']\<rparr>)"

definition shelf_store :: "world Store" where
  "shelf_store = \<lparr>st_wire = \<lparr>
     wi_perform = (\<lambda>ctx rq w.
       if rq_method rq = POST
       then (Inr \<lparr>rs_status = 200, rs_body =
           (case rq_body rq of
              None \<Rightarrow> []
            | Some body \<Rightarrow>
                (case snd w ''t:s:d:1'' of
                   Some (v, Some data) \<Rightarrow>
                     if data = ''x'' \<and> list_all (filter_holds shelf_document) (query_filters body) then data else []
                 | _ \<Rightarrow> []))\<rparr>, w)
       else case ref_perform ''i'' ctx rq (fade (snd w)) of (res, m) \<Rightarrow> (res, (fst w, m))),
     wi_marshal = (\<lambda>d. if d = shelf_document then Inr ''x'' else Inl (Plain ''no codec'')),
     wi_unmarshal = (\<lambda>data. if data = ''x'' then Inr shelf_document else Inl (Plain ''no document'')),
     wi_decode = (\<lambda>body. Inr \<lparr>rw_Took = 0, rw_Total = 0,
       rw_Hits = (if body = [] then [] else [\<lparr>rh_Source = body, rh_Score = 0, rh_Highlight = []\<rparr>]), rw_Aggregations = []\<rparr>),
     wi_observe = None\<rparr>, st_index = ''i''\<rparr>"

definition shelf_settled :: "world \<Rightarrow> bool" where
  "shelf_settled w \<longleftrightarrow> dom (snd w) \<subseteq> {''t:s:d:1''}"

lemma shelf_simps [simp]:
  "st_index shelf_store = ''i''" "observe shelf_store status w = w"
  "wi_marshal (st_wire shelf_store) d = (if d = shelf_document then Inr ''x'' else Inl (Plain ''no codec''))"
  "wi_unmarshal (st_wire shelf_store) data = (if data = ''x'' then Inr shelf_document else Inl (Plain ''no document''))"
  "rq_method rq \<noteq> POST \<Longrightarrow> wi_perform (st_wire shelf_store) ctx rq w =
     (case ref_perform ''i'' ctx rq (fade (snd w)) of (res, m) \<Rightarrow> (res, (fst w, m)))"
  by (simp_all add: shelf_store_def observe_def)

lemma shelf_parse [simp]: "parse_document_path ''i'' (document_path shelf_store k v) = Some (k, sint v)"
  using parse_document_path [of shelf_store k v] by (simp del: parse_document_path)

lemma shelf_forgetful: "forgetful_gte shelf_store snd"
  unfolding forgetful_gte_def
  by (auto simp: ref_perform_def intro!: exI [of _ "fade m" for m] forgets_fade ref_write_outcome split: prod.splits)

lemma shelf_codec: "faithful_codec shelf_store"
  by (simp add: faithful_codec_def)

lemma shelf_live: "shelf_settled w \<Longrightarrow> live shelf_store snd w k = Some d \<longleftrightarrow>
     k = ''t:s:d:1'' \<and> d = shelf_document \<and> (\<exists>v. snd w ''t:s:d:1'' = Some (v, Some ''x''))"
  by (auto simp: live_def shelf_settled_def split: option.splits if_splits)

lemma shelf_finds: "finds_documents shelf_store snd shelf_settled"
  unfolding finds_documents_def
proof (intro allI impI)
  fix ctx request visibility and w :: world and body
  assume settled: "shelf_settled w"
  let ?text = "case snd w ''t:s:d:1'' of
      Some (v, Some data) \<Rightarrow> if data = ''x'' \<and> list_all (filter_holds shelf_document) (query_filters body) then data else []
    | _ \<Rightarrow> []"
  have hit: "?text \<noteq> [] \<longleftrightarrow> found shelf_store snd w body ''t:s:d:1'' shelf_document"
    by (auto simp: found_def shelf_live [OF settled] split: option.splits if_splits)
  have x: "?text \<noteq> [] \<Longrightarrow> ?text = ''x''" by (auto split: option.splits if_splits)
  have only: "found shelf_store snd w body k d \<Longrightarrow> k = ''t:s:d:1'' \<and> d = shelf_document" for k d
    by (simp add: found_def shelf_live [OF settled])
  show "\<exists>r w' raw. wi_perform (st_wire shelf_store) ctx
        \<lparr>rq_method = POST, rq_path = index_path shelf_store @ ''/_search'', rq_body = Some body\<rparr> w = (Inr r, w')
      \<and> success (rs_status r) \<and> wi_decode (st_wire shelf_store) (rs_body r) = Inr raw
      \<and> (\<forall>h \<in> set (rw_Hits raw). \<exists>k d. wi_unmarshal (st_wire shelf_store) (rh_Source h) = Inr d \<and> found shelf_store snd w body k d)
      \<and> (finite {k. \<exists>d. found shelf_store snd w body k d} \<longrightarrow> int (card {k. \<exists>d. found shelf_store snd w body k d}) \<le> query_size body \<longrightarrow>
           (\<forall>k d. found shelf_store snd w body k d \<longrightarrow> indexable d \<longrightarrow>
              (\<exists>h \<in> set (rw_Hits raw). wi_unmarshal (st_wire shelf_store) (rh_Source h) = Inr d)))"
  proof (intro exI conjI)
    let ?raw = "\<lparr>rw_Took = 0, rw_Total = 0, rw_Hits = (if ?text = [] then [] else [\<lparr>rh_Source = ?text, rh_Score = 0, rh_Highlight = []\<rparr>]),
      rw_Aggregations = []\<rparr>"
    show "wi_perform (st_wire shelf_store) ctx
        \<lparr>rq_method = POST, rq_path = index_path shelf_store @ ''/_search'', rq_body = Some body\<rparr> w = (Inr \<lparr>rs_status = 200, rs_body = ?text\<rparr>, w)"
      by (simp add: shelf_store_def)
    show "success (rs_status \<lparr>rs_status = 200, rs_body = ?text\<rparr>)" by (simp add: success_def)
    show "wi_decode (st_wire shelf_store) (rs_body \<lparr>rs_status = 200, rs_body = ?text\<rparr>) = Inr ?raw"
      by (simp add: shelf_store_def)
    show "\<forall>h \<in> set (rw_Hits ?raw). \<exists>k d. wi_unmarshal (st_wire shelf_store) (rh_Source h) = Inr d \<and> found shelf_store snd w body k d"
      using hit x by auto
    show "finite {k. \<exists>d. found shelf_store snd w body k d} \<longrightarrow> int (card {k. \<exists>d. found shelf_store snd w body k d}) \<le> query_size body \<longrightarrow>
           (\<forall>k d. found shelf_store snd w body k d \<longrightarrow> indexable d \<longrightarrow>
              (\<exists>h \<in> set (rw_Hits ?raw). wi_unmarshal (st_wire shelf_store) (rh_Source h) = Inr d))"
      using hit x only by fastforce
  qed
qed

section \<open>Instances\<close>

lemma deliveries:
  assumes "\<And>en w. en \<in> set ens \<Longrightarrow> \<exists>w'. run en w = (None, w')" and "wk_consumer k0 = Running"
  shows "\<exists>k. worker_run run clean k0 k \<and> wk_consumer k = Running \<and> wk_log k = wk_log k0 @ map (\<lambda>en. (en, None)) ens"
  using assms
proof (induction ens rule: rev_induct)
  case Nil
  then show ?case by (intro exI [of _ k0]) (simp add: worker_run.idle)
next
  case (snoc en ens)
  obtain k where k: "worker_run run clean k0 k" "wk_consumer k = Running" "wk_log k = wk_log k0 @ map (\<lambda>en. (en, None)) ens"
    using snoc.IH snoc.prems by auto
  obtain w' where "run en (wk_world k) = (None, w')" using snoc.prems(1) [of en "wk_world k"] by auto
  from worker_step.deliver [where handle = run and clean = clean, OF k(2) this] k
  show ?case
    by (intro exI [of _ "k\<lparr>wk_world := w', wk_log := wk_log k @ [(en, None)]\<rparr>"]) (auto intro: worker_run.more)
qed

lemma shelf_changes:
  "event_change example_decoders example_upserted = Some (Upserted shelf_document)"
  "event_change example_decoders example_deleted = Some (Deleted \<lparr>dk_TenantId = ''t'', dk_SourceService = ''s'',
     dk_DocumentType = ''d'', dk_SourceId = ''1'', dk_SourceVersion = 3\<rparr>)"
  by (simp_all add: example_changes shelf_document_def)

lemma shelf_applies:
  assumes "c \<in> {Upserted shelf_document, Deleted key}"
  shows "\<exists>w'. applyChange shelf_store ctx c w = (None, w')"
  using assms
  by (auto simp: Upsert_one Delete_one upsertOne_def deleteOne_def doJSON_def ref_perform_def ref_write_def
      success_def no_target_def Let_def simp del: Upsert.simps Delete.simps)

lemma shelf_handles:
  assumes "en \<in> {example_upserted, example_deleted}"
  shows "\<exists>w'. handleEvent ref_process example_decoders (store_service shelf_store allowAllApplications_Check) ''d'' background en w = (None, w')"
proof -
  obtain c where c: "event_change example_decoders en = Some c" "\<And>ctx w. \<exists>w'. applyChange shelf_store ctx c w = (None, w')"
    using assms shelf_changes shelf_applies by blast
  then have "\<exists>w'. applySearchEvent example_decoders background (store_service shelf_store allowAllApplications_Check) en w = (None, w')"
    using apply_cases [of example_decoders background shelf_store allowAllApplications_Check en w] by simp
  then obtain w' where "applySearchEvent example_decoders background (store_service shelf_store allowAllApplications_Check) en w = (None, w')"
    by (elim exE)
  moreover have "en_SchemaVersion en = 1" using assms by (auto simp: example_upserted_def example_deleted_def)
  ultimately show ?thesis by (simp add: handleEvent_def ref_process_def)
qed

lemma consistent_subset: "consistent key ver payload C \<Longrightarrow> U \<subseteq> C \<Longrightarrow> consistent key ver payload U"
  unfolding consistent_def by blast

lemma shelf_consistent:
  "U \<subseteq> {example_upserted, example_deleted} \<Longrightarrow> consistent (event_key example_decoders) (event_version example_decoders)
     (event_payload shelf_store example_decoders) U"
  by (erule consistent_subset [rotated]) (simp add: consistent_def example_key)

lemma shelf_projected:
  assumes "set ens \<subseteq> {example_upserted, example_deleted}"
  shows "\<exists>k. projected shelf_store allowAllApplications_Check ref_process example_decoders ''d'' background ref_clean ({}, Map.empty) k
     \<and> wk_log k = map (\<lambda>en. (en, None)) ens"
proof -
  let ?handle = "handleEvent ref_process example_decoders (store_service shelf_store allowAllApplications_Check) ''d'' background"
  have ids: "en_EventId example_upserted = ''e1''" "en_EventId example_deleted = ''e2''"
    by (simp_all add: example_upserted_def example_deleted_def)
  note started = example_started(1) and running = example_started(2,4)
  have handled: "\<exists>w'. ?handle en w = (None, w')" if "en \<in> set ens" for en w
    using that assms by (intro shelf_handles) blast
  obtain k where run: "worker_run ?handle ref_clean example_started k" and log: "wk_log k = map (\<lambda>en. (en, None)) ens"
    using deliveries [where ens = ens and run = ?handle and clean = ref_clean, OF handled running(1)] by (simp add: running(2)) blast
  have all: "fst ` set (wk_log k) = set ens" by (force simp: log)
  have "inj_on en_EventId (set ens)" by (rule inj_on_subset [OF _ assms]) (auto simp: inj_on_def ids)
  then have "projected shelf_store allowAllApplications_Check ref_process example_decoders ''d'' background ref_clean ({}, Map.empty) k"
    unfolding projected_def all using started run shelf_consistent [OF assms] by (auto simp: log)
  then show ?thesis using log by blast
qed

lemma shelf_built:
  assumes "projected shelf_store allowAllApplications_Check ref_process example_decoders ''d'' background ref_clean ({}, Map.empty) k"
    and "set ens = fst ` set (wk_log k)" and "set ens \<subseteq> {example_upserted, example_deleted}"
  shows "shelf_settled (wk_world k)"
  unfolding shelf_settled_def
proof
  fix x assume "x \<in> dom (snd (wk_world k))"
  then obtain v p where at: "snd (wk_world k) x = Some (v, p)" by auto
  obtain en where "en \<in> set ens" "event_key example_decoders en = x"
    using projected_view(1) [OF shelf_forgetful ref_process_contract ref_clean_contract assms(1) _ _ assms(2) at] by auto
  then show "x \<in> {''t:s:d:1''}" using assms(3) by (auto simp: example_key)
qed

lemma shelf_indexable: "indexable shelf_document"
  by (simp add: indexable_def keywordFields_def doc_values_def present_def shelf_document_def withCanonicalID_def CanonicalID_append empty_document_def)

text \<open>Its authorization service binds one role to whoever asks.\<close>

definition shelf_client :: "world BindingsClient" where
  "shelf_client ctx rq w = (Inr \<lparr>bp_Bindings = [\<lparr>bn_Status = ''active'', bn_RoleId = ''r1''\<rparr>], bp_Total = Some 1\<rparr>, w)"

definition shelf_server :: "world searchServer" where
  "shelf_server = \<lparr>ss_service = store_service shelf_store allowAllApplications_Check, ss_access = Some (Some shelf_client)\<rparr>"

lemma shelf_caller:
  "callerVisibility example_ctx ''t'' (ss_access shelf_server) w = (Inr [''user:u'', ''membership:m'', ''role:r1''], w)"
proof -
  let ?page = "\<lparr>bp_Bindings = [\<lparr>bn_Status = ''active'', bn_RoleId = ''r1''\<rparr>], bp_Total = Some 1\<rparr>"
  have pages: "listPages 100 shelf_client ctx ''t'' ''m'' 1 {} [''user:u'', ''membership:m''] w
      = (Inr [''user:u'', ''membership:m'', ''role:r1''], w)" for ctx
    by (rule listPages_last [where response = ?page and seen' = "{''r1''}"])
      (simp_all add: shelf_client_def pageSize_def)
  show ?thesis
    by (simp add: callerVisibility_def shelf_server_def VisibilityTokens_def example_ctx_def pages del: listPages.simps)
qed



theorem Get_refines_lookup_witness:
  "\<exists>w1. Service_Get (store_service shelf_store allowAllApplications_Check) background ''t'' ''t:s:d:1'' ['' user:u'']
       ({}, [''t:s:d:1'' \<mapsto> (2, Some ''x'')]) = (Inr shelf_document, w1)"
proof -
  let ?w = "({}, [''t:s:d:1'' \<mapsto> (2, Some ''x'')]) :: world"
  have settled: "shelf_settled ?w" by (simp add: shelf_settled_def)
  have fields: "sd_TenantId shelf_document = ''t''" "sd_Id shelf_document = ''t:s:d:1''" "sd_ApplicationId shelf_document = []"
      "sd_VisibilityTokens shelf_document = [''user:u'']"
    by (simp_all add: shelf_document_def withCanonicalID_def CanonicalID_append empty_document_def)
  have own: "own_ids shelf_store snd ?w" by (simp add: own_ids_def shelf_live [OF settled] fields)
  have live: "live shelf_store snd ?w ''t:s:d:1'' = Some shelf_document" by (simp add: shelf_live [OF settled])
  have visible: "visible_at shelf_store snd ?w ''t'' (normalizeVisibility ''t'' ['' user:u'']) ''t:s:d:1'' = Some shelf_document"
    by (simp add: visible_at_def live fields set_normalizeVisibility trim_eval)
  from Get_refines_lookup [OF shelf_finds settled own, of "''t''" "''t:s:d:1''" "['' user:u'']" allowAllApplications_Check background]
  show ?thesis unfolding visible live by (simp add: fields shelf_indexable trim_eval)
qed


end
