(* ===== verification/TokenID.thy ===== *)
theory TokenID
  imports Auth
begin

text \<open>
  The identifiers of issued tokens: \<^verbatim>\<open>randomID\<close> of \<^verbatim>\<open>internal/auth/jwt.go\<close>, with the unpadded URL encoding
  of \<^verbatim>\<open>encoding/base64\<close>.
\<close>

section \<open>base64.RawURLEncoding\<close>

definition urlAlphabet :: string where
  "urlAlphabet = ''ABCDEFGHIJKLMNOPQRSTUVWXYZabcdefghijklmnopqrstuvwxyz0123456789-_''"

definition digit64 :: "nat \<Rightarrow> char" where
  "digit64 n = urlAlphabet ! (n mod 64)"

text \<open>Three bytes are four digits; one or two bytes at the end are two or three digits.\<close>

fun encode64 :: "nat list \<Rightarrow> nat list" where
  "encode64 [] = []"
| "encode64 [a] = [a div 4, (a mod 4) * 16]"
| "encode64 [a, b] = [a div 4, (a mod 4) * 16 + b div 16, (b mod 16) * 4]"
| "encode64 (a # b # c # s) =
     (a div 4) # ((a mod 4) * 16 + b div 16) # ((b mod 16) * 4 + c div 64) # (c mod 64) # encode64 s"

definition RawURLEncoding :: "8 word list \<Rightarrow> string" where
  "RawURLEncoding bs = map digit64 (encode64 (map unat bs))"

text \<open>\<^verbatim>\<open>rand.Read\<close> as for request identifiers: an error, or the bytes.\<close>

definition randomID :: "('w, err, nat \<Rightarrow> 8 word) call \<Rightarrow> ('w, err, string) call" where
  "randomID random w =
     (case random w of
        (Inl e, w') \<Rightarrow> (Inl e, w')
      | (Inr f, w') \<Rightarrow> (Inr (RawURLEncoding (map f [0..<16])), w'))"

section \<open>Decoding gives the bytes back\<close>

fun decode64 :: "nat list \<Rightarrow> nat list" where
  "decode64 (p # q # r # s # rest) =
     (p * 4 + q div 16) # ((q mod 16) * 16 + r div 4) # ((r mod 4) * 64 + s) # decode64 rest"
| "decode64 [p, q, r] = [p * 4 + q div 16, (q mod 16) * 16 + r div 4]"
| "decode64 [p, q] = [p * 4 + q div 16]"
| "decode64 _ = []"

lemma sextets: "(a :: nat) div 4 * 4 + (a mod 4 * 16 + b div 16) div 16 = a" if "b < 256" for a b
proof -
  have "b div 16 < 16" using that by (simp add: less_mult_imp_div_less)
  then show ?thesis by simp
qed

lemma encode64_decode:
  "list_all (\<lambda>b. b < 256) bs \<Longrightarrow> decode64 (encode64 bs) = bs"
proof (induction bs rule: encode64.induct)
  case (2 a)
  then show ?case using sextets [of 0 a] by simp
next
  case (3 a b)
  have "(a mod 4 * 16 + b div 16) mod 16 = b div 16" using 3 by (simp add: less_mult_imp_div_less)
  then show ?case using 3 sextets [of b a] by simp
next
  case (4 a b c s)
  have "(a mod 4 * 16 + b div 16) mod 16 = b div 16" "(b mod 16 * 4 + c div 64) div 4 = b mod 16" "(b mod 16 * 4 + c div 64) mod 4 = c div 64"
    using 4 by (simp_all add: less_mult_imp_div_less)
  then show ?case using 4 sextets [of b a] by simp
qed simp

lemma encode64_small: "list_all (\<lambda>b. b < 256) bs \<Longrightarrow> list_all (\<lambda>n. n < 64) (encode64 bs)"
proof (induction bs rule: encode64.induct)
  case (4 a b c s)
  have "a mod 4 < 4" "b mod 16 < 16" "b div 16 < 16" "c div 64 < 4" using 4 by (simp_all add: less_mult_imp_div_less)
  then have "a mod 4 * 16 + b div 16 < 64" "b mod 16 * 4 + c div 64 < 64" by linarith+
  then show ?case using 4 by (simp add: less_mult_imp_div_less)
next
  case (3 a b)
  have "a mod 4 < 4" "b mod 16 < 16" "b div 16 < 16" using 3 by (simp_all add: less_mult_imp_div_less)
  then have "a mod 4 * 16 + b div 16 < 64" "b mod 16 * 4 < 64" by linarith+
  then show ?case using 3 by (simp add: less_mult_imp_div_less)
next
  case (2 a)
  have "a mod 4 < 4" by simp
  then have "a mod 4 * 16 < 64" by linarith
  then show ?case using 2 by (simp add: less_mult_imp_div_less)
qed simp

lemma digit64_inj: "m < 64 \<Longrightarrow> n < 64 \<Longrightarrow> digit64 m = digit64 n \<Longrightarrow> m = n"
proof -
  have "distinct urlAlphabet" "length urlAlphabet = 64" by (simp_all add: urlAlphabet_def)
  then show "m < 64 \<Longrightarrow> n < 64 \<Longrightarrow> digit64 m = digit64 n \<Longrightarrow> m = n"
    by (simp add: digit64_def nth_eq_iff_index_eq)
qed

text \<open>Two tokens have one identifier only if the same bytes were read for both.\<close>

theorem RawURLEncoding_inj: "RawURLEncoding as = RawURLEncoding bs \<longleftrightarrow> as = bs"
proof
  assume same: "RawURLEncoding as = RawURLEncoding bs"
  have "unat (c :: 8 word) < 256" for c using unsigned_less [of c] by simp
  then have bytes: "list_all (\<lambda>b. b < 256) (map unat (cs :: 8 word list))" for cs by (simp add: list_all_iff)
  let ?small = "{n. n < (64 :: nat)}"
  have inj: "inj_on digit64 ?small" by (auto simp: inj_on_def intro: digit64_inj)
  have "set (encode64 (map unat as)) \<union> set (encode64 (map unat bs)) \<subseteq> ?small"
    using encode64_small [OF bytes [of as]] encode64_small [OF bytes [of bs]] by (auto simp: list_all_iff)
  then have "inj_on digit64 (set (encode64 (map unat as)) \<union> set (encode64 (map unat bs)))"
    by (rule inj_on_subset [OF inj])
  moreover have "map digit64 (encode64 (map unat as)) = map digit64 (encode64 (map unat bs))"
    using same by (simp only: RawURLEncoding_def)
  ultimately have "encode64 (map unat as) = encode64 (map unat bs)" by (rule map_inj_on [rotated])
  then have "decode64 (encode64 (map unat as)) = decode64 (encode64 (map unat bs))" by (rule arg_cong)
  then have "map unat as = map unat bs" unfolding encode64_decode [OF bytes] .
  then show "as = bs" by (rule map_injective) (rule injI, simp only: word_unat_eq_iff)
qed simp

lemma randomID_error: "random w = (Inl e, w') \<Longrightarrow> randomID random w = (Inl e, w')"
  by (simp add: randomID_def)

text \<open>An issued token carries the identifier that was drawn for it.\<close>

lemma Issue_randomID:
  assumes "Enabled s" and "au_random s = randomID random" and "random w = (Inr f, w')"
  shows "Issue s subject w = au_sign s (au_issuer s) subject (RawURLEncoding (map f [0..<16])) (au_ttl s) (au_secret s) w'"
  using assms by (simp add: Issue_def randomID_def)

end
