(* ===== verification/Spec2Isabelle.thy ===== *)
theory Spec2Isabelle
  imports HttpAnswers HttpResponses Health Wiring Migration Startup Metrics GrpcServer ProjectionWorker RequestContext
    Breaker Entry Lifecycle Readback TokenID
begin

text \<open>
  A verification of the search service, a Go program that keeps a projection of other services'
  documents in OpenSearch and answers tenant-scoped searches over gRPC and HTTP.

  \<^bold>\<open>How the program is put together.\<close> Other services publish events or call the batch operations of the gRPC
  server; both end in \<^verbatim>\<open>internal/search\<close>, which checks and completes the documents and hands them to the
  engine in \<^verbatim>\<open>internal/searchstore\<close>, which writes each to OpenSearch under a path with an external version.
  Readers call the gRPC or the HTTP server. Both authenticate the caller (\<^verbatim>\<open>internal/auth\<close>), ask for the
  permission of the route, resolve the tokens the caller may see documents with (\<^verbatim>\<open>internal/searchauth\<close>) and
  call \<^verbatim>\<open>internal/search\<close>, which checks the applications of the request and queries the engine with the
  tokens as a filter. \<^verbatim>\<open>internal/config\<close> says how all of this is set up, and \<^verbatim>\<open>internal/app\<close> constructs it.

  \<^bold>\<open>Theories and code.\<close> Every theory opens with the files it models. A struct is a record with the fields of the
  struct behind a prefix, an operation is a definition with the name of the Go function (with a prefix such
  as \<^verbatim>\<open>http\<close> or \<^verbatim>\<open>grpc\<close> where two files use one name), and an error is a value of \<^verbatim>\<open>err\<close>, which keeps the
  chain that \<^verbatim>\<open>errors.Is\<close> and \<^verbatim>\<open>errors.As\<close> walk.
  \<^item> Foundations: \<^verbatim>\<open>Prelude\<close> (machine integers, calls on a state), \<^verbatim>\<open>GoStrings\<close>, \<^verbatim>\<open>GoEncoding\<close>,
    \<^verbatim>\<open>GoErrors\<close>, \<^verbatim>\<open>Messages\<close> (protocol messages and the context), \<^verbatim>\<open>RequestContext\<close>.
  \<^item> Search: \<^verbatim>\<open>SearchService\<close> (\<^verbatim>\<open>internal/search/service.go\<close>), \<^verbatim>\<open>SearchStore\<close>
    (\<^verbatim>\<open>internal/searchstore/opensearch.go\<close>), \<^verbatim>\<open>VersionedIndex\<close> (the abstract index: what OpenSearch
    promises about external versions), \<^verbatim>\<open>IndexWrites\<close> (writes refine the abstract index) and
    \<^verbatim>\<open>IndexQueries\<close> (queries return what is admitted), \<^verbatim>\<open>Readback\<close> (what was written is what is read, from
    events to answers).
  \<^item> Events (\<^verbatim>\<open>internal/app/search_projection.go\<close>): \<^verbatim>\<open>Projection\<close> (what one event does, and what deliveries
    converge to), \<^verbatim>\<open>ProjectionWorker\<close> (the goroutines, their start and stop, as a step relation).
  \<^item> Configuration: \<^verbatim>\<open>PathMatch\<close> (Go's \<^verbatim>\<open>path.Match\<close>), \<^verbatim>\<open>Config\<close>, \<^verbatim>\<open>ConfigLoad\<close> (\<^verbatim>\<open>internal/config\<close>).
  \<^item> Access: \<^verbatim>\<open>Auth\<close> (\<^verbatim>\<open>internal/auth\<close> and the authentication of gRPC), \<^verbatim>\<open>TokenID\<close> (the identifiers
    of issued tokens), \<^verbatim>\<open>SearchAuth\<close> (\<^verbatim>\<open>internal/searchauth\<close>).
  \<^item> gRPC: \<^verbatim>\<open>GrpcServer\<close> (\<^verbatim>\<open>internal/transport/grpc/server.go\<close>: handlers, interceptors, chains).
  \<^item> HTTP (\<^verbatim>\<open>internal/transport/http\<close>, \<^verbatim>\<open>internal/apperror\<close>, \<^verbatim>\<open>internal/ratelimit\<close>): \<^verbatim>\<open>HttpTypes\<close>,
    \<^verbatim>\<open>HttpMiddleware\<close>, \<^verbatim>\<open>HttpServer\<close> are the code; \<^verbatim>\<open>HttpGuards\<close>, \<^verbatim>\<open>HttpReads\<close>, \<^verbatim>\<open>HttpAnswers\<close>,
    \<^verbatim>\<open>HttpResponses\<close> are about it.
  \<^item> Clients: \<^verbatim>\<open>GrpcClient\<close> (\<^verbatim>\<open>internal/grpcclient\<close>), \<^verbatim>\<open>HttpClient\<close> (\<^verbatim>\<open>internal/outbound/http.go\<close>),
    \<^verbatim>\<open>Breaker\<close> (what the circuit breakers of the two count), \<^verbatim>\<open>Wiring\<close> (\<^verbatim>\<open>internal/outbound/registry.go\<close> and
    what the application takes from the registry).
  \<^item> Operations: \<^verbatim>\<open>Health\<close>, \<^verbatim>\<open>Metrics\<close>, \<^verbatim>\<open>Database\<close>, \<^verbatim>\<open>Migration\<close> (with \<^verbatim>\<open>cmd/migrate\<close>), \<^verbatim>\<open>Cache\<close>,
    \<^verbatim>\<open>Startup\<close> (the constructors with their start and stop hooks), \<^verbatim>\<open>Lifecycle\<close> (\<^verbatim>\<open>app.New\<close>: the parts put
    together in any order their parameters allow), \<^verbatim>\<open>Entry\<close> (\<^verbatim>\<open>cmd/api\<close>, \<^verbatim>\<open>internal/buildinfo\<close>).

  \<^bold>\<open>State and libraries.\<close> The state \<^verbatim>\<open>'w\<close> is whatever lies behind the program's libraries: OpenSearch, the
  other services, the clock, the metrics. An operation takes and returns it, so the order of effects is that
  of the code. A library is a record of functions on \<^verbatim>\<open>'w\<close> and an argument of the definitions that use it; what
  is assumed of one is a named predicate, and a concrete instance satisfies it in the witness of each
  theorem that needs it: \<^verbatim>\<open>lock_table\<close>, \<^verbatim>\<open>transactional\<close>, \<^verbatim>\<open>counts_open\<close>, \<^verbatim>\<open>counting_breaker\<close>, \<^verbatim>\<open>kept_by\<close>,
  \<^verbatim>\<open>starts_in_order\<close>, \<^verbatim>\<open>finds_documents\<close> (how OpenSearch answers a query once the index is refreshed),
  \<^verbatim>\<open>faithful_codec\<close> (documents survive the protobuf JSON codec), \<^verbatim>\<open>clients_ignore_transport\<close> (a client reads the values of a
  context, not how the request came), the Inbox contract of \<^verbatim>\<open>Projection\<close> and the versioned index of
  \<^verbatim>\<open>VersionedIndex\<close>, in two strengths: \<^verbatim>\<open>external_gte\<close> is OpenSearch within the period
  \<^verbatim>\<open>index.gc_deletes\<close> for which it remembers deletions, \<^verbatim>\<open>forgetful_gte\<close> lets it forget any deletion at any time.

  \<^bold>\<open>What is shown.\<close>
  \<^item> Writing: batches are accepted whole or refused whole; writes and events in any order, repeated and with
    failures between them, converge to the same index (a refinement of the abstract index), and no step
    lowers a version, as long as deletions are remembered. Of an index that forgets them the running
    projection still keeps the documents exactly, and a deleted document is gone if no older upsert
    of it is delivered after the deletion. Only an authenticated service changes the index over gRPC.
  \<^item> Reading: through the service, gRPC and HTTP, only documents of the requested tenant come back that the caller
    has a token for: by its user, its membership or a role listed as actively bound to it; the query's filter
    means exactly that; the transports agree, and each search route needs
    authentication and its permission. And nothing is lost: over an index that answers as documented, a get is the
    lookup restricted to what the caller may see, a search lists exactly what is admitted, a published document is
    readable for the holders of its tokens and a deleted one is gone, under the condition above.
  \<^item> Errors: answers reveal only the public statuses; panics are contained; every HTTP request is answered
    exactly once.
  \<^item> Outbound calls: how often each is sent, where it goes, what it carries.
  \<^item> Configuration and construction: what an accepted (production) configuration guarantees of the running
    application; nothing is served before the index exists; schema creation
    and database URLs; transactions, locks, the Redis client, metrics.

  The interfaces are locales with interpretations on the model: the middlewares and their chains (\<^verbatim>\<open>conduit\<close>,
  \<^verbatim>\<open>guard\<close>, \<^verbatim>\<open>relay\<close>), the client interceptors (\<^verbatim>\<open>conveys\<close>), the attempts of a request (\<^verbatim>\<open>budget\<close>), and
  the index the writes go to, remembering (\<^verbatim>\<open>versioned_index\<close>) or forgetting deletions (\<^verbatim>\<open>forgetful_index\<close>).

  \<^bold>\<open>Bounds.\<close> Loops over lists are recursions on the lists. The pages of role bindings end after 100 because the code
  refuses a total above 10,000 with pages of 100; the retry loops recurse on the attempts that are left, as many
  as the policy has. No definition can run out of fuel. Page numbers and counters keep their Go width;
  durations are integers, wrapped to 64 bits where the code shifts or multiplies them.

  \<^bold>\<open>Divergences found.\<close> A page above 42,949,673 wraps to the top of the results (the multiplication is in 32
  bits). Colons in the parts make canonical identifiers of different tenants collide. A search without
  \<^verbatim>\<open>application_ids\<close> returns documents whose application a get refuses. Tokens \<^verbatim>\<open>service-account:\<close> are accepted for
  indexing but nobody holds them. Tokens are checked trimmed but stored as they came, so a padded one is accepted
  and matches no caller. A NaN passes as a sample ratio. The HTTP client tests \<^verbatim>\<open>tls.enabled\<close> instead
  of the scheme before it sends credentials, and refuses what validation accepts with \<^verbatim>\<open>allow_insecure\<close>. A
  MySQL migration URL without a path loses its host. The gRPC breaker excludes successes, so they never reset
  its consecutive failures. The health service's List always reports serving. The index is created without
  a period for remembering deletions, so an older upsert that is delivered more than OpenSearch's default minute
  after a deletion restores the document. Without a resolver the gRPC server lets a principal
  without an identifier ask about another tenant, which the HTTP server refuses.

  \<^bold>\<open>Not modelled.\<close> Log lines, but for the access log, and tracing spans (no decision depends on them);
  goroutines as such: the health checks are modelled in every order of their results, and the event
  consumer and the retention cleaner as interleaved steps, each step whole; which of the orders that the
  parameters allow the fx library chooses (the theorems hold for each); the
  latencies that metrics observe; the Prometheus, pprof and Swagger pages; the parsing of flags; \<^verbatim>\<open>docs/docs.go\<close> (generated).
\<close>

end
